theory Spec2Isabelle
  imports Main "HOL-Library.Word"
begin

unbundle bit_operations_syntax

section \<open>Atomic operations under an explicit schedule\<close>

text \<open>
  The C code synchronises through C11 atomics.  A call is modelled as one thread's
  execution; what the other threads do to a location between this thread's load and its
  compare-and-swap is given by a schedule, one event per compare-and-swap attempt:
  \<^item> \<open>Quiet\<close>: nothing happens, the location still holds the loaded value;
  \<^item> \<open>Interfere v\<close>: another thread stores \<open>v\<close> into the location;
  \<^item> \<open>Spurious\<close>: nothing is stored, but a weak compare-and-swap fails all the same
    (a strong one cannot).
  A schedule that has run out is quiet.
\<close>

datatype 'a cas_event = Quiet | Interfere 'a | Spurious

fun next_event :: "'a cas_event list \<Rightarrow> 'a cas_event" where
  "next_event [] = Quiet"
| "next_event (e # es) = e"

fun is_local :: "'a cas_event \<Rightarrow> bool" where
  "is_local (Interfere v) = False"
| "is_local e = True"

fun is_quiet :: "'a cas_event \<Rightarrow> bool" where
  "is_quiet Quiet = True"
| "is_quiet e = False"

text \<open>The value another thread leaves in a location that held \<open>loc\<close>.\<close>

fun after_event :: "'a cas_event \<Rightarrow> 'a \<Rightarrow> 'a" where
  "after_event (Interfere v) loc = v"
| "after_event e loc = loc"

text \<open>\<open>atomic_compare_exchange_strong\<close>: success flag and new content of the location.\<close>

definition cas_strong :: "'a cas_event \<Rightarrow> 'a \<Rightarrow> 'a \<Rightarrow> 'a \<Rightarrow> bool \<times> 'a" where
  "cas_strong ev loc expected desired =
     (let now = after_event ev loc
      in if now = expected then (True, desired) else (False, now))"

text \<open>\<open>atomic_compare_exchange_weak\<close>: as the strong one, but it may fail spuriously.\<close>

definition cas_weak :: "'a cas_event \<Rightarrow> 'a \<Rightarrow> 'a \<Rightarrow> 'a \<Rightarrow> bool \<times> 'a" where
  "cas_weak ev loc expected desired =
     (case ev of Spurious \<Rightarrow> (False, loc) | _ \<Rightarrow> cas_strong ev loc expected desired)"

text \<open>
  For the statements about retry loops: the first \<open>n\<close> compare-and-swap attempts of a
  loop that re-reads the location before each attempt all fail (a \<open>Spurious\<close> event
  fails a weak compare-and-swap only, an interfering store fails one when it changes the
  value), and the value the schedule's first \<open>n\<close> events leave in the location.
\<close>

fun cas_attempts_fail :: "bool \<Rightarrow> nat \<Rightarrow> 'a cas_event list \<Rightarrow> 'a \<Rightarrow> bool" where
  "cas_attempts_fail weak 0 es loc = True"
| "cas_attempts_fail weak (Suc n) es loc =
     ((case next_event es of
         Quiet \<Rightarrow> False
       | Interfere v \<Rightarrow> v \<noteq> loc
       | Spurious \<Rightarrow> weak)
      \<and> cas_attempts_fail weak n (tl es) (after_event (next_event es) loc))"

definition schedule_value :: "nat \<Rightarrow> 'a cas_event list \<Rightarrow> 'a \<Rightarrow> 'a" where
  "schedule_value n es loc = foldl (\<lambda>x e. after_event e x) loc (take n es)"

section \<open>StatusTracker (strategy\_status.h, strategy\_status.c)\<close>

datatype StrategyResult =
    STRATEGY_SUCCESS
  | STRATEGY_NULL_POINTER
  | STRATEGY_INVALID_STATE
  | STRATEGY_OVERFLOW
  | STRATEGY_ATOMIC_FAILURE

text \<open>
  \<open>StrategyStatus\<close> is a C enum without negative enumerators: an unsigned 32-bit value,
  which the code compares against \<open>STRATEGY_MAX_STATE\<close> because a caller can cast any
  integer to it.
\<close>

type_synonym StrategyStatus = "32 word"

definition STRATEGY_STATE_INITIALIZED :: StrategyStatus where
  "STRATEGY_STATE_INITIALIZED = 0"

definition STRATEGY_STATE_ACTIVE :: StrategyStatus where
  "STRATEGY_STATE_ACTIVE = 1"

definition STRATEGY_STATE_ERROR :: StrategyStatus where
  "STRATEGY_STATE_ERROR = 2"

definition STRATEGY_STATE_TRANSITIONING :: StrategyStatus where
  "STRATEGY_STATE_TRANSITIONING = 3"

definition STRATEGY_MAX_STATE :: StrategyStatus where
  "STRATEGY_MAX_STATE = STRATEGY_STATE_TRANSITIONING"

definition STRATEGY_MAX_RETRIES :: nat where
  "STRATEGY_MAX_RETRIES = 3"

definition UINT64_MAX :: "64 word" where
  "UINT64_MAX = 0xFFFFFFFFFFFFFFFF"

record StatusTracker =
  current_status :: StrategyStatus
  transition_count :: "64 word"
  error_count :: "64 word"

text \<open>Rows are the current state, columns the next one.\<close>

definition VALID_TRANSITIONS :: "8 word list list" where
  "VALID_TRANSITIONS =
     [[0, 1, 1, 1],
      [0, 0, 1, 1],
      [1, 1, 0, 1],
      [1, 1, 1, 0]]"

definition check_counter_overflow :: "64 word \<Rightarrow> StrategyResult" where
  "check_counter_overflow current_value =
     (if current_value \<ge> UINT64_MAX then STRATEGY_OVERFLOW else STRATEGY_SUCCESS)"

definition perform_atomic_increment ::
  "64 word cas_event \<Rightarrow> 64 word \<Rightarrow> 64 word \<Rightarrow> StrategyResult \<times> 64 word" where
  "perform_atomic_increment ev counter old_value =
     (case cas_weak ev counter old_value (old_value + 1) of
        (success, counter') \<Rightarrow>
          (if success then STRATEGY_SUCCESS else STRATEGY_ATOMIC_FAILURE, counter'))"

text \<open>
  The retry loop of \<open>atomic_increment_with_check\<close>; the first argument counts the
  attempts that are left.  When they are used up the function returns
  \<open>STRATEGY_ATOMIC_FAILURE\<close>: there is nothing after the loop that adds to the counter.
\<close>

fun atomic_increment_loop ::
  "nat \<Rightarrow> 64 word cas_event list \<Rightarrow> 64 word \<Rightarrow> StrategyResult \<times> 64 word" where
  "atomic_increment_loop 0 es counter = (STRATEGY_ATOMIC_FAILURE, counter)"
| "atomic_increment_loop (Suc n) es counter =
     (let old_count = counter;
          overflow_check = check_counter_overflow old_count
      in if overflow_check \<noteq> STRATEGY_SUCCESS then (overflow_check, counter)
         else (case perform_atomic_increment (next_event es) counter old_count of
                 (increment_result, counter') \<Rightarrow>
                   if increment_result = STRATEGY_SUCCESS then (STRATEGY_SUCCESS, counter')
                   else atomic_increment_loop n (tl es) counter'))"

text \<open>
  The callers pass the address of a field of a tracker that is not null, so the
  \<open>counter == NULL\<close> branch is taken by the \<open>None\<close> of the tracker in
  \<open>transition_status\<close> below.
\<close>

definition atomic_increment_with_check ::
  "64 word cas_event list \<Rightarrow> 64 word \<Rightarrow> StrategyResult \<times> 64 word" where
  "atomic_increment_with_check es counter =
     atomic_increment_loop STRATEGY_MAX_RETRIES es counter"

definition validate_state_transition :: "StrategyStatus \<Rightarrow> StrategyStatus \<Rightarrow> StrategyResult" where
  "validate_state_transition current nxt =
     (if current > STRATEGY_MAX_STATE \<or> nxt > STRATEGY_MAX_STATE then STRATEGY_INVALID_STATE
      else if VALID_TRANSITIONS ! unat current ! unat nxt \<noteq> 0 then STRATEGY_SUCCESS
      else STRATEGY_INVALID_STATE)"

text \<open>
  \<open>perform_atomic_operation\<close> does the strong compare-and-swap first and asks
  \<open>atomic_is_lock_free\<close> afterwards; whether the platform's atomic enum is lock-free is
  the first argument.
\<close>

definition perform_atomic_operation ::
  "bool \<Rightarrow> StrategyStatus cas_event \<Rightarrow> StrategyStatus \<Rightarrow> StrategyStatus \<Rightarrow> StrategyStatus
   \<Rightarrow> StrategyResult \<times> StrategyStatus" where
  "perform_atomic_operation lock_free ev status cur_status new_status =
     (case cas_strong ev status cur_status new_status of
        (success, status') \<Rightarrow>
          if \<not> lock_free then (STRATEGY_ATOMIC_FAILURE, status')
          else (if success then STRATEGY_SUCCESS else STRATEGY_ATOMIC_FAILURE, status'))"

fun atomic_transition_loop ::
  "nat \<Rightarrow> bool \<Rightarrow> StrategyStatus cas_event list \<Rightarrow> StrategyStatus \<Rightarrow> StrategyStatus
   \<Rightarrow> StrategyResult \<times> StrategyStatus" where
  "atomic_transition_loop 0 lock_free es status new_status = (STRATEGY_ATOMIC_FAILURE, status)"
| "atomic_transition_loop (Suc n) lock_free es status new_status =
     (let cur_status = status;
          validation_result = validate_state_transition cur_status new_status
      in if validation_result \<noteq> STRATEGY_SUCCESS then (validation_result, status)
         else (case perform_atomic_operation lock_free (next_event es) status cur_status
                      new_status of
                 (operation_result, status') \<Rightarrow>
                   if operation_result = STRATEGY_SUCCESS then (STRATEGY_SUCCESS, status')
                   else atomic_transition_loop n lock_free (tl es) status' new_status))"

definition atomic_transition_status ::
  "bool \<Rightarrow> StrategyStatus cas_event list \<Rightarrow> StrategyStatus \<Rightarrow> StrategyStatus
   \<Rightarrow> StrategyResult \<times> StrategyStatus" where
  "atomic_transition_status lock_free es status new_status =
     atomic_transition_loop STRATEGY_MAX_RETRIES lock_free es status new_status"

text \<open>What surrounds one call of \<open>transition_status\<close>.\<close>

record atomic_env =
  lock_free :: bool
  status_events :: "StrategyStatus cas_event list"
  transition_events :: "64 word cas_event list"
  error_events :: "64 word cas_event list"

definition quiet_env :: atomic_env where
  "quiet_env = \<lparr>lock_free = True, status_events = [], transition_events = [],
                 error_events = []\<rparr>"

text \<open>
  The call runs uncontended: the atomic status is lock-free, no other thread touches the
  tracker during the call and no attempt fails.
\<close>

definition uncontended :: "atomic_env \<Rightarrow> bool" where
  "uncontended env \<longleftrightarrow>
     lock_free env \<and> list_all is_quiet (status_events env)
     \<and> list_all is_quiet (transition_events env) \<and> list_all is_quiet (error_events env)"


definition validate_transition_input :: "StatusTracker option \<Rightarrow> StrategyStatus \<Rightarrow> StrategyResult" where
  "validate_transition_input tracker new_status =
     (if tracker = None then STRATEGY_NULL_POINTER
      else if new_status > STRATEGY_MAX_STATE then STRATEGY_INVALID_STATE
      else STRATEGY_SUCCESS)"

definition handle_state_transition ::
  "atomic_env \<Rightarrow> StatusTracker \<Rightarrow> StrategyStatus \<Rightarrow> StrategyResult \<times> StatusTracker" where
  "handle_state_transition env tracker new_status =
     (case atomic_transition_status (lock_free env) (status_events env)
             (current_status tracker) new_status of
        (result, status') \<Rightarrow> (result, tracker\<lparr>current_status := status'\<rparr>))"

definition update_transition_counters ::
  "atomic_env \<Rightarrow> StatusTracker \<Rightarrow> StrategyStatus \<Rightarrow> StrategyResult \<times> StatusTracker" where
  "update_transition_counters env tracker new_status =
     (case atomic_increment_with_check (transition_events env) (transition_count tracker) of
        (result, tc) \<Rightarrow>
          let tracker1 = tracker\<lparr>transition_count := tc\<rparr>
          in if result \<noteq> STRATEGY_SUCCESS then (result, tracker1)
             else if new_status = STRATEGY_STATE_ERROR then
               (case atomic_increment_with_check (error_events env) (error_count tracker1) of
                  (result2, ec) \<Rightarrow>
                    let tracker2 = tracker1\<lparr>error_count := ec\<rparr>
                    in if result2 \<noteq> STRATEGY_SUCCESS then (result2, tracker2)
                       else (STRATEGY_SUCCESS, tracker2))
             else (STRATEGY_SUCCESS, tracker1))"

text \<open>The tracker pointer is \<open>None\<close> when it is null.\<close>

definition transition_status ::
  "atomic_env \<Rightarrow> StatusTracker option \<Rightarrow> StrategyStatus
   \<Rightarrow> StrategyResult \<times> StatusTracker option" where
  "transition_status env tracker new_status =
     (let result = validate_transition_input tracker new_status
      in if result \<noteq> STRATEGY_SUCCESS then (result, tracker)
         else (case tracker of
                 None \<Rightarrow> (STRATEGY_NULL_POINTER, None)
               | Some t \<Rightarrow>
                   (case handle_state_transition env t new_status of
                      (result1, t1) \<Rightarrow>
                        if result1 \<noteq> STRATEGY_SUCCESS then (result1, Some t1)
                        else (case update_transition_counters env t1 new_status of
                                (result2, t2) \<Rightarrow>
                                  if result2 \<noteq> STRATEGY_SUCCESS then (result2, Some t2)
                                  else (STRATEGY_SUCCESS, Some t2)))))"

definition initialize_status :: "StatusTracker option \<Rightarrow> StrategyResult \<times> StatusTracker option" where
  "initialize_status tracker =
     (case tracker of
        None \<Rightarrow> (STRATEGY_NULL_POINTER, None)
      | Some t \<Rightarrow>
          (STRATEGY_SUCCESS,
           Some (t\<lparr>current_status := STRATEGY_STATE_INITIALIZED, transition_count := 0,
                   error_count := 0\<rparr>)))"

definition get_current_status :: "StatusTracker option \<Rightarrow> StrategyResult \<times> StrategyStatus option" where
  "get_current_status tracker =
     (case tracker of
        None \<Rightarrow> (STRATEGY_NULL_POINTER, None)
      | Some t \<Rightarrow> (STRATEGY_SUCCESS, Some (current_status t)))"

section \<open>Validator and MemoryStrategy (memory\_strategy.h, strategy\_validator.c)\<close>

type_synonym size_t = "64 word"
type_synonym uintptr_t = "64 word"

definition SIZE_MAX :: size_t where
  "SIZE_MAX = 0xFFFFFFFFFFFFFFFF"

text \<open>
  A \<open>MemoryStrategy\<close> object, with the tracker its \<open>status_tracker\<close> pointer leads to
  (\<open>None\<close> for a null pointer).  The four function-pointer slots are what the calls are
  dispatched through; only \<open>validate_strategy\<close>, which no operation below calls, reads them.
  The backends extend the record by their \<open>strategy_data\<close>.
\<close>

record MemoryStrategy =
  status_tracker :: "StatusTracker option"

definition validate_state :: "'a MemoryStrategy_scheme \<Rightarrow> bool" where
  "validate_state strategy =
     (if status_tracker strategy = None then False
      else (case get_current_status (status_tracker strategy) of
              (result, current) \<Rightarrow>
                if result \<noteq> STRATEGY_SUCCESS then False
                else current = Some STRATEGY_STATE_ACTIVE))"

definition validate_size :: "size_t \<Rightarrow> bool" where
  "validate_size sz \<longleftrightarrow> sz > 0 \<and> sz \<le> SIZE_MAX div 2"

definition validate_pointer :: "uintptr_t \<Rightarrow> bool" where
  "validate_pointer ptr \<longleftrightarrow> ptr \<noteq> 0 \<and> ptr mod 8 = 0"

definition validate_allocation :: "'a MemoryStrategy_scheme \<Rightarrow> size_t \<Rightarrow> bool" where
  "validate_allocation strategy sz \<longleftrightarrow> validate_state strategy \<and> validate_size sz"

definition validate_deallocation :: "'a MemoryStrategy_scheme \<Rightarrow> uintptr_t \<Rightarrow> bool" where
  "validate_deallocation strategy ptr \<longleftrightarrow> validate_state strategy \<and> validate_pointer ptr"

text \<open>
  \<open>initialize_strategy\<close> (memory\_strategy.c): the tracker is allocated, initialised and
  moved to ACTIVE.  The argument is the content of the fresh allocation.
\<close>

definition initialize_strategy :: "StatusTracker \<Rightarrow> MemoryStrategy option" where
  "initialize_strategy raw =
     (case initialize_status (Some raw) of
        (result, tracker) \<Rightarrow>
          if result \<noteq> STRATEGY_SUCCESS then None
          else (case transition_status quiet_env tracker STRATEGY_STATE_ACTIVE of
                  (result2, tracker2) \<Rightarrow>
                    if result2 \<noteq> STRATEGY_SUCCESS then None
                    else Some \<lparr>status_tracker = tracker2\<rparr>))"

text \<open>
  The static \<open>default_allocate\<close> of memory\_strategy.c, which \<open>initialize_strategy\<close>
  installs; \<open>malloc_result\<close> is what \<open>malloc (size)\<close> returns.
\<close>

definition strategy_default_allocate ::
  "uintptr_t \<Rightarrow> MemoryStrategy \<Rightarrow> size_t \<Rightarrow> uintptr_t \<times> MemoryStrategy" where
  "strategy_default_allocate malloc_result self sz =
     (if \<not> validate_allocation self sz
      then (0, self\<lparr>status_tracker :=
                      snd (transition_status quiet_env (status_tracker self)
                             STRATEGY_STATE_ERROR)\<rparr>)
      else if malloc_result = 0
      then (0, self\<lparr>status_tracker :=
                      snd (transition_status quiet_env (status_tracker self)
                             STRATEGY_STATE_ERROR)\<rparr>)
      else (malloc_result, self))"

section \<open>PoolStrategy (memory\_pool\_strategy.h, memory\_pool\_strategy.c)\<close>

definition POOL_BLOCK_SIZE :: size_t where
  "POOL_BLOCK_SIZE = 256"

definition POOL_BLOCK_COUNT :: size_t where
  "POOL_BLOCK_COUNT = 1024"

definition BLOCKS_PER_BITMAP :: size_t where
  "BLOCKS_PER_BITMAP = 64"

definition MAX_ALLOCATION_RETRIES :: "32 word" where
  "MAX_ALLOCATION_RETRIES = 3"

definition POOL_METADATA_SIZE :: size_t where
  "POOL_METADATA_SIZE = 8"

text \<open>\<open>UINT32_MAX\<close>, as the \<open>size_t\<close> it is converted to in \<open>UINT32_MAX - needed\<close>.\<close>

definition UINT32_MAX :: size_t where
  "UINT32_MAX = 0xFFFFFFFF"

text \<open>
  \<open>atomic_uint_fast32_t\<close> is 64 bits wide on the LP64 Linux the code is written for; the
  code copies the counters into \<open>uint32_t\<close> locals before it compares them.
\<close>

record PoolMetrics =
  blocks_used :: "64 word"
  total_allocations :: "64 word"
  failed_allocations :: "64 word"
  concurrent_ops :: "64 word"

record MemoryPool =
  pool_memory :: uintptr_t
  block_bitmap :: uintptr_t
  bitmap_size :: size_t
  thread_count :: "64 word"
  initialization_flag :: "64 word"
  metrics :: PoolMetrics

text \<open>
  A pool strategy with the two heap objects it owns: \<open>bitmap_mem\<close> is the array of
  64-bit words \<open>block_bitmap\<close> points to, \<open>byte_mem\<close> is the byte-addressed memory the
  arena at \<open>pool_memory\<close> lies in.  \<open>strategy_data\<close> is \<open>None\<close> when the pointer is null.
\<close>

record PoolStrategy = MemoryStrategy +
  strategy_data :: "MemoryPool option"
  bitmap_mem :: "64 word list"
  byte_mem :: "uintptr_t \<Rightarrow> 8 word"

text \<open>A \<open>size_t\<close> in memory: eight bytes, the least significant one first.\<close>

definition store_size_t :: "(uintptr_t \<Rightarrow> 8 word) \<Rightarrow> uintptr_t \<Rightarrow> size_t \<Rightarrow> (uintptr_t \<Rightarrow> 8 word)" where
  "store_size_t m a v =
     fold (\<lambda>i m'. m'(a + of_nat i := ucast (drop_bit (8 * i) v))) [0..<8] m"

definition load_size_t :: "(uintptr_t \<Rightarrow> 8 word) \<Rightarrow> uintptr_t \<Rightarrow> size_t" where
  "load_size_t m a =
     fold (\<lambda>i acc. acc OR push_bit (8 * i) (ucast (m (a + of_nat i)))) [0..<8] 0"

definition is_block_used :: "uintptr_t \<Rightarrow> 64 word list \<Rightarrow> size_t \<Rightarrow> bool" where
  "is_block_used bitmap_ptr bitmap block =
     (if bitmap_ptr = 0 \<or> block \<ge> POOL_BLOCK_COUNT then False
      else (let word_idx = unat (block div BLOCKS_PER_BITMAP);
                bit_idx = unat (block mod BLOCKS_PER_BITMAP)
            in (bitmap ! word_idx) AND push_bit bit_idx 1 \<noteq> 0))"

definition blocks_needed :: "size_t \<Rightarrow> size_t" where
  "blocks_needed sz =
     (if sz > SIZE_MAX - POOL_METADATA_SIZE then 0
      else (let total_size = sz + POOL_METADATA_SIZE
            in if total_size > SIZE_MAX - (POOL_BLOCK_SIZE - 1) then 0
               else (let blocks = (total_size + POOL_BLOCK_SIZE - 1) div POOL_BLOCK_SIZE
                     in if blocks = 0 \<or> blocks > POOL_BLOCK_COUNT then 0 else blocks)))"

definition is_ptr_in_pool_range :: "uintptr_t \<Rightarrow> uintptr_t \<Rightarrow> size_t \<Rightarrow> bool" where
  "is_ptr_in_pool_range ptr_addr start_addr pool_size =
     (if pool_size > SIZE_MAX - start_addr then False
      else (let end_addr = start_addr + pool_size
            in \<not> (end_addr \<le> start_addr \<or> ptr_addr < start_addr \<or> ptr_addr \<ge> end_addr)))"

text \<open>
  \<open>secure_clear_memory\<close> writes 0xFF, 0x00, 0xAA and 0x00 to each byte in turn.
\<close>

definition secure_clear_memory :: "(uintptr_t \<Rightarrow> 8 word) \<Rightarrow> uintptr_t \<Rightarrow> size_t \<Rightarrow> (uintptr_t \<Rightarrow> 8 word)" where
  "secure_clear_memory m p sz =
     (if p = 0 \<or> sz = 0 \<or> sz > POOL_BLOCK_SIZE * POOL_BLOCK_COUNT then m
      else fold (\<lambda>i m'. m'(p + of_nat i := 0xFF, p + of_nat i := 0x00,
                           p + of_nat i := 0xAA, p + of_nat i := 0x00))
             [0..<unat sz] m)"

text \<open>
  The scan of \<open>find_contiguous_blocks\<close>, from block \<open>i\<close> with \<open>consecutive\<close> free blocks
  counted so far.  \<open>None\<close> is the return value false, \<open>Some s\<close> is true with
  \<open>*start_block = s\<close>.
\<close>

function find_contiguous_loop ::
  "64 word list \<Rightarrow> size_t \<Rightarrow> size_t \<Rightarrow> size_t \<Rightarrow> size_t \<Rightarrow> size_t option" where
  "find_contiguous_loop bitmap total_blocks needed i consecutive =
     (if i < total_blocks then
        (let word_idx = unat (i div BLOCKS_PER_BITMAP);
             bit_idx = unat (i mod BLOCKS_PER_BITMAP)
         in if (bitmap ! word_idx) AND push_bit bit_idx 1 = 0 then
              (let consecutive' = consecutive + 1
               in if consecutive' \<ge> needed then
                    (if i < needed - 1 then None else Some (i - (needed - 1)))
                  else find_contiguous_loop bitmap total_blocks needed (i + 1) consecutive')
            else find_contiguous_loop bitmap total_blocks needed (i + 1) 0)
      else None)"
  by pat_completeness auto
termination
  by (relation "measure (\<lambda>(bitmap, total_blocks, needed, i, consecutive).
                  unat total_blocks - unat i)")
     (simp_all, unat_arith+)

definition find_contiguous_blocks :: "64 word list \<Rightarrow> size_t \<Rightarrow> size_t \<Rightarrow> size_t option" where
  "find_contiguous_blocks bitmap bitmap_sz needed =
     (if bitmap_sz > SIZE_MAX div BLOCKS_PER_BITMAP then None
      else (let total_blocks = bitmap_sz * BLOCKS_PER_BITMAP
            in if total_blocks > POOL_BLOCK_COUNT then None
               else find_contiguous_loop bitmap total_blocks needed 0 0))"

text \<open>The body of the loop of \<open>mark_blocks\<close> for the block \<open>start_block + i\<close>.\<close>

definition mark_step :: "size_t \<Rightarrow> bool \<Rightarrow> nat \<Rightarrow> 64 word list \<Rightarrow> 64 word list" where
  "mark_step start_block used i bm =
     (let block = start_block + of_nat i;
          word_idx = unat (block div BLOCKS_PER_BITMAP);
          bit_idx = unat (block mod BLOCKS_PER_BITMAP)
      in if used then bm[word_idx := (bm ! word_idx) OR push_bit bit_idx 1]
         else bm[word_idx := (bm ! word_idx) AND NOT (push_bit bit_idx 1)])"

definition mark_blocks :: "uintptr_t \<Rightarrow> 64 word list \<Rightarrow> size_t \<Rightarrow> size_t \<Rightarrow> bool \<Rightarrow> 64 word list" where
  "mark_blocks bitmap_ptr bitmap start_block num_blocks used =
     (if bitmap_ptr = 0 \<or> start_block \<ge> POOL_BLOCK_COUNT \<or> num_blocks = 0
         \<or> num_blocks > POOL_BLOCK_COUNT \<or> start_block + num_blocks > POOL_BLOCK_COUNT
      then bitmap
      else fold (mark_step start_block used) [0..<unat num_blocks] bitmap)"

text \<open>The atomic read-modify-write operations on the metrics.\<close>

definition add_concurrent_ops :: "64 word \<Rightarrow> MemoryPool \<Rightarrow> MemoryPool" where
  "add_concurrent_ops n pool =
     pool\<lparr>metrics := (metrics pool)\<lparr>concurrent_ops := concurrent_ops (metrics pool) + n\<rparr>\<rparr>"

definition sub_concurrent_ops :: "64 word \<Rightarrow> MemoryPool \<Rightarrow> MemoryPool" where
  "sub_concurrent_ops n pool =
     pool\<lparr>metrics := (metrics pool)\<lparr>concurrent_ops := concurrent_ops (metrics pool) - n\<rparr>\<rparr>"

definition add_failed_allocations :: "64 word \<Rightarrow> MemoryPool \<Rightarrow> MemoryPool" where
  "add_failed_allocations n pool =
     pool\<lparr>metrics := (metrics pool)\<lparr>failed_allocations := failed_allocations (metrics pool) + n\<rparr>\<rparr>"

definition add_total_allocations :: "64 word \<Rightarrow> MemoryPool \<Rightarrow> MemoryPool" where
  "add_total_allocations n pool =
     pool\<lparr>metrics := (metrics pool)\<lparr>total_allocations := total_allocations (metrics pool) + n\<rparr>\<rparr>"

definition add_blocks_used :: "64 word \<Rightarrow> MemoryPool \<Rightarrow> MemoryPool" where
  "add_blocks_used n pool =
     pool\<lparr>metrics := (metrics pool)\<lparr>blocks_used := blocks_used (metrics pool) + n\<rparr>\<rparr>"

definition sub_blocks_used :: "64 word \<Rightarrow> MemoryPool \<Rightarrow> MemoryPool" where
  "sub_blocks_used n pool =
     pool\<lparr>metrics := (metrics pool)\<lparr>blocks_used := blocks_used (metrics pool) - n\<rparr>\<rparr>"

text \<open>The exit every failed allocation takes once the operation is counted in.\<close>

definition reject_allocation :: "MemoryPool \<Rightarrow> MemoryPool" where
  "reject_allocation pool = add_failed_allocations 1 (sub_concurrent_ops 1 pool)"

text \<open>\<open>transition_status (self->status_tracker, STRATEGY_STATE_ERROR)\<close>, result ignored.\<close>

definition enter_error_state :: "PoolStrategy \<Rightarrow> PoolStrategy" where
  "enter_error_state self =
     self\<lparr>status_tracker :=
            snd (transition_status quiet_env (status_tracker self) STRATEGY_STATE_ERROR)\<rparr>"

text \<open>
  \<open>pool_allocate\<close> returns the user pointer (0 is null) and the strategy after the call.
  It is reached through \<open>self->allocate (self, size)\<close>, so \<open>self\<close> is an object.
\<close>

definition pool_allocate :: "PoolStrategy \<Rightarrow> size_t \<Rightarrow> uintptr_t \<times> PoolStrategy" where
  "pool_allocate self sz =
     (if \<not> validate_allocation self sz then (0, self)
      else (case strategy_data self of
        None \<Rightarrow> (0, enter_error_state self)
      | Some pool0 \<Rightarrow>
          if pool_memory pool0 = 0 \<or> block_bitmap pool0 = 0 then (0, enter_error_state self)
          else
            (let current_ops = (ucast (concurrent_ops (metrics pool0)) :: 32 word);
                 pool1 = add_concurrent_ops 1 pool0
             in if current_ops \<ge> MAX_ALLOCATION_RETRIES
                then (0, self\<lparr>strategy_data := Some (reject_allocation pool1)\<rparr>)
                else
                  (let needed = blocks_needed sz
                   in if needed = 0
                      then (0, self\<lparr>strategy_data := Some (reject_allocation pool1)\<rparr>)
                      else
                        (case find_contiguous_blocks (bitmap_mem self) (bitmap_size pool1) needed of
                           None \<Rightarrow> (0, self\<lparr>strategy_data := Some (reject_allocation pool1)\<rparr>)
                         | Some start_block \<Rightarrow>
                             (let bitmap1 = mark_blocks (block_bitmap pool1) (bitmap_mem self)
                                              start_block needed True;
                                  current_blocks = (ucast (blocks_used (metrics pool1)) :: 32 word)
                              in if ucast current_blocks > UINT32_MAX - needed
                                 then (0, self\<lparr>strategy_data := Some (reject_allocation pool1),
                                              bitmap_mem := mark_blocks (block_bitmap pool1) bitmap1
                                                              start_block needed False\<rparr>)
                                 else
                                   (let pool2 = add_total_allocations 1 (add_blocks_used needed pool1);
                                        block_start = pool_memory pool2 + start_block * POOL_BLOCK_SIZE;
                                        mem1 = store_size_t (byte_mem self) block_start needed;
                                        user_ptr = block_start + POOL_METADATA_SIZE;
                                        mem2 = secure_clear_memory mem1 user_ptr
                                                 (needed * POOL_BLOCK_SIZE - POOL_METADATA_SIZE);
                                        pool3 = sub_concurrent_ops 1 pool2
                                    in (user_ptr,
                                        self\<lparr>strategy_data := Some pool3, bitmap_mem := bitmap1,
                                             byte_mem := mem2\<rparr>))))))))"

definition pool_deallocate :: "PoolStrategy \<Rightarrow> uintptr_t \<Rightarrow> PoolStrategy" where
  "pool_deallocate self ptr =
     (if \<not> validate_deallocation self ptr then self
      else (case strategy_data self of
        None \<Rightarrow> enter_error_state self
      | Some pool0 \<Rightarrow>
          if pool_memory pool0 = 0 \<or> block_bitmap pool0 = 0 then enter_error_state self
          else
            (let current_ops = (ucast (concurrent_ops (metrics pool0)) :: 32 word);
                 pool1 = add_concurrent_ops 1 pool0
             in if current_ops \<ge> MAX_ALLOCATION_RETRIES
                then self\<lparr>strategy_data := Some (sub_concurrent_ops 1 pool1)\<rparr>
                else
                  (let block_start = ptr - POOL_METADATA_SIZE;
                       pool_size = POOL_BLOCK_SIZE * POOL_BLOCK_COUNT;
                       pool_base = pool_memory pool1
                   in if \<not> is_ptr_in_pool_range block_start pool_base pool_size
                      then self\<lparr>strategy_data := Some (sub_concurrent_ops 1 pool1)\<rparr>
                      else
                        (let block_index = (block_start - pool_base) div POOL_BLOCK_SIZE
                         in if \<not> is_block_used (block_bitmap pool1) (bitmap_mem self) block_index
                            then self\<lparr>strategy_data := Some (sub_concurrent_ops 1 pool1)\<rparr>
                            else
                              (let num_blocks = load_size_t (byte_mem self) block_start
                               in if num_blocks = 0 \<or> block_index + num_blocks > POOL_BLOCK_COUNT
                                  then self\<lparr>strategy_data := Some (sub_concurrent_ops 1 pool1)\<rparr>
                                  else
                                    (let mem1 = secure_clear_memory (byte_mem self) block_start
                                                  (num_blocks * POOL_BLOCK_SIZE);
                                         bitmap1 = mark_blocks (block_bitmap pool1) (bitmap_mem self)
                                                     block_index num_blocks False;
                                         current_blocks =
                                           (ucast (blocks_used (metrics pool1)) :: 32 word);
                                         pool2 = (if ucast current_blocks \<ge> num_blocks
                                                  then sub_blocks_used num_blocks pool1 else pool1);
                                         pool3 = sub_concurrent_ops 1 pool2
                                     in self\<lparr>strategy_data := Some pool3, bitmap_mem := bitmap1,
                                             byte_mem := mem1\<rparr>)))))))"

text \<open>
  \<open>create_pool_strategy\<close>: \<open>raw\<close> is the fresh tracker allocation, \<open>arena\<close> and
  \<open>bitmap_ptr\<close> are what \<open>aligned_alloc\<close> and \<open>calloc\<close> return (0 when they fail), \<open>m\<close>
  is the memory before the call.  The allocations of the strategy and of the pool object
  themselves are taken to succeed.
\<close>

definition create_pool_strategy ::
  "StatusTracker \<Rightarrow> uintptr_t \<Rightarrow> uintptr_t \<Rightarrow> (uintptr_t \<Rightarrow> 8 word) \<Rightarrow> PoolStrategy option" where
  "create_pool_strategy raw arena bitmap_ptr m =
     (case initialize_strategy raw of
        None \<Rightarrow> None
      | Some strategy \<Rightarrow>
          (let bitmap_sz = (POOL_BLOCK_COUNT + BLOCKS_PER_BITMAP - 1) div BLOCKS_PER_BITMAP
           in if arena = 0 \<or> bitmap_ptr = 0 then None
              else Some \<lparr>status_tracker = status_tracker strategy,
                         strategy_data =
                           Some \<lparr>pool_memory = arena, block_bitmap = bitmap_ptr,
                                  bitmap_size = bitmap_sz, thread_count = 0,
                                  initialization_flag = 0,
                                  metrics = \<lparr>blocks_used = 0, total_allocations = 0,
                                              failed_allocations = 0, concurrent_ops = 0\<rparr>\<rparr>,
                         bitmap_mem = replicate (unat bitmap_sz) 0,
                         byte_mem = secure_clear_memory m arena
                                      (POOL_BLOCK_SIZE * POOL_BLOCK_COUNT)\<rparr>))"

text \<open>
  The words of the claims about the bitmap: block \<open>b\<close> is free when its bit is 0, and a
  free run of \<open>n\<close> blocks starts at \<open>s\<close> when the blocks \<open>s, \<dots>, s + n - 1\<close> are all free.
\<close>

definition block_free :: "64 word list \<Rightarrow> nat \<Rightarrow> bool" where
  "block_free bitmap b \<longleftrightarrow> \<not> bit (bitmap ! (b div 64)) (b mod 64)"

definition free_run :: "64 word list \<Rightarrow> nat \<Rightarrow> nat \<Rightarrow> bool" where
  "free_run bitmap s n \<longleftrightarrow> list_all (block_free bitmap) [s..<s + n]"

text \<open>
  What \<open>create_pool_strategy\<close> establishes and no operation changes: the pool object is
  there, the bitmap has its sixteen words, and the arena is a pointer-aligned region of
  \<open>POOL_BLOCK_SIZE * POOL_BLOCK_COUNT\<close> bytes that ends inside the address space.
\<close>

definition pool_wf :: "PoolStrategy \<Rightarrow> bool" where
  "pool_wf self \<longleftrightarrow>
     (case strategy_data self of
        None \<Rightarrow> False
      | Some pool \<Rightarrow>
          bitmap_size pool = 16 \<and> length (bitmap_mem self) = 16
          \<and> pool_memory pool mod 8 = 0
          \<and> unat (pool_memory pool) + 262144 < 2 ^ 64)"

text \<open>
  What a scan over the first \<open>tot\<close> blocks for a run of \<open>n\<close> has to deliver: no result
  only when there is no free run, and otherwise the lowest start of one.
\<close>

definition scan_result :: "64 word list \<Rightarrow> nat \<Rightarrow> nat \<Rightarrow> size_t option \<Rightarrow> bool" where
  "scan_result bitmap tot n res \<longleftrightarrow>
     (case res of
        None \<Rightarrow> (\<forall>s. s + n \<le> tot \<longrightarrow> \<not> free_run bitmap s n)
      | Some r \<Rightarrow> free_run bitmap (unat r) n \<and> unat r + n \<le> tot
                  \<and> (\<forall>s<unat r. \<not> free_run bitmap s n))"

section \<open>MemoryStats (memory\_stats.h, memory\_stats.c)\<close>

definition MAX_COUNTER_RETRIES :: nat where
  "MAX_COUNTER_RETRIES = 5"

definition MAX_RETRY_ATTEMPTS :: nat where
  "MAX_RETRY_ATTEMPTS = 10"

definition STATS_MAX_TRACKED_ALLOCATIONS :: nat where
  "STATS_MAX_TRACKED_ALLOCATIONS = 1000"

definition STATS_PATTERN_HISTORY_SIZE :: nat where
  "STATS_PATTERN_HISTORY_SIZE = 100"

definition size_thresholds :: "size_t list" where
  "size_thresholds = [32, 64, 128, 256, 512, 1024, 4096, SIZE_MAX]"

text \<open>
  The retry loop of \<open>update_counter_with_retry\<close>, the attempts that are left first.
  When none is left the function applies \<open>atomic_fetch_add\<close> or \<open>atomic_fetch_sub\<close>
  and returns 0 (here \<open>False\<close>): the fallback was used.
\<close>

fun update_counter_loop ::
  "nat \<Rightarrow> 64 word cas_event list \<Rightarrow> 64 word \<Rightarrow> 64 word \<Rightarrow> bool \<Rightarrow> bool \<times> 64 word" where
  "update_counter_loop 0 es counter v is_increment =
     (False, if is_increment then counter + v else counter - v)"
| "update_counter_loop (Suc n) es counter v is_increment =
     (let current = counter;
          new_value = (if is_increment then current + v else current - v)
      in (case cas_strong (next_event es) counter current new_value of
            (success, counter') \<Rightarrow>
              if success then (True, counter')
              else update_counter_loop n (tl es) counter' v is_increment))"

definition update_counter_with_retry ::
  "64 word cas_event list \<Rightarrow> 64 word \<Rightarrow> 64 word \<Rightarrow> bool \<Rightarrow> bool \<times> 64 word" where
  "update_counter_with_retry es counter v is_increment =
     update_counter_loop MAX_COUNTER_RETRIES es counter v is_increment"

text \<open>One entry of \<open>active_allocations\<close>; \<open>alloc_size\<close>, \<open>src_file\<close> and \<open>src_line\<close> are its
  fields \<open>size\<close>, \<open>file\<close> and \<open>line\<close>.\<close>

record allocation_slot =
  address :: uintptr_t
  alloc_size :: size_t
  src_file :: string
  src_line :: int
  timestamp :: "64 word"
  valid :: "8 word"
  in_use :: "8 word"

text \<open>
  The arrays are lists: \<open>size_distribution\<close> pairs a threshold with its count,
  \<open>recent_allocations\<close> a size with its timestamp.  The loops that visit every entry of an
  array are recursions over the list.
\<close>

record memory_stats =
  alloc_count :: "64 word"
  free_count :: "64 word"
  current_bytes :: size_t
  peak_bytes :: size_t
  size_distribution :: "(size_t \<times> 64 word) list"
  total_allocation_time :: "64 word"
  active_allocations :: "allocation_slot list"
  active_allocation_count :: "32 word"
  total_leaked_bytes :: "64 word"
  recent_allocations :: "(size_t \<times> 64 word) list"
  allocation_history_index :: "32 word"

text \<open>The schedules of the compare-and-swap loops of one update call.\<close>

record stats_env =
  alloc_events :: "64 word cas_event list"
  free_events :: "64 word cas_event list"
  bytes_events :: "size_t cas_event list"

definition quiet_stats_env :: stats_env where
  "quiet_stats_env = \<lparr>alloc_events = [], free_events = [], bytes_events = []\<rparr>"

definition empty_slot :: allocation_slot where
  "empty_slot = \<lparr>address = 0, alloc_size = 0, src_file = [], src_line = 0, timestamp = 0,
                  valid = 0, in_use = 0\<rparr>"

text \<open>\<open>memory_stats_init\<close> on the zeroed object \<open>calloc\<close> returns.\<close>

definition memory_stats_init :: memory_stats where
  "memory_stats_init =
     \<lparr>alloc_count = 0, free_count = 0, current_bytes = 0, peak_bytes = 0,
      size_distribution = map (\<lambda>t. (t, 0)) size_thresholds,
      total_allocation_time = 0,
      active_allocations = replicate STATS_MAX_TRACKED_ALLOCATIONS empty_slot,
      active_allocation_count = 0, total_leaked_bytes = 0,
      recent_allocations = replicate STATS_PATTERN_HISTORY_SIZE (0, 0),
      allocation_history_index = 0\<rparr>"

fun update_size_distribution_loop ::
  "(size_t \<times> 64 word) list \<Rightarrow> size_t \<Rightarrow> (size_t \<times> 64 word) list" where
  "update_size_distribution_loop [] sz = []"
| "update_size_distribution_loop ((size_threshold, cnt) # rest) sz =
     (if sz \<le> size_threshold then (size_threshold, cnt + 1) # rest
      else (size_threshold, cnt) # update_size_distribution_loop rest sz)"

definition update_size_distribution :: "memory_stats \<Rightarrow> size_t \<Rightarrow> memory_stats" where
  "update_size_distribution stats sz =
     stats\<lparr>size_distribution := update_size_distribution_loop (size_distribution stats) sz\<rparr>"

text \<open>\<open>now\<close> is what \<open>time (NULL)\<close> returns.\<close>

definition record_allocation :: "memory_stats \<Rightarrow> size_t \<Rightarrow> 64 word \<Rightarrow> memory_stats" where
  "record_allocation stats sz now =
     (let index = unat (allocation_history_index stats mod 100)
      in stats\<lparr>allocation_history_index := allocation_history_index stats + 1,
               recent_allocations := (recent_allocations stats)[index := (sz, now)]\<rparr>)"

text \<open>
  \<open>find_free_slot\<close>: the index of the first slot that is not valid and whose \<open>in_use\<close>
  flag the compare-and-swap takes from 0 to 1, with the table after it; \<open>None\<close> is -1.
  The first argument is the index of the head of the list.
\<close>

fun find_free_slot_loop :: "nat \<Rightarrow> allocation_slot list \<Rightarrow> nat option \<times> allocation_slot list" where
  "find_free_slot_loop i [] = (None, [])"
| "find_free_slot_loop i (slot # rest) =
     (if valid slot \<noteq> 0 then
        (case find_free_slot_loop (i + 1) rest of (r, rest') \<Rightarrow> (r, slot # rest'))
      else if in_use slot = 0 then (Some i, slot\<lparr>in_use := 1\<rparr> # rest)
      else (case find_free_slot_loop (i + 1) rest of (r, rest') \<Rightarrow> (r, slot # rest')))"

definition find_free_slot :: "memory_stats \<Rightarrow> nat option \<times> memory_stats" where
  "find_free_slot stats =
     (case find_free_slot_loop 0 (active_allocations stats) of
        (r, slots) \<Rightarrow> (r, stats\<lparr>active_allocations := slots\<rparr>))"

text \<open>
  The slot loop of \<open>find_and_remove_allocation\<close>: the size of the slot it removed (0 when
  it found none) and the table after it.
\<close>

fun find_and_remove_loop :: "allocation_slot list \<Rightarrow> uintptr_t \<Rightarrow> (size_t \<times> allocation_slot list) option" where
  "find_and_remove_loop [] ptr = None"
| "find_and_remove_loop (slot # rest) ptr =
     (if valid slot = 0 \<or> address slot \<noteq> ptr then
        (case find_and_remove_loop rest ptr of
           None \<Rightarrow> None
         | Some (sz, rest') \<Rightarrow> Some (sz, slot # rest'))
      else if in_use slot \<noteq> 0 then
        (case find_and_remove_loop rest ptr of
           None \<Rightarrow> None
         | Some (sz, rest') \<Rightarrow> Some (sz, slot # rest'))
      else Some (alloc_size slot,
                 slot\<lparr>valid := 0, address := 0, alloc_size := 0, timestamp := 0, in_use := 0\<rparr>
                 # rest))"

definition find_and_remove_allocation :: "memory_stats \<Rightarrow> uintptr_t \<Rightarrow> size_t \<times> memory_stats" where
  "find_and_remove_allocation stats ptr =
     (if ptr = 0 then (0, stats)
      else (case find_and_remove_loop (active_allocations stats) ptr of
              None \<Rightarrow> (0, stats)
            | Some (sz, slots) \<Rightarrow>
                (sz, stats\<lparr>active_allocations := slots,
                           active_allocation_count := active_allocation_count stats - 1,
                           total_leaked_bytes := total_leaked_bytes stats - sz\<rparr>)))"

text \<open>The loop of \<open>memory_stats_update_allocation\<close> over \<open>current_bytes\<close> and \<open>peak_bytes\<close>.\<close>

fun allocation_bytes_loop ::
  "nat \<Rightarrow> size_t cas_event list \<Rightarrow> memory_stats \<Rightarrow> size_t \<Rightarrow> memory_stats" where
  "allocation_bytes_loop 0 es stats sz = stats"
| "allocation_bytes_loop (Suc n) es stats sz =
     (let current = current_bytes stats;
          new_current = current + sz;
          peak = peak_bytes stats;
          stats1 = (if new_current > peak then stats\<lparr>peak_bytes := new_current\<rparr> else stats)
      in (case cas_strong (next_event es) (current_bytes stats1) current new_current of
            (success, cb) \<Rightarrow>
              if success then stats1\<lparr>current_bytes := cb\<rparr>
              else allocation_bytes_loop n (tl es) (stats1\<lparr>current_bytes := cb\<rparr>) sz))"

text \<open>The attempts of \<open>memory_stats_update_allocation\<close> to find a free slot.\<close>

fun find_slot_attempts :: "nat \<Rightarrow> memory_stats \<Rightarrow> nat option \<times> memory_stats" where
  "find_slot_attempts 0 stats = (None, stats)"
| "find_slot_attempts (Suc n) stats =
     (case find_free_slot stats of
        (Some slot, stats') \<Rightarrow> (Some slot, stats')
      | (None, stats') \<Rightarrow> find_slot_attempts n stats')"

definition fill_slot ::
  "memory_stats \<Rightarrow> nat \<Rightarrow> uintptr_t \<Rightarrow> size_t \<Rightarrow> string \<Rightarrow> int \<Rightarrow> 64 word \<Rightarrow> memory_stats" where
  "fill_slot stats slot ptr sz fl ln now =
     stats\<lparr>active_allocations :=
              (active_allocations stats)
                [slot := (active_allocations stats ! slot)
                           \<lparr>address := ptr, alloc_size := sz, timestamp := now, src_file := fl,
                            src_line := ln, valid := 1, in_use := 0\<rparr>],
            active_allocation_count := active_allocation_count stats + 1,
            total_leaked_bytes := total_leaked_bytes stats + sz\<rparr>"

text \<open>The \<open>stats\<close> pointer is \<open>None\<close> when it is null.\<close>

definition memory_stats_update_allocation ::
  "stats_env \<Rightarrow> memory_stats option \<Rightarrow> uintptr_t \<Rightarrow> size_t \<Rightarrow> string \<Rightarrow> int \<Rightarrow> 64 word
   \<Rightarrow> memory_stats option" where
  "memory_stats_update_allocation env stats_ptr ptr sz fl ln now =
     (case stats_ptr of
        None \<Rightarrow> None
      | Some stats \<Rightarrow>
          if ptr = 0 then Some stats
          else
            (let stats1 = stats\<lparr>alloc_count :=
                             snd (update_counter_with_retry (alloc_events env)
                                    (alloc_count stats) 1 True)\<rparr>;
                 stats2 = allocation_bytes_loop MAX_RETRY_ATTEMPTS (bytes_events env) stats1 sz
             in (case find_slot_attempts MAX_RETRY_ATTEMPTS stats2 of
                   (slot, stats3) \<Rightarrow>
                     (let stats4 = (case slot of
                                      None \<Rightarrow> stats3
                                    | Some i \<Rightarrow> fill_slot stats3 i ptr sz fl ln now);
                          stats5 = update_size_distribution stats4 sz
                      in Some (record_allocation stats5 sz now)))))"

text \<open>The loop of \<open>memory_stats_update_deallocation\<close> over \<open>current_bytes\<close>.\<close>

fun deallocation_bytes_loop ::
  "nat \<Rightarrow> size_t cas_event list \<Rightarrow> size_t \<Rightarrow> size_t \<Rightarrow> size_t" where
  "deallocation_bytes_loop 0 es cb sz = cb"
| "deallocation_bytes_loop (Suc n) es cb sz =
     (let current = cb
      in if current < sz then cb
         else (case cas_strong (next_event es) cb current (current - sz) of
                 (success, cb') \<Rightarrow>
                   if success then cb' else deallocation_bytes_loop n (tl es) cb' sz))"

definition memory_stats_update_deallocation ::
  "stats_env \<Rightarrow> memory_stats option \<Rightarrow> uintptr_t \<Rightarrow> memory_stats option" where
  "memory_stats_update_deallocation env stats_ptr ptr =
     (case stats_ptr of
        None \<Rightarrow> None
      | Some stats \<Rightarrow>
          if ptr = 0 then Some stats
          else (case find_and_remove_allocation stats ptr of
                  (sz, stats1) \<Rightarrow>
                    if sz = 0 then Some stats1
                    else
                      (let stats2 = stats1\<lparr>free_count :=
                                       snd (update_counter_with_retry (free_events env)
                                              (free_count stats1) 1 True)\<rparr>
                       in Some (stats2\<lparr>current_bytes :=
                                  deallocation_bytes_loop MAX_RETRY_ATTEMPTS (bytes_events env)
                                    (current_bytes stats2) sz\<rparr>))))"

definition MEMORY_STATS_SUCCESS :: int where
  "MEMORY_STATS_SUCCESS = 0"

definition MEMORY_STATS_ERROR :: int where
  "MEMORY_STATS_ERROR = 1"

fun lookup_allocation_size :: "allocation_slot list \<Rightarrow> uintptr_t \<Rightarrow> size_t option" where
  "lookup_allocation_size [] ptr = None"
| "lookup_allocation_size (slot # rest) ptr =
     (if valid slot \<noteq> 0 \<and> address slot = ptr then Some (alloc_size slot)
      else lookup_allocation_size rest ptr)"

text \<open>
  Modelled from the spec: \<open>memory_stats_get_allocation_size\<close> is declared in
  memstats/include/memory\_stats.h and called by \<open>handle_deallocation\<close>, but its body is
  not among the sources.  The spec has \<open>deallocate\<close> look "up the recorded size via
  MemoryStats": the size of the valid slot whose address is the pointer, with
  \<open>MEMORY_STATS_SUCCESS\<close>, and \<open>MEMORY_STATS_ERROR\<close> when there is no ledger, no pointer
  or no such slot.  The second component is what \<open>*size\<close> holds afterwards, given what it
  held before.
\<close>

definition memory_stats_get_allocation_size ::
  "memory_stats option \<Rightarrow> uintptr_t \<Rightarrow> size_t \<Rightarrow> int \<times> size_t" where
  "memory_stats_get_allocation_size stats_ptr ptr size_before =
     (case stats_ptr of
        None \<Rightarrow> (MEMORY_STATS_ERROR, size_before)
      | Some stats \<Rightarrow>
          if ptr = 0 then (MEMORY_STATS_ERROR, size_before)
          else (case lookup_allocation_size (active_allocations stats) ptr of
                  None \<Rightarrow> (MEMORY_STATS_ERROR, size_before)
                | Some sz \<Rightarrow> (MEMORY_STATS_SUCCESS, sz)))"

section \<open>DefaultStrategy (default\_strategy.h, default\_strategy.c)\<close>

text \<open>
  The strategy object; \<open>ds_tracker\<close> is its embedded field \<open>status_tracker\<close> and
  \<open>ds_stats\<close> the ledger its pointer \<open>stats\<close> leads to.  The calls are modelled as running alone.
\<close>

record DefaultStrategy =
  ds_stats :: "memory_stats option"
  ds_tracker :: StatusTracker
  total_allocated :: size_t
  total_freed :: size_t
  peak_usage :: size_t
  usage_count :: "32 word"
  operation_count :: "64 word"

text \<open>The static \<open>validate_pointer\<close> and \<open>validate_size\<close> of default\_strategy.c.\<close>

definition default_validate_pointer :: "uintptr_t \<Rightarrow> bool" where
  "default_validate_pointer ptr \<longleftrightarrow> ptr \<noteq> 0"

definition default_validate_size :: "size_t \<Rightarrow> bool" where
  "default_validate_size sz \<longleftrightarrow> sz > 0 \<and> sz \<le> SIZE_MAX div 4"

definition update_peak_usage :: "DefaultStrategy \<Rightarrow> size_t \<Rightarrow> DefaultStrategy" where
  "update_peak_usage strategy current_usage =
     (let old_peak = peak_usage strategy
      in if current_usage > old_peak
         then strategy\<lparr>peak_usage := snd (cas_strong Quiet (peak_usage strategy) old_peak
                                              current_usage)\<rparr>
         else strategy)"

definition is_valid_allocation_size :: "size_t \<Rightarrow> size_t \<Rightarrow> bool" where
  "is_valid_allocation_size current_total new_size =
     (if \<not> default_validate_size new_size then False
      else if current_total > SIZE_MAX - new_size then False
      else if current_total + new_size > SIZE_MAX div 4 then False
      else True)"

text \<open>
  \<open>create_default_strategy\<close>; the arguments say whether the two \<open>calloc\<close> calls succeed.
\<close>

definition create_default_strategy :: "bool \<Rightarrow> bool \<Rightarrow> DefaultStrategy option" where
  "create_default_strategy strategy_allocated stats_allocated =
     (if \<not> strategy_allocated then None
      else if \<not> stats_allocated then None
      else (case initialize_status
                   (Some \<lparr>current_status = 0, transition_count = 0, error_count = 0\<rparr>) of
              (result, tracker) \<Rightarrow>
                if result \<noteq> STRATEGY_SUCCESS then None
                else (case transition_status quiet_env tracker STRATEGY_STATE_ACTIVE of
                        (result2, tracker2) \<Rightarrow>
                          (case tracker2 of
                             None \<Rightarrow> None
                           | Some t \<Rightarrow>
                               if result2 \<noteq> STRATEGY_SUCCESS then None
                               else Some \<lparr>ds_stats = Some memory_stats_init, ds_tracker = t,
                                          total_allocated = 0, total_freed = 0, peak_usage = 0,
                                          usage_count = 0, operation_count = 0\<rparr>))))"

definition update_allocation_stats ::
  "64 word \<Rightarrow> DefaultStrategy \<Rightarrow> uintptr_t \<Rightarrow> size_t \<Rightarrow> DefaultStrategy" where
  "update_allocation_stats now strategy ptr sz =
     strategy\<lparr>ds_stats := memory_stats_update_allocation quiet_stats_env (ds_stats strategy) ptr sz
                          ''default_strategy.c'' 118 now,
               total_allocated := total_allocated strategy + sz\<rparr>"

text \<open>
  \<open>perform_allocation\<close>; \<open>malloc_result\<close> is what \<open>malloc (size)\<close> returns and \<open>enomem\<close>
  says whether it left \<open>errno\<close> at \<open>ENOMEM\<close>.
\<close>

definition perform_allocation ::
  "uintptr_t \<Rightarrow> bool \<Rightarrow> 64 word \<Rightarrow> DefaultStrategy \<Rightarrow> size_t \<Rightarrow> uintptr_t \<times> DefaultStrategy" where
  "perform_allocation malloc_result enomem now strategy sz =
     (if malloc_result = 0 then
        (if enomem then
           (case snd (transition_status quiet_env (Some (ds_tracker strategy))
                        STRATEGY_STATE_ERROR) of
              None \<Rightarrow> (0, strategy)
            | Some t \<Rightarrow> (0, strategy\<lparr>ds_tracker := t\<rparr>))
         else (0, strategy))
      else (malloc_result, update_allocation_stats now strategy malloc_result sz))"

definition check_strategy_status :: "DefaultStrategy \<Rightarrow> bool" where
  "check_strategy_status strategy =
     (case get_current_status (Some (ds_tracker strategy)) of
        (result, status) \<Rightarrow>
          \<not> (result \<noteq> STRATEGY_SUCCESS \<or> status \<noteq> Some STRATEGY_STATE_ACTIVE))"

definition handle_deallocation :: "DefaultStrategy \<Rightarrow> uintptr_t \<Rightarrow> DefaultStrategy" where
  "handle_deallocation strategy ptr =
     (let strategy1 =
            (case memory_stats_get_allocation_size (ds_stats strategy) ptr 0 of
               (rc, dealloc_size) \<Rightarrow>
                 if rc = MEMORY_STATS_SUCCESS
                 then strategy\<lparr>total_freed := total_freed strategy + dealloc_size\<rparr>
                 else strategy)
      in strategy1\<lparr>ds_stats := memory_stats_update_deallocation quiet_stats_env
                                  (ds_stats strategy1) ptr\<rparr>)"

text \<open>
  \<open>default_allocate\<close> and \<open>default_deallocate\<close>.  The base pointer is \<open>None\<close> when
  \<open>validate_strategy_base\<close> rejects it (it is null, or its \<open>strategy_data\<close> is).
\<close>

definition default_allocate ::
  "uintptr_t \<Rightarrow> bool \<Rightarrow> 64 word \<Rightarrow> DefaultStrategy option \<Rightarrow> size_t
   \<Rightarrow> uintptr_t \<times> DefaultStrategy option" where
  "default_allocate malloc_result enomem now base sz =
     (case base of
        None \<Rightarrow> (0, None)
      | Some strategy0 \<Rightarrow>
          (let strategy = strategy0\<lparr>usage_count := usage_count strategy0 + 1\<rparr>
           in if \<not> check_strategy_status strategy
              then (0, Some (strategy\<lparr>usage_count := usage_count strategy - 1\<rparr>))
              else
                (let current_total = total_allocated strategy - total_freed strategy
                 in if \<not> is_valid_allocation_size current_total sz
                    then (0, Some (strategy\<lparr>usage_count := usage_count strategy - 1\<rparr>))
                    else
                      (case perform_allocation malloc_result enomem now strategy sz of
                         (ptr, strategy1) \<Rightarrow>
                           (let strategy2 =
                                  (if ptr \<noteq> 0
                                   then update_peak_usage strategy1 (current_total + sz)
                                   else strategy1)
                            in (ptr, Some (strategy2\<lparr>usage_count :=
                                                      usage_count strategy2 - 1\<rparr>)))))))"

definition default_deallocate :: "DefaultStrategy option \<Rightarrow> uintptr_t \<Rightarrow> DefaultStrategy option" where
  "default_deallocate base ptr =
     (case base of
        None \<Rightarrow> None
      | Some strategy0 \<Rightarrow>
          if \<not> default_validate_pointer ptr then Some strategy0
          else
            (let strategy = strategy0\<lparr>usage_count := usage_count strategy0 + 1\<rparr>
             in (case get_current_status (Some (ds_tracker strategy)) of
                   (result, status) \<Rightarrow>
                     if result \<noteq> STRATEGY_SUCCESS \<or> status = Some STRATEGY_STATE_ERROR
                     then Some (strategy\<lparr>usage_count := usage_count strategy - 1\<rparr>)
                     else
                       (let strategy1 = handle_deallocation strategy ptr
                        in Some (strategy1\<lparr>usage_count := usage_count strategy1 - 1\<rparr>)))))"

definition get_current_usage :: "DefaultStrategy option \<Rightarrow> size_t" where
  "get_current_usage strategy_ptr =
     (case strategy_ptr of
        None \<Rightarrow> 0
      | Some strategy \<Rightarrow>
          (let allocated = total_allocated strategy;
               freed = total_freed strategy
           in if allocated > freed then allocated - freed else 0))"

definition get_peak_usage :: "DefaultStrategy option \<Rightarrow> size_t" where
  "get_peak_usage strategy_ptr =
     (case strategy_ptr of None \<Rightarrow> 0 | Some strategy \<Rightarrow> peak_usage strategy)"

text \<open>
  A ledger with one tracked allocation of 100 bytes at address 0x1000 and \<open>cb\<close> current
  bytes, for the examples.
\<close>

definition ledger_example :: "size_t \<Rightarrow> memory_stats" where
  "ledger_example cb =
     \<lparr>alloc_count = 1, free_count = 0, current_bytes = cb, peak_bytes = 250,
      size_distribution = [], total_allocation_time = 0,
      active_allocations =
        [\<lparr>address = 0x1000, alloc_size = 100, src_file = [], src_line = 0, timestamp = 0,
          valid = 1, in_use = 0\<rparr>],
      active_allocation_count = 1, total_leaked_bytes = 100, recent_allocations = [],
      allocation_history_index = 1\<rparr>"

text \<open>
  A pool at address 0x10000 after one allocation of all its 1024 blocks: every bit is
  set, the header of block 0 reads 1024 (bytes 0x00, 0x04), and the user has written the
  \<open>size_t\<close> 1 into the last eight bytes of the payload, at 0x4FFF8.  The arena ends at
  0x4FFFF; the 256 bytes after it belong to another object and hold 0x55.
\<close>

definition full_pool_example :: PoolStrategy where
  "full_pool_example =
     \<lparr>status_tracker = Some \<lparr>current_status = STRATEGY_STATE_ACTIVE, transition_count = 1,
                              error_count = 0\<rparr>,
      strategy_data = Some \<lparr>pool_memory = 0x10000, block_bitmap = 0x80000, bitmap_size = 16,
                             thread_count = 0, initialization_flag = 0,
                             metrics = \<lparr>blocks_used = 1024, total_allocations = 1,
                                         failed_allocations = 0, concurrent_ops = 0\<rparr>\<rparr>,
      bitmap_mem = replicate 16 0xFFFFFFFFFFFFFFFF,
      byte_mem = (\<lambda>a. if 0x50000 \<le> a \<and> a < 0x50100 then 0x55 else 0)
                   (0x10001 := 0x04, 0x4FFF8 := 0x01)\<rparr>"

text \<open>
  A pool at address 0x10000 in which the blocks 0, 1 and 3 are used.
\<close>

definition fragmented_pool_example :: PoolStrategy where
  "fragmented_pool_example =
     \<lparr>status_tracker = Some \<lparr>current_status = STRATEGY_STATE_ACTIVE, transition_count = 1,
                              error_count = 0\<rparr>,
      strategy_data = Some \<lparr>pool_memory = 0x10000, block_bitmap = 0x80000, bitmap_size = 16,
                             thread_count = 0, initialization_flag = 0,
                             metrics = \<lparr>blocks_used = 3, total_allocations = 3,
                                         failed_allocations = 0, concurrent_ops = 0\<rparr>\<rparr>,
      bitmap_mem = 0x0B # replicate 15 0,
      byte_mem = (\<lambda>a. 0)\<rparr>"

section \<open>Properties of the StatusTracker\<close>

lemma uint64_max_ge: "(c \<ge> UINT64_MAX) = (c = UINT64_MAX)"
proof -
  have "unat c < 2 ^ 64" using unsigned_less [of c, where ?'a = nat] by simp
  then show ?thesis
    by (auto simp: UINT64_MAX_def word_le_nat_alt word_unat_eq_iff)
qed

lemma next_event_quiet: "list_all is_quiet es \<Longrightarrow> next_event es = Quiet"
  by (cases es) (auto elim: is_quiet.elims)

lemma status_le_cases:
  "(s::StrategyStatus) \<le> 3 \<Longrightarrow> s = 0 \<or> s = 1 \<or> s = 2 \<or> s = 3"
  by unat_arith

lemma status_gt_max: "(s > STRATEGY_MAX_STATE) = (\<not> s \<le> 3)"
  by (simp add: STRATEGY_MAX_STATE_def STRATEGY_STATE_TRANSITIONING_def not_le)

lemma increment_quiet:
  "list_all is_quiet es \<Longrightarrow>
   atomic_increment_loop (Suc n) es c =
     (if c = UINT64_MAX then (STRATEGY_OVERFLOW, c) else (STRATEGY_SUCCESS, c + 1))"
  by (simp add: check_counter_overflow_def uint64_max_ge next_event_quiet
      perform_atomic_increment_def cas_weak_def cas_strong_def)

lemma transition_loop_invalid:
  "validate_state_transition st new \<noteq> STRATEGY_SUCCESS \<Longrightarrow>
   atomic_transition_loop (Suc n) lf es st new = (STRATEGY_INVALID_STATE, st)"
  by (auto simp: validate_state_transition_def split: if_splits)

lemma transition_loop_local:
  "validate_state_transition st new = STRATEGY_SUCCESS \<Longrightarrow> is_local (next_event es) \<Longrightarrow>
   atomic_transition_loop (Suc n) True es st new = (STRATEGY_SUCCESS, new)"
  by (cases "next_event es") (auto simp: perform_atomic_operation_def cas_strong_def)


lemma validate_in_range:
  assumes "cur \<le> STRATEGY_MAX_STATE" "new \<le> STRATEGY_MAX_STATE"
  shows "validate_state_transition cur new =
     (if VALID_TRANSITIONS ! unat cur ! unat new = 0 then STRATEGY_INVALID_STATE
      else STRATEGY_SUCCESS)"
  using assms by (auto simp: validate_state_transition_def)

lemma valid_entry_cases:
  assumes "cur \<le> STRATEGY_MAX_STATE" "new \<le> STRATEGY_MAX_STATE"
  shows "VALID_TRANSITIONS ! unat cur ! unat new = 0
       \<or> VALID_TRANSITIONS ! unat cur ! unat new = 1"
proof -
  have c: "cur = 0 \<or> cur = 1 \<or> cur = 2 \<or> cur = 3"
    using assms(1) by (simp add: STRATEGY_MAX_STATE_def STRATEGY_STATE_TRANSITIONING_def status_le_cases)
  have n: "new = 0 \<or> new = 1 \<or> new = 2 \<or> new = 3"
    using assms(2) by (simp add: STRATEGY_MAX_STATE_def STRATEGY_STATE_TRANSITIONING_def status_le_cases)
  from c n show ?thesis
    by (auto simp: VALID_TRANSITIONS_def)
qed

lemma transition_status_invalid:
  assumes "new \<le> STRATEGY_MAX_STATE"
    and "validate_state_transition (current_status t) new \<noteq> STRATEGY_SUCCESS"
  shows "transition_status env (Some t) new = (STRATEGY_INVALID_STATE, Some t)"
  using assms
  by (simp add: transition_status_def validate_transition_input_def handle_state_transition_def
      atomic_transition_status_def STRATEGY_MAX_RETRIES_def numeral_3_eq_3
      transition_loop_invalid not_less [symmetric] del: atomic_transition_loop.simps)

lemma update_counters_quiet:
  assumes "list_all is_quiet (transition_events env)" "list_all is_quiet (error_events env)"
  shows "update_transition_counters env t new =
     (if transition_count t = UINT64_MAX then (STRATEGY_OVERFLOW, t)
      else if new = STRATEGY_STATE_ERROR then
        (if error_count t = UINT64_MAX
         then (STRATEGY_OVERFLOW, t\<lparr>transition_count := transition_count t + 1\<rparr>)
         else (STRATEGY_SUCCESS, t\<lparr>transition_count := transition_count t + 1,
                                    error_count := error_count t + 1\<rparr>))
      else (STRATEGY_SUCCESS, t\<lparr>transition_count := transition_count t + 1\<rparr>))"
  using assms
  by (simp add: update_transition_counters_def atomic_increment_with_check_def
      STRATEGY_MAX_RETRIES_def numeral_3_eq_3 increment_quiet del: atomic_increment_loop.simps)

lemma transition_status_uncontended:
  assumes "new \<le> STRATEGY_MAX_STATE" "uncontended env"
    and "validate_state_transition (current_status t) new = STRATEGY_SUCCESS"
  shows "transition_status env (Some t) new =
     (if transition_count t = UINT64_MAX
      then (STRATEGY_OVERFLOW, Some (t\<lparr>current_status := new\<rparr>))
      else if new = STRATEGY_STATE_ERROR then
        (if error_count t = UINT64_MAX
         then (STRATEGY_OVERFLOW,
               Some (t\<lparr>current_status := new, transition_count := transition_count t + 1\<rparr>))
         else (STRATEGY_SUCCESS,
               Some (t\<lparr>current_status := new, transition_count := transition_count t + 1,
                        error_count := error_count t + 1\<rparr>)))
      else (STRATEGY_SUCCESS,
            Some (t\<lparr>current_status := new, transition_count := transition_count t + 1\<rparr>)))"
proof -
  from assms(2) have lf: "lock_free env"
    and q: "list_all is_quiet (status_events env)"
      "list_all is_quiet (transition_events env)" "list_all is_quiet (error_events env)"
    by (simp_all add: uncontended_def)
  have loc: "is_local (next_event (status_events env))"
    using q(1) by (simp add: next_event_quiet)
  have h: "handle_state_transition env t new = (STRATEGY_SUCCESS, t\<lparr>current_status := new\<rparr>)"
    using lf transition_loop_local [OF assms(3) loc, of 2]
    by (simp add: handle_state_transition_def atomic_transition_status_def
        STRATEGY_MAX_RETRIES_def numeral_3_eq_3 del: atomic_transition_loop.simps)
  show ?thesis
    using assms(1) h
    by (simp add: transition_status_def validate_transition_input_def not_less [symmetric]
        update_counters_quiet [OF q(2) q(3)])
qed

text \<open>
  Claim C1 (FSM soundness), as the code has it.  For a tracker whose state and whose
  requested state are both in range: when the matrix entry is 0 the call returns
  \<open>STRATEGY_INVALID_STATE\<close> and the tracker is the one it was, whatever the other threads
  do; when the entry is 1 and the call is uncontended, the tracker holds the new state
  afterwards, and the call returns \<open>STRATEGY_SUCCESS\<close> unless a counter it has to
  increment is already at \<open>UINT64_MAX\<close>, in which case it returns \<open>STRATEGY_OVERFLOW\<close>.
\<close>

theorem transition_status_fsm_sound:
  assumes "current_status t \<le> STRATEGY_MAX_STATE" and "new_status \<le> STRATEGY_MAX_STATE"
  shows "(VALID_TRANSITIONS ! unat (current_status t) ! unat new_status = 0 \<longrightarrow>
            transition_status env (Some t) new_status = (STRATEGY_INVALID_STATE, Some t))
       \<and> (VALID_TRANSITIONS ! unat (current_status t) ! unat new_status = 1 \<and> uncontended env \<longrightarrow>
            (\<exists>t'. snd (transition_status env (Some t) new_status) = Some t'
                \<and> current_status t' = new_status)
          \<and> fst (transition_status env (Some t) new_status)
              = (if transition_count t = UINT64_MAX
                    \<or> (new_status = STRATEGY_STATE_ERROR \<and> error_count t = UINT64_MAX)
                 then STRATEGY_OVERFLOW else STRATEGY_SUCCESS))"
proof (intro conjI impI)
  assume "VALID_TRANSITIONS ! unat (current_status t) ! unat new_status = 0"
  then have "validate_state_transition (current_status t) new_status \<noteq> STRATEGY_SUCCESS"
    using assms by (simp add: validate_in_range)
  then show "transition_status env (Some t) new_status = (STRATEGY_INVALID_STATE, Some t)"
    using assms(2) by (rule transition_status_invalid [rotated])
next
  assume a: "VALID_TRANSITIONS ! unat (current_status t) ! unat new_status = 1 \<and> uncontended env"
  then have v: "validate_state_transition (current_status t) new_status = STRATEGY_SUCCESS"
    using assms by (simp add: validate_in_range)
  note r = transition_status_uncontended [OF assms(2) conjunct2 [OF a] v]
  show "\<exists>t'. snd (transition_status env (Some t) new_status) = Some t'
                \<and> current_status t' = new_status"
    by (simp add: r)
  show "fst (transition_status env (Some t) new_status)
              = (if transition_count t = UINT64_MAX
                    \<or> (new_status = STRATEGY_STATE_ERROR \<and> error_count t = UINT64_MAX)
                 then STRATEGY_OVERFLOW else STRATEGY_SUCCESS)"
    by (simp add: r)
qed

lemmas status_consts =
  STRATEGY_STATE_INITIALIZED_def STRATEGY_STATE_ACTIVE_def STRATEGY_STATE_ERROR_def
  STRATEGY_STATE_TRANSITIONING_def STRATEGY_MAX_STATE_def

lemma uncontended_quiet_env: "uncontended quiet_env"
  by (simp add: uncontended_def quiet_env_def)

text \<open>
  The theorem at a forbidden transition (ACTIVE to INITIALIZED) and at an allowed one
  (INITIALIZED to ACTIVE) of a tracker with room in its counters.
\<close>

theorem transition_status_fsm_sound_witness:
  "transition_status quiet_env
      (Some \<lparr>current_status = STRATEGY_STATE_ACTIVE, transition_count = 4, error_count = 0\<rparr>)
      STRATEGY_STATE_INITIALIZED
    = (STRATEGY_INVALID_STATE,
       Some \<lparr>current_status = STRATEGY_STATE_ACTIVE, transition_count = 4, error_count = 0\<rparr>)
   \<and> fst (transition_status quiet_env
      (Some \<lparr>current_status = STRATEGY_STATE_INITIALIZED, transition_count = 0, error_count = 0\<rparr>)
      STRATEGY_STATE_ACTIVE) = STRATEGY_SUCCESS"
proof -
  let ?a = "\<lparr>current_status = STRATEGY_STATE_ACTIVE, transition_count = 4, error_count = 0\<rparr>"
  let ?i = "\<lparr>current_status = STRATEGY_STATE_INITIALIZED, transition_count = 0, error_count = 0\<rparr>"
  have a: "current_status ?a \<le> STRATEGY_MAX_STATE" "STRATEGY_STATE_INITIALIZED \<le> STRATEGY_MAX_STATE"
    "VALID_TRANSITIONS ! unat (current_status ?a) ! unat STRATEGY_STATE_INITIALIZED = 0"
    by (simp_all add: status_consts VALID_TRANSITIONS_def)
  have i: "current_status ?i \<le> STRATEGY_MAX_STATE" "STRATEGY_STATE_ACTIVE \<le> STRATEGY_MAX_STATE"
    "VALID_TRANSITIONS ! unat (current_status ?i) ! unat STRATEGY_STATE_ACTIVE = 1"
    by (simp_all add: status_consts VALID_TRANSITIONS_def)
  have m: "transition_count ?i \<noteq> UINT64_MAX" "STRATEGY_STATE_ACTIVE \<noteq> STRATEGY_STATE_ERROR"
    by (simp_all add: UINT64_MAX_def status_consts)
  from transition_status_fsm_sound [OF a(1,2), of quiet_env] a(3)
  have 1: "transition_status quiet_env (Some ?a) STRATEGY_STATE_INITIALIZED
             = (STRATEGY_INVALID_STATE, Some ?a)"
    by blast
  from transition_status_fsm_sound [OF i(1,2), of quiet_env] i(3) uncontended_quiet_env m
  have 2: "fst (transition_status quiet_env (Some ?i) STRATEGY_STATE_ACTIVE) = STRATEGY_SUCCESS"
    by simp
  from 1 2 show ?thesis by simp
qed

text \<open>
  Claim C1 as it is written fails on a tracker whose transition counter is saturated: the
  transition INITIALIZED to ACTIVE is allowed and uncontended, the state is switched, and
  the call returns \<open>STRATEGY_OVERFLOW\<close>, not success.
\<close>

theorem transition_status_saturated_counterexample:
  "STRATEGY_STATE_INITIALIZED \<le> STRATEGY_MAX_STATE \<and> STRATEGY_STATE_ACTIVE \<le> STRATEGY_MAX_STATE
   \<and> VALID_TRANSITIONS ! unat STRATEGY_STATE_INITIALIZED ! unat STRATEGY_STATE_ACTIVE = 1
   \<and> uncontended quiet_env
   \<and> transition_status quiet_env
        (Some \<lparr>current_status = STRATEGY_STATE_INITIALIZED, transition_count = UINT64_MAX,
               error_count = 0\<rparr>)
        STRATEGY_STATE_ACTIVE
      = (STRATEGY_OVERFLOW,
         Some \<lparr>current_status = STRATEGY_STATE_ACTIVE, transition_count = UINT64_MAX,
               error_count = 0\<rparr>)"
  by (simp add: status_consts VALID_TRANSITIONS_def uncontended_def quiet_env_def
      transition_status_def validate_transition_input_def handle_state_transition_def
      atomic_transition_status_def STRATEGY_MAX_RETRIES_def numeral_3_eq_3
      validate_state_transition_def perform_atomic_operation_def cas_strong_def
      update_transition_counters_def atomic_increment_with_check_def
      check_counter_overflow_def UINT64_MAX_def)

section \<open>Properties of the bitmap scan\<close>

lemma free_run_iff: "free_run bitmap s n \<longleftrightarrow> (\<forall>j<n. block_free bitmap (s + j))"
proof
  assume r: "free_run bitmap s n"
  show "\<forall>j<n. block_free bitmap (s + j)"
  proof (intro allI impI)
    fix j assume "j < n"
    then have "s + j \<in> set [s..<s + n]" by simp
    with r show "block_free bitmap (s + j)"
      by (simp add: free_run_def list_all_iff del: set_upt)
  qed
next
  assume a: "\<forall>j<n. block_free bitmap (s + j)"
  show "free_run bitmap s n"
    unfolding free_run_def list_all_iff
  proof
    fix b assume "b \<in> set [s..<s + n]"
    then have "b - s < n" "b = s + (b - s)" by auto
    with a show "block_free bitmap b" by metis
  qed
qed

lemma unat_small_consts:
  "unat BLOCKS_PER_BITMAP = 64" "unat POOL_BLOCK_COUNT = 1024" "unat POOL_BLOCK_SIZE = 256"
  by (simp_all add: BLOCKS_PER_BITMAP_def POOL_BLOCK_COUNT_def POOL_BLOCK_SIZE_def)

lemma bit_test_free:
  "((bitmap ! unat (i div BLOCKS_PER_BITMAP)) AND push_bit (unat (i mod BLOCKS_PER_BITMAP)) 1 = 0)
     = block_free bitmap (unat i)"
  by (simp add: block_free_def bit_iff_and_push_bit_not_eq_0 unat_div unat_mod unat_small_consts)

lemma unat_succ_below:
  fixes i total :: size_t
  assumes "i < total"
  shows "unat (i + 1) = unat i + 1"
  using assms by unat_arith

lemma find_loop_step:
  fixes i c total needed :: size_t
  assumes "i < total" "unat c \<le> unat i" "needed \<noteq> 0"
  shows "find_contiguous_loop bitmap total needed i c =
     (if block_free bitmap (unat i) then
        (if unat needed \<le> unat c + 1 then
           (if unat i < unat needed - 1 then None else Some (i - (needed - 1)))
         else find_contiguous_loop bitmap total needed (i + 1) (c + 1))
      else find_contiguous_loop bitmap total needed (i + 1) 0)"
proof -
  have c1: "unat (c + 1) = unat c + 1"
    using assms(1,2) by unat_arith
  have n1: "unat (needed - 1) = unat needed - 1"
    using assms(3) by unat_arith
  have lt: "unat i < unat total"
    using assms(1) by (simp add: word_less_nat_alt)
  show ?thesis
    by (subst find_contiguous_loop.simps)
       (simp only: bit_test_free Let_def lt if_True word_le_nat_alt word_less_nat_alt c1 n1)
qed

lemma unat_start_block:
  fixes i needed :: size_t
  assumes "needed \<noteq> 0" "unat needed - 1 \<le> unat i"
  shows "unat (i - (needed - 1)) = unat i - (unat needed - 1)"
  using assms by unat_arith

lemma free_run_block:
  "free_run bitmap s n \<Longrightarrow> s \<le> b \<Longrightarrow> b < s + n \<Longrightarrow> block_free bitmap b"
  by (simp add: free_run_def list_all_iff)

lemma used_block_no_run:
  "\<not> block_free bitmap b \<Longrightarrow> s \<le> b \<Longrightarrow> b < s + n \<Longrightarrow> \<not> free_run bitmap s n"
  using free_run_block by blast

lemma free_runI:
  "(\<And>b. s \<le> b \<Longrightarrow> b < s + n \<Longrightarrow> block_free bitmap b) \<Longrightarrow> free_run bitmap s n"
  by (simp add: free_run_def list_all_iff)

lemma find_loop_correct:
  fixes i c total needed :: size_t
  assumes n0: "needed \<noteq> 0"
    and inv: "unat i \<le> unat total" "unat c \<le> unat i" "unat c < unat needed"
      "\<And>j. unat i - unat c \<le> j \<Longrightarrow> j < unat i \<Longrightarrow> block_free bitmap j"
      "unat c < unat i \<Longrightarrow> \<not> block_free bitmap (unat i - unat c - 1)"
      "\<And>s. s + unat needed \<le> unat i \<Longrightarrow> \<not> free_run bitmap s (unat needed)"
  shows "scan_result bitmap (unat total) (unat needed)
           (find_contiguous_loop bitmap total needed i c)"
  using inv
proof (induction "unat total - unat i" arbitrary: i c rule: less_induct)
  case less
  note inv = less.prems
  have np: "0 < unat needed" using n0 by (simp add: unat_gt_0)
  show ?case
  proof (cases "i < total")
    case False
    then have e: "unat i = unat total"
      using inv(1) by (simp add: word_less_nat_alt)
    have "find_contiguous_loop bitmap total needed i c = None"
      using False by (subst find_contiguous_loop.simps) simp
    then show ?thesis using inv(6) e by (simp add: scan_result_def)
  next
    case True
    then have lt: "unat i < unat total" by (simp add: word_less_nat_alt)
    have i1: "unat (i + 1) = unat i + 1" using True by (rule unat_succ_below)
    have c1: "unat (c + 1) = unat c + 1" using True inv(2) by unat_arith
    have m: "unat total - unat (i + 1) < unat total - unat i" using lt i1 by simp
    have le': "unat (i + 1) \<le> unat total" using lt i1 by simp
    note step = find_loop_step [OF True inv(2) n0, of bitmap]
    show ?thesis
    proof (cases "block_free bitmap (unat i)")
      case used: False
      have b6: "\<not> free_run bitmap s (unat needed)" if s: "s + unat needed \<le> unat (i + 1)" for s
      proof (cases "s + unat needed \<le> unat i")
        case True then show ?thesis by (rule inv(6))
      next
        case False
        with s i1 have "s \<le> unat i" "unat i < s + unat needed" using np by simp_all
        with used show ?thesis by (rule used_block_no_run)
      qed
      have z: "unat (0::size_t) = 0" by simp
      have "scan_result bitmap (unat total) (unat needed)
              (find_contiguous_loop bitmap total needed (i + 1) 0)"
      proof (rule less.hyps [OF m le'])
        show "unat (0::size_t) \<le> unat (i + 1)" by simp
        show "unat (0::size_t) < unat needed" using np by simp
        show "block_free bitmap j" if "unat (i + 1) - unat (0::size_t) \<le> j" "j < unat (i + 1)" for j
          using that by simp
        show "\<not> block_free bitmap (unat (i + 1) - unat (0::size_t) - 1)"
          using used i1 by simp
        show "\<not> free_run bitmap s (unat needed)" if "s + unat needed \<le> unat (i + 1)" for s
          using that by (rule b6)
      qed
      then show ?thesis using step used by simp
    next
      case free: True
      have u: "\<not> free_run bitmap s (unat needed)"
        if s: "s < unat i - unat c" "unat i < s + unat needed" for s
      proof -
        from s(1) have "\<not> block_free bitmap (unat i - unat c - 1)" using inv(5) by simp
        moreover have "s \<le> unat i - unat c - 1" "unat i - unat c - 1 < s + unat needed"
          using s by simp_all
        ultimately show ?thesis by (rule used_block_no_run)
      qed
      show ?thesis
      proof (cases "unat needed \<le> unat c + 1")
        case found: True
        then have cn: "unat c + 1 = unat needed" using inv(3) by simp
        have ge: "unat needed - 1 \<le> unat i" using cn inv(2) by simp
        have r: "find_contiguous_loop bitmap total needed i c = Some (i - (needed - 1))"
          using step free found ge by simp
        have ur: "unat (i - (needed - 1)) = unat i - unat c"
          using unat_start_block [OF n0 ge] cn by simp
        have run: "free_run bitmap (unat i - unat c) (unat needed)"
        proof (rule free_runI)
          fix b assume "unat i - unat c \<le> b" "b < unat i - unat c + unat needed"
          then have "(unat i - unat c \<le> b \<and> b < unat i) \<or> b = unat i"
            using cn inv(2) by auto
          then show "block_free bitmap b"
            using inv(4) free by auto
        qed
        have least: "\<not> free_run bitmap s (unat needed)" if s: "s < unat i - unat c" for s
        proof (cases "s + unat needed \<le> unat i")
          case True then show ?thesis by (rule inv(6))
        next
          case False
          then show ?thesis using u [OF s] by simp
        qed
        have bound: "unat i - unat c + unat needed \<le> unat total"
          using lt cn inv(2) by simp
        show ?thesis
          unfolding r scan_result_def option.case ur
          using run bound least by blast
      next
        case more: False
        have a4: "block_free bitmap j"
          if "unat (i + 1) - unat (c + 1) \<le> j" "j < unat (i + 1)" for j
        proof -
          from that have "(unat i - unat c \<le> j \<and> j < unat i) \<or> j = unat i"
            using i1 c1 by auto
          then show ?thesis using inv(4) free by auto
        qed
        have a5: "\<not> block_free bitmap (unat (i + 1) - unat (c + 1) - 1)"
          if "unat (c + 1) < unat (i + 1)"
          using that inv(5) i1 c1 by simp
        have a6: "\<not> free_run bitmap s (unat needed)" if s: "s + unat needed \<le> unat (i + 1)" for s
        proof (cases "s + unat needed \<le> unat i")
          case True then show ?thesis by (rule inv(6))
        next
          case False
          with s i1 have e: "s + unat needed = unat i + 1" by simp
          with more have "s < unat i - unat c" by simp
          moreover have "unat i < s + unat needed" using e by simp
          ultimately show ?thesis by (rule u)
        qed
        have "scan_result bitmap (unat total) (unat needed)
                (find_contiguous_loop bitmap total needed (i + 1) (c + 1))"
        proof (rule less.hyps [OF m le'])
          show "unat (c + 1) \<le> unat (i + 1)" using i1 c1 inv(2) by simp
          show "unat (c + 1) < unat needed" using c1 more by simp
        qed (fact a4, fact a5, fact a6)
        then show ?thesis using step free more by simp
      qed
    qed
  qed
qed


lemma find_contiguous_blocks_scan:
  assumes "unat bitmap_sz * 64 \<le> 1024" "needed \<noteq> 0"
  shows "scan_result bitmap (unat bitmap_sz * 64) (unat needed)
           (find_contiguous_blocks bitmap bitmap_sz needed)"
proof -
  have small: "unat bitmap_sz \<le> 16" using assms(1) by simp
  have a: "\<not> bitmap_sz > SIZE_MAX div BLOCKS_PER_BITMAP"
    using small by (simp add: SIZE_MAX_def BLOCKS_PER_BITMAP_def word_less_nat_alt unat_div)
  have t: "unat (bitmap_sz * BLOCKS_PER_BITMAP) = unat bitmap_sz * 64"
    using small by (simp add: BLOCKS_PER_BITMAP_def unat_word_ariths)
  have b: "\<not> bitmap_sz * BLOCKS_PER_BITMAP > POOL_BLOCK_COUNT"
    using assms(1) t by (simp add: word_less_nat_alt unat_small_consts)
  have np: "0 < unat needed" using assms(2) by (simp add: unat_gt_0)
  have "scan_result bitmap (unat (bitmap_sz * BLOCKS_PER_BITMAP)) (unat needed)
          (find_contiguous_loop bitmap (bitmap_sz * BLOCKS_PER_BITMAP) needed 0 0)"
    by (rule find_loop_correct [OF assms(2)]) (use np in simp_all)
  then show ?thesis
    using a b t by (simp add: find_contiguous_blocks_def Let_def)
qed

text \<open>
  Claim C3 (first fit).  For a bitmap of \<open>bitmap_sz\<close> words with
  \<open>bitmap_sz * 64 \<le> POOL_BLOCK_COUNT\<close> and a request of at least one block,
  \<open>find_contiguous_blocks\<close> returns true exactly when the first \<open>bitmap_sz * 64\<close> blocks
  hold a free run of the requested length, and the start it reports is the lowest start
  of such a run.  The check \<open>i < blocks_needed - 1\<close> never rejects a run.
\<close>

theorem find_contiguous_blocks_first_fit:
  assumes "unat bitmap_sz * 64 \<le> 1024" and "length bitmap = unat bitmap_sz" and "1 \<le> needed"
  shows "(find_contiguous_blocks bitmap bitmap_sz needed \<noteq> None \<longleftrightarrow>
            (\<exists>s. s + unat needed \<le> unat bitmap_sz * 64 \<and> free_run bitmap s (unat needed)))
       \<and> (\<forall>r. find_contiguous_blocks bitmap bitmap_sz needed = Some r \<longrightarrow>
            free_run bitmap (unat r) (unat needed)
            \<and> unat r + unat needed \<le> unat bitmap_sz * 64
            \<and> (\<forall>s<unat r. \<not> free_run bitmap s (unat needed)))"
proof -
  have n0: "needed \<noteq> 0" using assms(3) by auto
  note sc = find_contiguous_blocks_scan [OF assms(1) n0, of bitmap]
  show ?thesis
  proof (cases "find_contiguous_blocks bitmap bitmap_sz needed")
    case None
    with sc show ?thesis by (simp add: scan_result_def)
  next
    case (Some r)
    with sc show ?thesis by (auto simp: scan_result_def)
  qed
qed

text \<open>
  One bitmap word 0x0B: blocks 0, 1 and 3 are used, so the lowest free run of two blocks
  starts at block 4.
\<close>

theorem find_contiguous_blocks_first_fit_witness:
  "unat (1 :: size_t) * 64 \<le> 1024 \<and> length [0x0B :: 64 word] = unat (1 :: size_t)
   \<and> (1 :: size_t) \<le> 2 \<and> free_run [0x0B] 4 (unat (2 :: size_t))
   \<and> find_contiguous_blocks [0x0B] 1 2 \<noteq> None
   \<and> find_contiguous_blocks [0x0B] 1 2 = Some 4"
proof -
  have h: "unat (1 :: size_t) * 64 \<le> 1024" "length [0x0B :: 64 word] = unat (1 :: size_t)"
    "(1 :: size_t) \<le> 2"
    by simp_all
  have r: "free_run [0x0B] 4 (unat (2 :: size_t))" by code_simp
  have "4 + unat (2 :: size_t) \<le> unat (1 :: size_t) * 64" by simp
  with r find_contiguous_blocks_first_fit [OF h]
  have "find_contiguous_blocks [0x0B] 1 2 \<noteq> None" by blast
  moreover have "find_contiguous_blocks [0x0B] 1 2 = Some 4" by code_simp
  ultimately show ?thesis using h r by blast
qed

section \<open>Failure paths of the StatusTracker and the counter updates\<close>

lemma in_set_tl: "x \<in> set (tl xs) \<Longrightarrow> x \<in> set xs"
  by (cases xs) auto

lemma next_event_cases:
  "next_event es = Quiet \<or> next_event es = Spurious
   \<or> (\<exists>v. next_event es = Interfere v \<and> Interfere v \<in> set es)"
proof (cases es)
  case Nil
  then show ?thesis by simp
next
  case (Cons e rest)
  then show ?thesis by (cases e) simp_all
qed

lemma max_retries_Suc: "STRATEGY_MAX_RETRIES = Suc (Suc (Suc 0))"
  by (simp add: STRATEGY_MAX_RETRIES_def numeral_3_eq_3)

lemma max_counter_retries_unfold: "MAX_COUNTER_RETRIES = Suc (Suc (Suc (Suc (Suc 0))))"
  by (simp add: MAX_COUNTER_RETRIES_def eval_nat_numeral)

lemma schedule_value_0 [simp]: "schedule_value 0 es loc = loc"
  by (simp add: schedule_value_def)

lemma schedule_value_Suc:
  "schedule_value (Suc n) es loc = schedule_value n (tl es) (after_event (next_event es) loc)"
  by (cases es) (simp_all add: schedule_value_def)

lemma increment_attempts_fail:
  "cas_attempts_fail True n es c \<Longrightarrow> c \<noteq> UINT64_MAX \<Longrightarrow> Interfere UINT64_MAX \<notin> set es \<Longrightarrow>
   atomic_increment_loop n es c = (STRATEGY_ATOMIC_FAILURE, schedule_value n es c)"
proof (induction n arbitrary: es c)
  case 0
  then show ?case by simp
next
  case (Suc n)
  have ov: "check_counter_overflow c = STRATEGY_SUCCESS"
    using Suc.prems(2) by (simp add: check_counter_overflow_def uint64_max_ge)
  have tl: "Interfere UINT64_MAX \<notin> set (tl es)"
    using Suc.prems(3) by (auto dest: in_set_tl)
  show ?case
  proof (cases "next_event es")
    case Quiet
    with Suc.prems(1) show ?thesis by simp
  next
    case (Interfere v)
    with Suc.prems(1) have ne: "v \<noteq> c" and f: "cas_attempts_fail True n (tl es) v" by simp_all
    have "Interfere v \<in> set es" using Interfere by (cases es) simp_all
    with Suc.prems(3) have vm: "v \<noteq> UINT64_MAX" by auto
    have "atomic_increment_loop (Suc n) es c = atomic_increment_loop n (tl es) v"
      using ov Interfere ne by (simp add: perform_atomic_increment_def cas_weak_def cas_strong_def)
    with Suc.IH [OF f vm tl] Interfere show ?thesis by (simp add: schedule_value_Suc)
  next
    case Spurious
    with Suc.prems(1) have f: "cas_attempts_fail True n (tl es) c" by simp
    have "atomic_increment_loop (Suc n) es c = atomic_increment_loop n (tl es) c"
      using ov Spurious by (simp add: perform_atomic_increment_def cas_weak_def)
    with Suc.IH [OF f Suc.prems(2) tl] Spurious show ?thesis by (simp add: schedule_value_Suc)
  qed
qed

lemma increment_failure_attempts:
  "fst (atomic_increment_loop n es c) = STRATEGY_ATOMIC_FAILURE \<Longrightarrow>
   cas_attempts_fail True n es c \<and> snd (atomic_increment_loop n es c) = schedule_value n es c"
proof (induction n arbitrary: es c)
  case 0
  then show ?case by simp
next
  case (Suc n)
  have ov: "check_counter_overflow c = STRATEGY_SUCCESS"
    using Suc.prems by (auto simp: check_counter_overflow_def split: if_splits)
  show ?case
  proof (cases "next_event es")
    case Quiet
    with Suc.prems ov show ?thesis
      by (simp add: perform_atomic_increment_def cas_weak_def cas_strong_def)
  next
    case (Interfere v)
    show ?thesis
    proof (cases "v = c")
      case True
      with Suc.prems ov Interfere show ?thesis
        by (simp add: perform_atomic_increment_def cas_weak_def cas_strong_def)
    next
      case False
      then have r: "atomic_increment_loop (Suc n) es c = atomic_increment_loop n (tl es) v"
        using ov Interfere by (simp add: perform_atomic_increment_def cas_weak_def cas_strong_def)
      with Suc.prems Suc.IH [of "tl es" v] Interfere False show ?thesis
        by (simp add: schedule_value_Suc)
    qed
  next
    case Spurious
    then have r: "atomic_increment_loop (Suc n) es c = atomic_increment_loop n (tl es) c"
      using ov by (simp add: perform_atomic_increment_def cas_weak_def)
    with Suc.prems Suc.IH [of "tl es" c] Spurious show ?thesis
      by (simp add: schedule_value_Suc)
  qed
qed

lemma update_counter_attempts_fail:
  "cas_attempts_fail False n es c \<Longrightarrow>
   update_counter_loop n es c v inc
     = (False, if inc then schedule_value n es c + v else schedule_value n es c - v)"
proof (induction n arbitrary: es c)
  case 0
  then show ?case by simp
next
  case (Suc n)
  show ?case
  proof (cases "next_event es")
    case Quiet
    with Suc.prems show ?thesis by simp
  next
    case (Interfere u)
    with Suc.prems have ne: "u \<noteq> c" and f: "cas_attempts_fail False n (tl es) u" by simp_all
    have "update_counter_loop (Suc n) es c v inc = update_counter_loop n (tl es) u v inc"
      using Interfere ne by (simp add: cas_strong_def)
    with Suc.IH [OF f] Interfere show ?thesis by (simp add: schedule_value_Suc)
  next
    case Spurious
    with Suc.prems show ?thesis by simp
  qed
qed

lemma update_counter_cas_applied:
  "\<not> cas_attempts_fail False n es c \<Longrightarrow>
   \<exists>w. (w = c \<or> Interfere w \<in> set es)
     \<and> update_counter_loop n es c v inc = (True, if inc then w + v else w - v)"
proof (induction n arbitrary: es c)
  case 0
  then show ?case by simp
next
  case (Suc n)
  show ?case
  proof (cases "next_event es")
    case Quiet
    then show ?thesis by (auto simp: cas_strong_def)
  next
    case (Interfere u)
    then have m: "Interfere u \<in> set es" by (cases es) simp_all
    show ?thesis
    proof (cases "u = c")
      case True
      then show ?thesis using Interfere by (auto simp: cas_strong_def)
    next
      case False
      then have r: "update_counter_loop (Suc n) es c v inc = update_counter_loop n (tl es) u v inc"
        using Interfere by (simp add: cas_strong_def)
      from Suc.prems Interfere False have "\<not> cas_attempts_fail False n (tl es) u" by simp
      from Suc.IH [OF this] obtain w where
        w: "w = u \<or> Interfere w \<in> set (tl es)"
          "update_counter_loop n (tl es) u v inc = (True, if inc then w + v else w - v)"
        by blast
      from w(1) m have "w = c \<or> Interfere w \<in> set es" by (auto dest: in_set_tl)
      with w(2) r show ?thesis by auto
    qed
  next
    case Spurious
    then show ?thesis by (auto simp: cas_strong_def)
  qed
qed


lemma increment_loop_failure:
  "fst (atomic_increment_loop n es c) = STRATEGY_ATOMIC_FAILURE \<Longrightarrow>
   snd (atomic_increment_loop n es c) = c
   \<or> Interfere (snd (atomic_increment_loop n es c)) \<in> set es"
proof (induction n arbitrary: es c)
  case 0
  then show ?case by simp
next
  case (Suc n)
  have ov: "check_counter_overflow c = STRATEGY_SUCCESS"
    using Suc.prems by (auto simp: check_counter_overflow_def split: if_splits)
  from next_event_cases [of es] show ?case
  proof (elim disjE exE conjE)
    assume "next_event es = Quiet"
    then show ?thesis
      using Suc.prems ov by (simp add: perform_atomic_increment_def cas_weak_def cas_strong_def)
  next
    assume e: "next_event es = Spurious"
    then have r: "atomic_increment_loop (Suc n) es c = atomic_increment_loop n (tl es) c"
      using ov by (simp add: perform_atomic_increment_def cas_weak_def)
    with Suc.prems Suc.IH [of "tl es" c] show ?thesis
      by (auto dest: in_set_tl)
  next
    fix v assume e: "next_event es = Interfere v" and m: "Interfere v \<in> set es"
    show ?thesis
    proof (cases "v = c")
      case True
      then show ?thesis
        using Suc.prems ov e
        by (simp add: perform_atomic_increment_def cas_weak_def cas_strong_def)
    next
      case False
      then have r: "atomic_increment_loop (Suc n) es c = atomic_increment_loop n (tl es) v"
        using ov e by (simp add: perform_atomic_increment_def cas_weak_def cas_strong_def)
      with Suc.prems Suc.IH [of "tl es" v] m show ?thesis
        by (auto dest: in_set_tl)
    qed
  qed
qed

lemma update_counter_loop_applied:
  "\<exists>w. (w = c \<or> Interfere w \<in> set es)
       \<and> snd (update_counter_loop n es c v inc) = (if inc then w + v else w - v)"
proof (induction n arbitrary: es c)
  case 0
  then show ?case by auto
next
  case (Suc n)
  from next_event_cases [of es] show ?case
  proof (elim disjE exE conjE)
    assume "next_event es = Quiet"
    then show ?thesis by (auto simp: cas_strong_def)
  next
    assume "next_event es = Spurious"
    then show ?thesis by (auto simp: cas_strong_def)
  next
    fix u assume e: "next_event es = Interfere u" and m: "Interfere u \<in> set es"
    show ?thesis
    proof (cases "u = c")
      case True
      then show ?thesis using e by (auto simp: cas_strong_def)
    next
      case False
      then have r: "update_counter_loop (Suc n) es c v inc = update_counter_loop n (tl es) u v inc"
        using e by (simp add: cas_strong_def)
      from Suc.IH [of u "tl es"] obtain w where
        w: "w = u \<or> Interfere w \<in> set (tl es)"
          "snd (update_counter_loop n (tl es) u v inc) = (if inc then w + v else w - v)"
        by blast
      from w(1) m have "w = c \<or> Interfere w \<in> set es" by (auto dest: in_set_tl)
      with w(2) r show ?thesis by auto
    qed
  qed
qed

text \<open>
  Claim C6 (counter updates and the fallback), as the code has it.
  \<open>atomic_increment_with_check\<close> of the StatusTracker has no fallback.  When all
  \<open>STRATEGY_MAX_RETRIES\<close> compare-and-swap attempts fail (and neither the counter nor a
  value another thread stores is \<open>UINT64_MAX\<close>, which would end the loop with
  \<open>STRATEGY_OVERFLOW\<close>), it returns \<open>STRATEGY_ATOMIC_FAILURE\<close> and the counter holds what
  the other threads left in it: its old value or the last value stored, without the
  increment.  It returns \<open>STRATEGY_ATOMIC_FAILURE\<close> in no other case.
  \<open>update_counter_with_retry\<close> of MemoryStats always applies its update exactly once.
  When all \<open>MAX_COUNTER_RETRIES\<close> attempts fail it returns 0 after the unconditional
  \<open>atomic_fetch_add\<close> or \<open>atomic_fetch_sub\<close> on the value the other threads left;
  otherwise it returns 1 after a compare-and-swap that succeeded.  Either way the counter
  ends as a value \<open>w\<close> it held (the initial one or one another thread stored) plus or
  minus \<open>v\<close>.
\<close>

theorem counter_retry_policies:
  "(cas_attempts_fail True STRATEGY_MAX_RETRIES es c \<and> c \<noteq> UINT64_MAX
      \<and> Interfere UINT64_MAX \<notin> set es \<longrightarrow>
      atomic_increment_with_check es c
        = (STRATEGY_ATOMIC_FAILURE, schedule_value STRATEGY_MAX_RETRIES es c))
   \<and> (fst (atomic_increment_with_check es c) = STRATEGY_ATOMIC_FAILURE \<longrightarrow>
        cas_attempts_fail True STRATEGY_MAX_RETRIES es c
        \<and> snd (atomic_increment_with_check es c) = schedule_value STRATEGY_MAX_RETRIES es c
        \<and> (snd (atomic_increment_with_check es c) = c
           \<or> Interfere (snd (atomic_increment_with_check es c)) \<in> set es))
   \<and> (cas_attempts_fail False MAX_COUNTER_RETRIES es' c' \<longrightarrow>
        update_counter_with_retry es' c' v inc
          = (False, if inc then schedule_value MAX_COUNTER_RETRIES es' c' + v
                    else schedule_value MAX_COUNTER_RETRIES es' c' - v))
   \<and> (\<not> cas_attempts_fail False MAX_COUNTER_RETRIES es' c' \<longrightarrow>
        (\<exists>w. (w = c' \<or> Interfere w \<in> set es')
            \<and> update_counter_with_retry es' c' v inc = (True, if inc then w + v else w - v)))
   \<and> (\<exists>w. (w = c' \<or> Interfere w \<in> set es')
          \<and> snd (update_counter_with_retry es' c' v inc) = (if inc then w + v else w - v))"
  unfolding atomic_increment_with_check_def update_counter_with_retry_def
  using increment_attempts_fail [of STRATEGY_MAX_RETRIES es c]
    increment_failure_attempts [of STRATEGY_MAX_RETRIES es c]
    increment_loop_failure [of STRATEGY_MAX_RETRIES es c]
    update_counter_attempts_fail [of MAX_COUNTER_RETRIES es' c' v inc]
    update_counter_cas_applied [of MAX_COUNTER_RETRIES es' c' v inc]
    update_counter_loop_applied [of c' es' MAX_COUNTER_RETRIES v inc]
  by blast

lemma increment_three_spurious:
  "atomic_increment_with_check [Spurious, Spurious, Spurious] 5 = (STRATEGY_ATOMIC_FAILURE, 5)"
  by (simp add: atomic_increment_with_check_def STRATEGY_MAX_RETRIES_def numeral_3_eq_3
      check_counter_overflow_def UINT64_MAX_def perform_atomic_increment_def cas_weak_def)

text \<open>
  A spurious failure, an interfering store of 9 and another spurious failure leave the
  tracker's counter at 9 with \<open>STRATEGY_ATOMIC_FAILURE\<close>.  Five interfering stores leave
  the ledger's counter at the last stored value plus one, through the fallback; a store
  of the value that was loaded lets the first compare-and-swap succeed.
\<close>

theorem counter_retry_policies_witness:
  "atomic_increment_with_check [Spurious, Interfere 9, Spurious] 5 = (STRATEGY_ATOMIC_FAILURE, 9)
   \<and> update_counter_with_retry
        [Interfere 7, Interfere 8, Interfere 9, Interfere 10, Interfere 11] 5 1 True
      = (False, 12)
   \<and> update_counter_with_retry [Interfere 7] 7 1 True = (True, 8)"
proof -
  let ?es = "[Spurious, Interfere 9, Spurious] :: 64 word cas_event list"
  let ?es' = "[Interfere 7, Interfere 8, Interfere 9, Interfere 10, Interfere 11]
                :: 64 word cas_event list"
  have a: "cas_attempts_fail True STRATEGY_MAX_RETRIES ?es 5"
    "(5 :: 64 word) \<noteq> UINT64_MAX" "Interfere UINT64_MAX \<notin> set ?es"
    "schedule_value STRATEGY_MAX_RETRIES ?es 5 = 9"
    by (simp_all add: max_retries_Suc UINT64_MAX_def schedule_value_def)
  have b: "cas_attempts_fail False MAX_COUNTER_RETRIES ?es' 5"
    "schedule_value MAX_COUNTER_RETRIES ?es' 5 = 11"
    by (simp_all add: max_counter_retries_unfold schedule_value_def)
  have c: "\<not> cas_attempts_fail False MAX_COUNTER_RETRIES [Interfere 7] (7 :: 64 word)"
    by (simp add: max_counter_retries_unfold)
  from counter_retry_policies [of ?es 5 ?es' 5 1 True] a b
  have 1: "atomic_increment_with_check ?es 5 = (STRATEGY_ATOMIC_FAILURE, 9)"
    and 2: "update_counter_with_retry ?es' 5 1 True = (False, 12)"
    by simp_all
  from counter_retry_policies [of ?es 5 "[Interfere 7]" 7 1 True] c
  have 3: "update_counter_with_retry [Interfere 7] 7 1 True = (True, 8)"
    by auto
  from 1 2 3 show ?thesis by simp
qed

text \<open>
  Claim C6 as it is written fails: when the three weak compare-and-swap attempts on
  \<open>transition_count\<close> all fail, \<open>transition_status\<close> returns \<open>STRATEGY_ATOMIC_FAILURE\<close>
  and the counter is still 5.
\<close>

theorem increment_without_fallback_counterexample:
  "atomic_increment_with_check [Spurious, Spurious, Spurious] 5 = (STRATEGY_ATOMIC_FAILURE, 5)
   \<and> transition_status
        \<lparr>lock_free = True, status_events = [],
         transition_events = [Spurious, Spurious, Spurious], error_events = []\<rparr>
        (Some \<lparr>current_status = STRATEGY_STATE_INITIALIZED, transition_count = 5,
               error_count = 0\<rparr>)
        STRATEGY_STATE_ACTIVE
      = (STRATEGY_ATOMIC_FAILURE,
         Some \<lparr>current_status = STRATEGY_STATE_ACTIVE, transition_count = 5, error_count = 0\<rparr>)"
  by (simp add: increment_three_spurious
      STRATEGY_STATE_INITIALIZED_def STRATEGY_STATE_ACTIVE_def STRATEGY_STATE_ERROR_def
      STRATEGY_STATE_TRANSITIONING_def STRATEGY_MAX_STATE_def VALID_TRANSITIONS_def
      transition_status_def validate_transition_input_def handle_state_transition_def
      atomic_transition_status_def STRATEGY_MAX_RETRIES_def numeral_3_eq_3
      validate_state_transition_def perform_atomic_operation_def cas_strong_def
      update_transition_counters_def atomic_increment_with_check_def
      check_counter_overflow_def UINT64_MAX_def perform_atomic_increment_def cas_weak_def)





lemmas transition_eval =
  STRATEGY_STATE_INITIALIZED_def STRATEGY_STATE_ACTIVE_def STRATEGY_STATE_ERROR_def
  STRATEGY_STATE_TRANSITIONING_def STRATEGY_MAX_STATE_def VALID_TRANSITIONS_def
  transition_status_def validate_transition_input_def handle_state_transition_def
  atomic_transition_status_def max_retries_Suc
  validate_state_transition_def perform_atomic_operation_def cas_strong_def
  update_transition_counters_def atomic_increment_with_check_def
  check_counter_overflow_def UINT64_MAX_def perform_atomic_increment_def cas_weak_def
  quiet_env_def

















section \<open>Properties of MemoryStats\<close>

lemma find_and_remove_loop_unknown:
  "list_all (\<lambda>slot. valid slot = 0 \<or> address slot \<noteq> ptr) slots \<Longrightarrow>
   find_and_remove_loop slots ptr = None"
  by (induction slots) auto

lemma update_deallocation_unknown:
  assumes "list_all (\<lambda>slot. valid slot = 0 \<or> address slot \<noteq> ptr) (active_allocations stats)"
  shows "memory_stats_update_deallocation env (Some stats) ptr = Some stats"
  using find_and_remove_loop_unknown [OF assms]
  by (simp add: memory_stats_update_deallocation_def find_and_remove_allocation_def)

lemma deallocation_bytes_loop_no_underflow:
  "\<exists>w. (w = cb \<or> Interfere w \<in> set es)
       \<and> (deallocation_bytes_loop n es cb sz = w
          \<or> (sz \<le> w \<and> deallocation_bytes_loop n es cb sz = w - sz))"
proof (induction n arbitrary: es cb)
  case 0
  then show ?case by auto
next
  case (Suc n)
  show ?case
  proof (cases "cb < sz")
    case True
    then show ?thesis by auto
  next
    case False
    then have le: "sz \<le> cb" by simp
    from next_event_cases [of es] show ?thesis
    proof (elim disjE exE conjE)
      assume "next_event es = Quiet"
      then show ?thesis using False le by (auto simp: cas_strong_def)
    next
      assume "next_event es = Spurious"
      then show ?thesis using False le by (auto simp: cas_strong_def)
    next
      fix u assume e: "next_event es = Interfere u" and m: "Interfere u \<in> set es"
      show ?thesis
      proof (cases "u = cb")
        case True
        then show ?thesis using e False le by (auto simp: cas_strong_def)
      next
        case ne: False
        then have r: "deallocation_bytes_loop (Suc n) es cb sz
                        = deallocation_bytes_loop n (tl es) u sz"
          using e False by (simp add: cas_strong_def)
        from Suc.IH [of u "tl es"] obtain w where
          w: "w = u \<or> Interfere w \<in> set (tl es)"
            "deallocation_bytes_loop n (tl es) u sz = w
             \<or> (sz \<le> w \<and> deallocation_bytes_loop n (tl es) u sz = w - sz)"
          by blast
        from w(1) m have "w = cb \<or> Interfere w \<in> set es" by (auto dest: in_set_tl)
        with w(2) r show ?thesis by auto
      qed
    qed
  qed
qed

lemma deallocation_bytes_loop_quiet:
  "deallocation_bytes_loop (Suc n) [] cb sz = (if cb < sz then cb else cb - sz)"
  by (simp add: cas_strong_def)

lemma find_and_remove_current_bytes:
  "current_bytes (snd (find_and_remove_allocation stats ptr)) = current_bytes stats"
  by (simp add: find_and_remove_allocation_def split: option.splits prod.splits)

text \<open>
  Claim C9 (\<open>current_bytes\<close> never wraps below zero).  Let \<open>sz\<close> be the size of the
  allocation \<open>memory_stats_update_deallocation\<close> removes (0 when it removes none).  The
  counter ends either as a value \<open>w\<close> it held (its value before the call, or one another
  thread stored during the call), or as \<open>w - sz\<close> for such a \<open>w\<close> with \<open>sz \<le> w\<close>, the
  difference taken without wrap-around; and when no other thread interferes it ends as
  \<open>current_bytes - sz\<close> if \<open>current_bytes \<ge> sz\<close> and unchanged otherwise.  This holds from
  every ledger state, hence at every deallocation of every sequence of updates.
\<close>

theorem update_deallocation_no_underflow:
  assumes "memory_stats_update_deallocation env (Some stats) ptr = Some stats'"
    and "sz = fst (find_and_remove_allocation stats ptr)"
  shows "(\<exists>w. (w = current_bytes stats \<or> Interfere w \<in> set (bytes_events env))
            \<and> (current_bytes stats' = w
               \<or> (unat sz \<le> unat w \<and> unat (current_bytes stats') = unat w - unat sz)))
       \<and> (bytes_events env = [] \<longrightarrow>
            unat (current_bytes stats')
              = (if unat sz \<le> unat (current_bytes stats)
                 then unat (current_bytes stats) - unat sz else unat (current_bytes stats)))"
proof (cases "ptr = 0 \<or> sz = 0")
  case True
  then have "current_bytes stats' = current_bytes stats"
    using assms find_and_remove_current_bytes [of stats ptr]
    by (auto simp: memory_stats_update_deallocation_def split: prod.splits if_splits)
  with True show ?thesis
    using assms(2) by (auto simp: find_and_remove_allocation_def)
next
  case False
  obtain stats1 where f: "find_and_remove_allocation stats ptr = (sz, stats1)"
    using assms(2) by (cases "find_and_remove_allocation stats ptr") simp
  have c1: "current_bytes stats1 = current_bytes stats"
    using find_and_remove_current_bytes [of stats ptr] f by simp
  have cb: "current_bytes stats'
              = deallocation_bytes_loop MAX_RETRY_ATTEMPTS (bytes_events env) (current_bytes stats) sz"
    using assms(1) False f c1
    by (auto simp: memory_stats_update_deallocation_def Let_def)
  from deallocation_bytes_loop_no_underflow
    [of "current_bytes stats" "bytes_events env" MAX_RETRY_ATTEMPTS sz]
  obtain w where w: "w = current_bytes stats \<or> Interfere w \<in> set (bytes_events env)"
      "current_bytes stats' = w \<or> (sz \<le> w \<and> current_bytes stats' = w - sz)"
    unfolding cb by blast
  have 1: "\<exists>w. (w = current_bytes stats \<or> Interfere w \<in> set (bytes_events env))
            \<and> (current_bytes stats' = w
               \<or> (unat sz \<le> unat w \<and> unat (current_bytes stats') = unat w - unat sz))"
    using w by (auto simp: word_le_nat_alt unat_sub)
  have 2: "unat (current_bytes stats')
              = (if unat sz \<le> unat (current_bytes stats)
                 then unat (current_bytes stats) - unat sz else unat (current_bytes stats))"
    if "bytes_events env = []"
    using that cb
    by (auto simp: MAX_RETRY_ATTEMPTS_def eval_nat_numeral cas_strong_def word_le_nat_alt
        word_less_nat_alt unat_sub simp del: deallocation_bytes_loop.simps(2)
        simp add: deallocation_bytes_loop_quiet)
  from 1 2 show ?thesis by blast
qed


lemma ledger_example_removed:
  "find_and_remove_allocation (ledger_example cb) 0x1000
     = (100, (ledger_example cb)
               \<lparr>active_allocations :=
                  [\<lparr>address = 0, alloc_size = 0, src_file = [], src_line = 0, timestamp = 0,
                    valid = 0, in_use = 0\<rparr>],
                active_allocation_count := 0, total_leaked_bytes := 0\<rparr>)"
  by (simp add: find_and_remove_allocation_def ledger_example_def)

lemma ledger_example_deallocation:
  "\<exists>st. memory_stats_update_deallocation quiet_stats_env (Some (ledger_example cb)) 0x1000
          = Some st"
  by (simp add: memory_stats_update_deallocation_def ledger_example_removed Let_def)

text \<open>
  With 250 current bytes the 100 bytes are subtracted; with 40 the counter stays at 40.
\<close>

theorem update_deallocation_no_underflow_witness:
  "(\<exists>st. memory_stats_update_deallocation quiet_stats_env (Some (ledger_example 250)) 0x1000
           = Some st \<and> unat (current_bytes st) = 150)
   \<and> (\<exists>st. memory_stats_update_deallocation quiet_stats_env (Some (ledger_example 40)) 0x1000
           = Some st \<and> unat (current_bytes st) = 40)"
proof -
  have q: "bytes_events quiet_stats_env = []" by (simp add: quiet_stats_env_def)
  have f: "fst (find_and_remove_allocation (ledger_example cb) 0x1000) = 100" for cb
    by (simp add: ledger_example_removed)
  have c: "current_bytes (ledger_example cb) = cb" for cb
    by (simp add: ledger_example_def)
  from ledger_example_deallocation [of 250] obtain a where
    a: "memory_stats_update_deallocation quiet_stats_env (Some (ledger_example 250)) 0x1000 = Some a"
    by blast
  from ledger_example_deallocation [of 40] obtain b where
    b: "memory_stats_update_deallocation quiet_stats_env (Some (ledger_example 40)) 0x1000 = Some b"
    by blast
  from update_deallocation_no_underflow [OF a refl] q
  have "unat (current_bytes a) = 150" by (simp add: f c)
  moreover from update_deallocation_no_underflow [OF b refl] q
  have "unat (current_bytes b) = 40" by (simp add: f c)
  ultimately show ?thesis using a b by simp
qed

section \<open>Properties of pool\_deallocate\<close>

lemma concurrent_ops_restored [simp]:
  "sub_concurrent_ops 1 (add_concurrent_ops 1 pool) = pool"
  by (simp add: sub_concurrent_ops_def add_concurrent_ops_def)

lemma add_concurrent_ops_fields [simp]:
  "pool_memory (add_concurrent_ops n pool) = pool_memory pool"
  "block_bitmap (add_concurrent_ops n pool) = block_bitmap pool"
  "bitmap_size (add_concurrent_ops n pool) = bitmap_size pool"
  "blocks_used (metrics (add_concurrent_ops n pool)) = blocks_used (metrics pool)"
  by (simp_all add: add_concurrent_ops_def)

lemma strategy_data_same [simp]:
  "strategy_data self = Some pool \<Longrightarrow> self\<lparr>strategy_data := Some pool\<rparr> = self"
  by simp

lemma enter_error_state_pool [simp]:
  "strategy_data (enter_error_state self) = strategy_data self"
  "bitmap_mem (enter_error_state self) = bitmap_mem self"
  "byte_mem (enter_error_state self) = byte_mem self"
  by (simp_all add: enter_error_state_def)

lemma pool_deallocate_rejected:
  assumes "strategy_data self = Some pool"
    and "\<not> is_ptr_in_pool_range (ptr - POOL_METADATA_SIZE) (pool_memory pool)
             (POOL_BLOCK_SIZE * POOL_BLOCK_COUNT)
         \<or> \<not> is_block_used (block_bitmap pool) (bitmap_mem self)
               ((ptr - POOL_METADATA_SIZE - pool_memory pool) div POOL_BLOCK_SIZE)"
  shows "strategy_data (pool_deallocate self ptr) = strategy_data self
       \<and> bitmap_mem (pool_deallocate self ptr) = bitmap_mem self
       \<and> byte_mem (pool_deallocate self ptr) = byte_mem self"
  using assms
  by (auto simp: pool_deallocate_def Let_def)


lemma wrapped_header_large:
  fixes bi n :: size_t
  assumes "bi < POOL_BLOCK_COUNT" "1024 < unat bi + unat n" "\<not> POOL_BLOCK_COUNT < bi + n"
  shows "2 ^ 64 - 1024 < unat n"
proof (rule ccontr)
  assume "\<not> 2 ^ 64 - 1024 < unat n"
  then have n: "unat n \<le> 2 ^ 64 - 1024" by simp
  have b: "unat bi < 1024"
    using assms(1) by (simp add: word_less_nat_alt POOL_BLOCK_COUNT_def)
  have "unat bi + unat n < 2 ^ 64" using n b by simp
  then have "unat (bi + n) = unat bi + unat n"
    by (simp add: unat_add_lem [THEN iffD1])
  with assms(2,3) show False
    by (simp add: word_less_nat_alt POOL_BLOCK_COUNT_def)
qed

lemma large_header_times_block:
  fixes n :: size_t
  assumes "2 ^ 64 - 1024 < unat n"
  shows "POOL_BLOCK_SIZE * POOL_BLOCK_COUNT < n * POOL_BLOCK_SIZE"
proof -
  define k where "k = 2 ^ 64 - unat n"
  have un: "unat n < 2 ^ 64" using unsigned_less [of n, where ?'a = nat] by simp
  have kb: "0 < k" "k < 1024" "unat n = 2 ^ 64 - k" using assms un by (simp_all add: k_def)
  have "unat n * 256 = (2 ^ 64 - k * 256) + 255 * 2 ^ 64"
    using kb by simp
  then have "(unat n * 256) mod 2 ^ 64 = (2 ^ 64 - k * 256) mod 2 ^ 64"
    by (simp only: mod_mult_self1)
  also have "\<dots> = 2 ^ 64 - k * 256" using kb by simp
  finally have "unat (n * 256) = 2 ^ 64 - k * 256"
    by (simp add: unat_word_ariths)
  then show ?thesis
    using kb by (simp add: word_less_nat_alt POOL_BLOCK_SIZE_def POOL_BLOCK_COUNT_def)
qed


lemma is_block_used_bound:
  "is_block_used bptr bm b \<Longrightarrow> b < POOL_BLOCK_COUNT \<and> bptr \<noteq> 0"
  by (auto simp: is_block_used_def split: if_splits)

lemma secure_clear_too_large:
  "POOL_BLOCK_SIZE * POOL_BLOCK_COUNT < sz \<Longrightarrow> secure_clear_memory m p sz = m"
  by (simp add: secure_clear_memory_def)

lemma mark_blocks_too_many:
  "POOL_BLOCK_COUNT < n \<Longrightarrow> mark_blocks bptr bm start n used = bm"
  by (simp add: mark_blocks_def)

lemma blocks_used_below_large:
  fixes n :: size_t and u :: "64 word"
  assumes "2 ^ 64 - 1024 < unat n"
  shows "\<not> n \<le> ucast (ucast u :: 32 word)"
proof -
  have "unat (ucast (ucast u :: 32 word) :: 64 word) = take_bit 32 (unat u)"
    by (simp add: unsigned_ucast_eq unsigned_take_bit_eq)
  moreover have "take_bit 32 (unat u) < 2 ^ 32"
    by (rule take_bit_nat_less_exp)
  ultimately show ?thesis using assms by (simp add: word_le_nat_alt)
qed

text \<open>
  Claim C10 (the run header is validated before anything is changed).  With
  \<open>num_blocks\<close> the \<open>size_t\<close> read at the block start and \<open>block_index\<close> the index
  computed from the pointer: when \<open>num_blocks\<close> is 0, or \<open>block_index + num_blocks\<close>
  exceeds \<open>POOL_BLOCK_COUNT\<close> (as a sum of natural numbers, so also when the sum would
  wrap around in \<open>size_t\<close>), \<open>pool_deallocate\<close> clears no memory, flips no bitmap bit and
  leaves every metric, \<open>blocks_used\<close> among them, as it was.
\<close>

theorem pool_deallocate_header_validated:
  assumes "strategy_data self = Some pool"
    and "num_blocks = load_size_t (byte_mem self) (ptr - POOL_METADATA_SIZE)"
    and "block_index = (ptr - POOL_METADATA_SIZE - pool_memory pool) div POOL_BLOCK_SIZE"
    and "num_blocks = 0 \<or> 1024 < unat block_index + unat num_blocks"
  shows "byte_mem (pool_deallocate self ptr) = byte_mem self
       \<and> bitmap_mem (pool_deallocate self ptr) = bitmap_mem self
       \<and> strategy_data (pool_deallocate self ptr) = strategy_data self"
proof (cases "is_ptr_in_pool_range (ptr - POOL_METADATA_SIZE) (pool_memory pool)
                (POOL_BLOCK_SIZE * POOL_BLOCK_COUNT)
              \<and> is_block_used (block_bitmap pool) (bitmap_mem self) block_index")
  case False
  then show ?thesis
    using pool_deallocate_rejected [OF assms(1), of ptr] assms(3) by blast
next
  case True
  then have bi: "block_index < POOL_BLOCK_COUNT"
    using is_block_used_bound by blast
  show ?thesis
  proof (cases "num_blocks = 0 \<or> POOL_BLOCK_COUNT < block_index + num_blocks")
    case exit: True
    then show ?thesis
      using assms(1,2,3)
      by (auto simp: pool_deallocate_def Let_def)
  next
    case False
    then have w: "2 ^ 64 - 1024 < unat num_blocks"
      using wrapped_header_large [OF bi] assms(4) by blast
    have 1: "secure_clear_memory (byte_mem self) (ptr - POOL_METADATA_SIZE)
               (num_blocks * POOL_BLOCK_SIZE) = byte_mem self"
      by (rule secure_clear_too_large [OF large_header_times_block [OF w]])
    have big: "POOL_BLOCK_COUNT < num_blocks"
      using w by (simp add: word_less_nat_alt POOL_BLOCK_COUNT_def)
    have 2: "mark_blocks (block_bitmap pool) (bitmap_mem self) block_index num_blocks False
               = bitmap_mem self"
      by (rule mark_blocks_too_many [OF big])
    note 3 = blocks_used_below_large [OF w, of "blocks_used (metrics pool)"]
    show ?thesis
      using assms(1) assms(2) [symmetric] assms(3) [symmetric] 1 2 3
      by (auto simp: pool_deallocate_def Let_def)
  qed
qed


lemma upt_0_8: "[0..<8] = [0, 1, 2, 3, 4, 5, 6, 7 :: nat]"
  by code_simp

lemma load_size_t_bytes:
  "load_size_t m a =
     ucast (m a) OR push_bit 8 (ucast (m (a + 1))) OR push_bit 16 (ucast (m (a + 2)))
     OR push_bit 24 (ucast (m (a + 3))) OR push_bit 32 (ucast (m (a + 4)))
     OR push_bit 40 (ucast (m (a + 5))) OR push_bit 48 (ucast (m (a + 6)))
     OR push_bit 56 (ucast (m (a + 7)))"
  by (simp add: load_size_t_def upt_0_8 or.assoc)

text \<open>
  A pool whose block 0 is marked used and whose header bytes read 2000: the call changes
  neither the memory nor the bitmap.
\<close>

theorem pool_deallocate_header_validated_witness:
  "byte_mem (pool_deallocate
      \<lparr>status_tracker = Some \<lparr>current_status = STRATEGY_STATE_ACTIVE, transition_count = 1,
                               error_count = 0\<rparr>,
       strategy_data = Some \<lparr>pool_memory = 0x10000, block_bitmap = 0x80000, bitmap_size = 16,
                              thread_count = 0, initialization_flag = 0,
                              metrics = \<lparr>blocks_used = 1, total_allocations = 1,
                                          failed_allocations = 0, concurrent_ops = 0\<rparr>\<rparr>,
       bitmap_mem = 1 # replicate 15 0,
       byte_mem = (\<lambda>a. 0)(0x10000 := 0xD0, 0x10001 := 0x07)\<rparr> 0x10008)
     = (\<lambda>a. 0)(0x10000 := 0xD0, 0x10001 := 0x07)
   \<and> bitmap_mem (pool_deallocate
      \<lparr>status_tracker = Some \<lparr>current_status = STRATEGY_STATE_ACTIVE, transition_count = 1,
                               error_count = 0\<rparr>,
       strategy_data = Some \<lparr>pool_memory = 0x10000, block_bitmap = 0x80000, bitmap_size = 16,
                              thread_count = 0, initialization_flag = 0,
                              metrics = \<lparr>blocks_used = 1, total_allocations = 1,
                                          failed_allocations = 0, concurrent_ops = 0\<rparr>\<rparr>,
       bitmap_mem = 1 # replicate 15 0,
       byte_mem = (\<lambda>a. 0)(0x10000 := 0xD0, 0x10001 := 0x07)\<rparr> 0x10008)
     = 1 # replicate 15 0"
proof -
  let ?pool = "\<lparr>pool_memory = 0x10000, block_bitmap = 0x80000, bitmap_size = 16,
                 thread_count = 0, initialization_flag = 0,
                 metrics = \<lparr>blocks_used = 1, total_allocations = 1,
                             failed_allocations = 0, concurrent_ops = 0\<rparr>\<rparr> :: MemoryPool"
  let ?s = "\<lparr>status_tracker = Some \<lparr>current_status = STRATEGY_STATE_ACTIVE, transition_count = 1,
                               error_count = 0\<rparr>,
       strategy_data = Some ?pool,
       bitmap_mem = 1 # replicate 15 0,
       byte_mem = (\<lambda>a. 0)(0x10000 := 0xD0, 0x10001 := 0x07)\<rparr> :: PoolStrategy"
  have d: "strategy_data ?s = Some ?pool" by simp
  have h: "load_size_t (byte_mem ?s) (0x10008 - POOL_METADATA_SIZE) = 2000"
    by (simp add: load_size_t_bytes POOL_METADATA_SIZE_def)
  have "load_size_t (byte_mem ?s) (0x10008 - POOL_METADATA_SIZE) = 0
        \<or> 1024 < unat ((0x10008 - POOL_METADATA_SIZE - pool_memory ?pool) div POOL_BLOCK_SIZE)
                   + unat (load_size_t (byte_mem ?s) (0x10008 - POOL_METADATA_SIZE))"
    unfolding h by (simp add: POOL_METADATA_SIZE_def POOL_BLOCK_SIZE_def)
  from pool_deallocate_header_validated [OF d refl refl this]
  show ?thesis by simp
qed

section \<open>Deallocating unknown pointers\<close>

text \<open>
  What the guards of the two deallocation paths establish.  When no valid slot of the
  ledger has address \<open>ptr\<close>, \<open>memory_stats_update_deallocation\<close> returns the ledger as it
  was: counters, slots and history.  \<open>pool_deallocate\<close> applies its range check and its
  bitmap check to the header address \<open>p - POOL_METADATA_SIZE\<close>, not to \<open>p\<close>: when that
  address lies outside the arena, or the block it falls into is not marked used, the call
  leaves the bitmap, the memory and the pool object with all its metrics as they were
  (\<open>concurrent_ops\<close> is back at its value).
\<close>

lemma deallocate_rejected_pointer_noop:
  "(list_all (\<lambda>slot. valid slot = 0 \<or> address slot \<noteq> ptr) (active_allocations st) \<longrightarrow>
      memory_stats_update_deallocation env (Some st) ptr = Some st)
   \<and> (strategy_data self = Some pool
       \<and> (\<not> is_ptr_in_pool_range (p - POOL_METADATA_SIZE) (pool_memory pool)
               (POOL_BLOCK_SIZE * POOL_BLOCK_COUNT)
          \<or> \<not> is_block_used (block_bitmap pool) (bitmap_mem self)
                ((p - POOL_METADATA_SIZE - pool_memory pool) div POOL_BLOCK_SIZE)) \<longrightarrow>
      strategy_data (pool_deallocate self p) = strategy_data self
      \<and> bitmap_mem (pool_deallocate self p) = bitmap_mem self
      \<and> byte_mem (pool_deallocate self p) = byte_mem self)"
  using update_deallocation_unknown [of ptr st env] pool_deallocate_rejected [of self pool p]
  by blast

text \<open>
  The ledger with one allocation at 0x1000 and the untracked pointer 0x2000; the full pool
  and the pointer 0x1000, which is below the arena.
\<close>

lemma deallocate_rejected_pointer_noop_example:
  "memory_stats_update_deallocation quiet_stats_env (Some (ledger_example 250)) 0x2000
     = Some (ledger_example 250)
   \<and> strategy_data (pool_deallocate full_pool_example 0x1000) = strategy_data full_pool_example
   \<and> bitmap_mem (pool_deallocate full_pool_example 0x1000) = bitmap_mem full_pool_example
   \<and> byte_mem (pool_deallocate full_pool_example 0x1000) = byte_mem full_pool_example"
proof -
  let ?pool = "\<lparr>pool_memory = 0x10000, block_bitmap = 0x80000, bitmap_size = 16,
                 thread_count = 0, initialization_flag = 0,
                 metrics = \<lparr>blocks_used = 1024, total_allocations = 1,
                             failed_allocations = 0, concurrent_ops = 0\<rparr>\<rparr> :: MemoryPool"
  have a: "list_all (\<lambda>slot. valid slot = 0 \<or> address slot \<noteq> 0x2000)
             (active_allocations (ledger_example 250))"
    by (simp add: ledger_example_def)
  have b: "strategy_data full_pool_example = Some ?pool"
    by (simp add: full_pool_example_def)
  have c: "\<not> is_ptr_in_pool_range (0x1000 - POOL_METADATA_SIZE) (pool_memory ?pool)
               (POOL_BLOCK_SIZE * POOL_BLOCK_COUNT)"
    by (simp add: is_ptr_in_pool_range_def POOL_BLOCK_SIZE_def POOL_BLOCK_COUNT_def SIZE_MAX_def
        POOL_METADATA_SIZE_def)
  from deallocate_rejected_pointer_noop
    [of "0x2000" "ledger_example 250" quiet_stats_env full_pool_example ?pool "0x1000"] a b c
  show ?thesis by blast
qed

lemma full_pool_dealloc_bitmap:
  "bitmap_mem (pool_deallocate full_pool_example 0x50000)
     = replicate 15 0xFFFFFFFFFFFFFFFF @ [0x7FFFFFFFFFFFFFFF]"
  by code_simp

lemma full_pool_dealloc_used:
  "map_option (\<lambda>pool. blocks_used (metrics pool))
     (strategy_data (pool_deallocate full_pool_example 0x50000)) = Some 1023"
  by code_simp

lemma full_pool_bytes_before:
  "map (byte_mem full_pool_example) [0x4FFF8, 0x50000, 0x500F7, 0x500F8]
     = [0x01, 0x55, 0x55, 0x55]"
  by code_simp

lemma full_pool_bytes_after:
  "map (byte_mem (pool_deallocate full_pool_example 0x50000))
       [0x4FFF8, 0x50000, 0x500F7, 0x500F8]
     = [0, 0, 0, 0x55]"
  by code_simp

lemma full_pool_pointer_accepted: "validate_deallocation full_pool_example 0x50000"
  by code_simp

text \<open>
  Claim C7 (deallocating an unknown pointer changes nothing) holds of the ledger, but
  \<open>pool_deallocate\<close> breaks it for a pointer just past the end of the arena.  The arena is
  0x10000 to 0x4FFFF, so the aligned pointer 0x50000 is outside the pool.  The range check
  is made on the header address 0x4FFF8, which is inside; block 1023 is marked used and
  the eight bytes there read 1.  The call clears bit 1023, lowers \<open>blocks_used\<close> from 1024
  to 1023, and \<open>secure_clear_memory\<close> writes 256 bytes from 0x4FFF8, of which 248
  (0x50000 to 0x500F7) lie past the arena.
\<close>

theorem pool_deallocate_past_end_overrun:
  "map_option pool_memory (strategy_data full_pool_example) = Some 0x10000
   \<and> validate_deallocation full_pool_example 0x50000
   \<and> \<not> is_ptr_in_pool_range 0x50000 0x10000 (POOL_BLOCK_SIZE * POOL_BLOCK_COUNT)
   \<and> bitmap_mem full_pool_example = replicate 16 0xFFFFFFFFFFFFFFFF
   \<and> bitmap_mem (pool_deallocate full_pool_example 0x50000)
       = replicate 15 0xFFFFFFFFFFFFFFFF @ [0x7FFFFFFFFFFFFFFF]
   \<and> map_option (\<lambda>pool. blocks_used (metrics pool)) (strategy_data full_pool_example)
       = Some 1024
   \<and> map_option (\<lambda>pool. blocks_used (metrics pool))
         (strategy_data (pool_deallocate full_pool_example 0x50000)) = Some 1023
   \<and> map (byte_mem full_pool_example) [0x4FFF8, 0x50000, 0x500F7, 0x500F8]
       = [0x01, 0x55, 0x55, 0x55]
   \<and> map (byte_mem (pool_deallocate full_pool_example 0x50000))
          [0x4FFF8, 0x50000, 0x500F7, 0x500F8]
       = [0, 0, 0, 0x55]"
proof -
  have "\<not> is_ptr_in_pool_range 0x50000 0x10000 (POOL_BLOCK_SIZE * POOL_BLOCK_COUNT)"
    by (simp add: is_ptr_in_pool_range_def POOL_BLOCK_SIZE_def POOL_BLOCK_COUNT_def SIZE_MAX_def)
  moreover have "map_option pool_memory (strategy_data full_pool_example) = Some 0x10000"
    "bitmap_mem full_pool_example = replicate 16 0xFFFFFFFFFFFFFFFF"
    "map_option (\<lambda>pool. blocks_used (metrics pool)) (strategy_data full_pool_example)
       = Some 1024"
    by (simp_all add: full_pool_example_def)
  ultimately show ?thesis
    using full_pool_dealloc_bitmap full_pool_dealloc_used full_pool_bytes_before
      full_pool_bytes_after full_pool_pointer_accepted
    by simp
qed

section \<open>Allocation size boundaries\<close>

lemma validate_size_zero: "\<not> validate_size 0"
  by (simp add: validate_size_def)

lemma validate_size_large: "SIZE_MAX div 2 < sz \<Longrightarrow> \<not> validate_size sz"
  by (simp add: validate_size_def not_le)

lemma overflowing_size_large:
  fixes sz :: size_t
  assumes "2 ^ 64 \<le> unat sz + unat POOL_METADATA_SIZE + (unat POOL_BLOCK_SIZE - 1)"
  shows "SIZE_MAX div 2 < sz"
  using assms
  by (simp add: word_less_nat_alt unat_div SIZE_MAX_def POOL_METADATA_SIZE_def
      POOL_BLOCK_SIZE_def)

lemma blocks_needed_overflow:
  fixes sz :: size_t
  assumes "2 ^ 64 \<le> unat sz + unat POOL_METADATA_SIZE + (unat POOL_BLOCK_SIZE - 1)"
  shows "blocks_needed sz = 0"
proof (cases "sz > SIZE_MAX - POOL_METADATA_SIZE")
  case True
  then show ?thesis by (simp add: blocks_needed_def)
next
  case False
  then have a: "unat sz + 8 < 2 ^ 64"
    by (simp add: word_less_nat_alt SIZE_MAX_def POOL_METADATA_SIZE_def)
  then have "unat (sz + 8) = unat sz + 8"
    by (simp add: unat_add_lem [THEN iffD1])
  then have "sz + POOL_METADATA_SIZE > SIZE_MAX - (POOL_BLOCK_SIZE - 1)"
    using assms
    by (simp add: word_less_nat_alt SIZE_MAX_def POOL_METADATA_SIZE_def POOL_BLOCK_SIZE_def)
  then show ?thesis by (simp add: blocks_needed_def Let_def)
qed

lemma pool_allocate_invalid_size:
  "\<not> validate_size sz \<Longrightarrow> pool_allocate self sz = (0, self)"
  by (simp add: pool_allocate_def validate_allocation_def)

lemma strategy_default_allocate_invalid_size:
  "\<not> validate_size sz \<Longrightarrow> fst (strategy_default_allocate malloc_result self sz) = 0"
  by (simp add: strategy_default_allocate_def validate_allocation_def)

lemma default_validate_size_imp: "default_validate_size sz \<Longrightarrow> validate_size sz"
proof -
  have "SIZE_MAX div 4 \<le> SIZE_MAX div 2"
    by (simp add: SIZE_MAX_def)
  then show "default_validate_size sz \<Longrightarrow> validate_size sz"
    by (auto simp: default_validate_size_def validate_size_def)
qed

lemma default_allocate_invalid_size:
  "\<not> validate_size sz \<Longrightarrow> fst (default_allocate malloc_result enomem now base sz) = 0"
  using default_validate_size_imp [of sz]
  by (auto simp: default_allocate_def is_valid_allocation_size_def Let_def split: option.splits)

lemma blocks_needed_capacity:
  "blocks_needed (POOL_BLOCK_COUNT * POOL_BLOCK_SIZE - POOL_METADATA_SIZE) = 1024"
  "blocks_needed (POOL_BLOCK_COUNT * POOL_BLOCK_SIZE - POOL_METADATA_SIZE + 1) = 0"
  by (simp_all add: blocks_needed_def POOL_BLOCK_COUNT_def POOL_BLOCK_SIZE_def
      POOL_METADATA_SIZE_def SIZE_MAX_def Let_def)

lemma block_free_zero_bitmap: "b < 64 * n \<Longrightarrow> block_free (replicate n 0) b"
  by (simp add: block_free_def)

lemma find_in_empty_bitmap:
  "find_contiguous_blocks (replicate 16 0) 16 1024 = Some 0"
proof -
  have run: "free_run (replicate 16 0) 0 1024"
    by (rule free_runI) (simp add: block_free_zero_bitmap)
  have "scan_result (replicate 16 0) (unat (16 :: size_t) * 64) (unat (1024 :: size_t))
          (find_contiguous_blocks (replicate 16 0) 16 1024)"
    by (rule find_contiguous_blocks_scan) simp_all
  then show ?thesis
  proof (cases "find_contiguous_blocks (replicate 16 0) 16 1024")
    case None
    with \<open>scan_result _ _ _ _\<close> run show ?thesis
      by (auto simp: scan_result_def)
  next
    case (Some r)
    with \<open>scan_result _ _ _ _\<close> run have "\<not> 0 < unat r"
      by (auto simp: scan_result_def)
    then have "r = 0" by (simp add: unat_gt_0)
    with Some show ?thesis by simp
  qed
qed


lemma metrics_ops_fields [simp]:
  "pool_memory (add_blocks_used n pool) = pool_memory pool"
  "pool_memory (add_total_allocations n pool) = pool_memory pool"
  "block_bitmap (add_blocks_used n pool) = block_bitmap pool"
  "block_bitmap (add_total_allocations n pool) = block_bitmap pool"
  "blocks_used (metrics (add_blocks_used n pool)) = blocks_used (metrics pool) + n"
  "blocks_used (metrics (add_total_allocations n pool)) = blocks_used (metrics pool)"
  "concurrent_ops (metrics (add_blocks_used n pool)) = concurrent_ops (metrics pool)"
  "concurrent_ops (metrics (add_total_allocations n pool)) = concurrent_ops (metrics pool)"
  "bitmap_size (add_blocks_used n pool) = bitmap_size pool"
  "bitmap_size (add_total_allocations n pool) = bitmap_size pool"
  by (simp_all add: add_blocks_used_def add_total_allocations_def)

lemma concurrent_ops_restored_after:
  "sub_concurrent_ops 1 (add_total_allocations 1 (add_blocks_used n (add_concurrent_ops 1 pool)))
     = add_total_allocations 1 (add_blocks_used n pool)"
  by (simp add: sub_concurrent_ops_def add_total_allocations_def add_blocks_used_def
      add_concurrent_ops_def)

lemma pool_allocate_found:
  assumes "validate_allocation self sz" and "strategy_data self = Some pool"
    and "pool_memory pool \<noteq> 0" and "block_bitmap pool \<noteq> 0"
    and "\<not> MAX_ALLOCATION_RETRIES \<le> ucast (concurrent_ops (metrics pool))"
    and "blocks_needed sz \<noteq> 0"
    and "find_contiguous_blocks (bitmap_mem self) (bitmap_size pool) (blocks_needed sz) = Some start"
    and "\<not> UINT32_MAX - blocks_needed sz < ucast (ucast (blocks_used (metrics pool)) :: 32 word)"
  shows "pool_allocate self sz =
     (pool_memory pool + start * POOL_BLOCK_SIZE + POOL_METADATA_SIZE,
      self\<lparr>strategy_data := Some (add_total_allocations 1 (add_blocks_used (blocks_needed sz) pool)),
            bitmap_mem := mark_blocks (block_bitmap pool) (bitmap_mem self) start
                            (blocks_needed sz) True,
            byte_mem := secure_clear_memory
                          (store_size_t (byte_mem self) (pool_memory pool + start * POOL_BLOCK_SIZE)
                             (blocks_needed sz))
                          (pool_memory pool + start * POOL_BLOCK_SIZE + POOL_METADATA_SIZE)
                          (blocks_needed sz * POOL_BLOCK_SIZE - POOL_METADATA_SIZE)\<rparr>)"
  using assms
  by (simp add: pool_allocate_def Let_def concurrent_ops_restored_after)

lemma pool_allocate_nonnull:
  assumes "fst (pool_allocate self sz) \<noteq> 0"
  shows "\<exists>pool start.
     validate_allocation self sz \<and> strategy_data self = Some pool
     \<and> pool_memory pool \<noteq> 0 \<and> block_bitmap pool \<noteq> 0
     \<and> \<not> MAX_ALLOCATION_RETRIES \<le> ucast (concurrent_ops (metrics pool))
     \<and> blocks_needed sz \<noteq> 0
     \<and> find_contiguous_blocks (bitmap_mem self) (bitmap_size pool) (blocks_needed sz) = Some start
     \<and> \<not> UINT32_MAX - blocks_needed sz < ucast (ucast (blocks_used (metrics pool)) :: 32 word)"
  using assms
  by (auto simp: pool_allocate_def Let_def split: if_splits option.splits)

lemma create_pool_strategy_value:
  assumes "create_pool_strategy raw arena bptr m = Some fresh"
  shows "arena \<noteq> 0 \<and> bptr \<noteq> 0
       \<and> fresh = \<lparr>status_tracker = Some \<lparr>current_status = STRATEGY_STATE_ACTIVE,
                                           transition_count = 1, error_count = 0\<rparr>,
                  strategy_data =
                    Some \<lparr>pool_memory = arena, block_bitmap = bptr, bitmap_size = 16,
                           thread_count = 0, initialization_flag = 0,
                           metrics = \<lparr>blocks_used = 0, total_allocations = 0,
                                       failed_allocations = 0, concurrent_ops = 0\<rparr>\<rparr>,
                  bitmap_mem = replicate 16 0,
                  byte_mem = secure_clear_memory m arena (POOL_BLOCK_SIZE * POOL_BLOCK_COUNT)\<rparr>"
proof -
  have i: "initialize_strategy raw
             = Some \<lparr>status_tracker = Some \<lparr>current_status = STRATEGY_STATE_ACTIVE,
                                             transition_count = 1, error_count = 0\<rparr>\<rparr>"
    by (simp add: initialize_strategy_def initialize_status_def transition_eval)
  have b: "(POOL_BLOCK_COUNT + BLOCKS_PER_BITMAP - 1) div BLOCKS_PER_BITMAP = 16"
    by (simp add: POOL_BLOCK_COUNT_def BLOCKS_PER_BITMAP_def)
  show ?thesis
    using assms by (auto simp: create_pool_strategy_def i b Let_def split: if_splits)
qed

lemma fresh_pool_capacity:
  assumes "create_pool_strategy raw arena bptr m = Some fresh"
  shows "fst (pool_allocate fresh (POOL_BLOCK_COUNT * POOL_BLOCK_SIZE - POOL_METADATA_SIZE))
           = arena + POOL_METADATA_SIZE"
    and "fst (pool_allocate fresh (POOL_BLOCK_COUNT * POOL_BLOCK_SIZE - POOL_METADATA_SIZE + 1)) = 0"
proof -
  note v = create_pool_strategy_value [OF assms]
  let ?pool = "\<lparr>pool_memory = arena, block_bitmap = bptr, bitmap_size = 16,
                 thread_count = 0, initialization_flag = 0,
                 metrics = \<lparr>blocks_used = 0, total_allocations = 0,
                             failed_allocations = 0, concurrent_ops = 0\<rparr>\<rparr> :: MemoryPool"
  have st: "validate_state fresh"
    using v by (simp add: validate_state_def get_current_status_def)
  have sd: "strategy_data fresh = Some ?pool" using v by simp
  have bm: "bitmap_mem fresh = replicate 16 0" using v by simp
  have vs: "validate_size (POOL_BLOCK_COUNT * POOL_BLOCK_SIZE - POOL_METADATA_SIZE)"
    "validate_size (POOL_BLOCK_COUNT * POOL_BLOCK_SIZE - POOL_METADATA_SIZE + 1)"
    by (simp_all add: validate_size_def POOL_BLOCK_COUNT_def POOL_BLOCK_SIZE_def
        POOL_METADATA_SIZE_def SIZE_MAX_def)
  have "pool_allocate fresh (POOL_BLOCK_COUNT * POOL_BLOCK_SIZE - POOL_METADATA_SIZE) =
     (pool_memory ?pool + 0 * POOL_BLOCK_SIZE + POOL_METADATA_SIZE,
      fresh\<lparr>strategy_data := Some (add_total_allocations 1 (add_blocks_used
               (blocks_needed (POOL_BLOCK_COUNT * POOL_BLOCK_SIZE - POOL_METADATA_SIZE)) ?pool)),
            bitmap_mem := mark_blocks (block_bitmap ?pool) (bitmap_mem fresh) 0
                            (blocks_needed (POOL_BLOCK_COUNT * POOL_BLOCK_SIZE - POOL_METADATA_SIZE)) True,
            byte_mem := secure_clear_memory
                          (store_size_t (byte_mem fresh) (pool_memory ?pool + 0 * POOL_BLOCK_SIZE)
                             (blocks_needed (POOL_BLOCK_COUNT * POOL_BLOCK_SIZE - POOL_METADATA_SIZE)))
                          (pool_memory ?pool + 0 * POOL_BLOCK_SIZE + POOL_METADATA_SIZE)
                          (blocks_needed (POOL_BLOCK_COUNT * POOL_BLOCK_SIZE - POOL_METADATA_SIZE)
                             * POOL_BLOCK_SIZE - POOL_METADATA_SIZE)\<rparr>)"
  proof (rule pool_allocate_found [OF _ sd])
    show "validate_allocation fresh (POOL_BLOCK_COUNT * POOL_BLOCK_SIZE - POOL_METADATA_SIZE)"
      using st vs by (simp add: validate_allocation_def)
    show "pool_memory ?pool \<noteq> 0" "block_bitmap ?pool \<noteq> 0" using v by simp_all
    show "\<not> MAX_ALLOCATION_RETRIES \<le> ucast (concurrent_ops (metrics ?pool))"
      by (simp add: MAX_ALLOCATION_RETRIES_def)
    show "blocks_needed (POOL_BLOCK_COUNT * POOL_BLOCK_SIZE - POOL_METADATA_SIZE) \<noteq> 0"
      by (simp add: blocks_needed_capacity)
    show "find_contiguous_blocks (bitmap_mem fresh) (bitmap_size ?pool)
            (blocks_needed (POOL_BLOCK_COUNT * POOL_BLOCK_SIZE - POOL_METADATA_SIZE)) = Some 0"
      by (simp add: bm blocks_needed_capacity find_in_empty_bitmap)
    show "\<not> UINT32_MAX - blocks_needed (POOL_BLOCK_COUNT * POOL_BLOCK_SIZE - POOL_METADATA_SIZE)
            < ucast (ucast (blocks_used (metrics ?pool)) :: 32 word)"
      by (simp add: blocks_needed_capacity UINT32_MAX_def)
  qed
  then show "fst (pool_allocate fresh (POOL_BLOCK_COUNT * POOL_BLOCK_SIZE - POOL_METADATA_SIZE))
           = arena + POOL_METADATA_SIZE"
    by simp
  show "fst (pool_allocate fresh (POOL_BLOCK_COUNT * POOL_BLOCK_SIZE - POOL_METADATA_SIZE + 1)) = 0"
    using pool_allocate_nonnull
      [of fresh "POOL_BLOCK_COUNT * POOL_BLOCK_SIZE - POOL_METADATA_SIZE + 1"]
    by (auto simp: blocks_needed_capacity)
qed


lemma create_pool_strategy_succeeds:
  assumes "arena \<noteq> 0" "bptr \<noteq> 0"
  shows "\<exists>fresh. create_pool_strategy raw arena bptr m = Some fresh"
proof -
  have i: "initialize_strategy raw
             = Some \<lparr>status_tracker = Some \<lparr>current_status = STRATEGY_STATE_ACTIVE,
                                             transition_count = 1, error_count = 0\<rparr>\<rparr>"
    by (simp add: initialize_strategy_def initialize_status_def transition_eval)
  show ?thesis using assms by (simp add: create_pool_strategy_def i Let_def)
qed

lemma size_max_overflows:
  "2 ^ 64 \<le> unat SIZE_MAX + unat POOL_METADATA_SIZE + (unat POOL_BLOCK_SIZE - 1)"
  by (simp add: SIZE_MAX_def POOL_METADATA_SIZE_def POOL_BLOCK_SIZE_def)

lemma arena_user_ptr_nonnull:
  fixes arena :: uintptr_t
  assumes "arena \<noteq> 0" "unat arena + unat (POOL_BLOCK_SIZE * POOL_BLOCK_COUNT) \<le> 2 ^ 64"
  shows "arena + POOL_METADATA_SIZE \<noteq> 0"
proof -
  have "unat arena + 8 < 2 ^ 64"
    using assms(2) by (simp add: POOL_BLOCK_SIZE_def POOL_BLOCK_COUNT_def)
  then have "unat (arena + 8) = unat arena + 8"
    by (simp add: unat_add_lem [THEN iffD1])
  then have "unat (arena + 8) \<noteq> 0" by simp
  then show ?thesis unfolding POOL_METADATA_SIZE_def by (metis unat_0)
qed

text \<open>
  Claim C4 (allocation size boundaries).  The three allocators (the pool, the interface's
  default and the DefaultStrategy) return null for size 0 and for \<open>SIZE_MAX\<close>, whatever
  the state of the strategy.  For a size at which \<open>size + POOL_METADATA_SIZE +
  (POOL_BLOCK_SIZE - 1)\<close> leaves the range of \<open>size_t\<close>, \<open>blocks_needed\<close> is 0 and the pool
  returns null.  On a freshly created pool whose arena lies inside the address space, an
  allocation of \<open>POOL_BLOCK_COUNT * POOL_BLOCK_SIZE - POOL_METADATA_SIZE\<close> bytes returns
  the pointer to the first payload byte, which is not null, and an allocation of one
  byte more returns null.
\<close>

theorem allocation_size_boundaries:
  "fst (pool_allocate self 0) = 0
   \<and> fst (strategy_default_allocate malloc_result strategy 0) = 0
   \<and> fst (default_allocate malloc_result enomem now base 0) = 0
   \<and> fst (pool_allocate self SIZE_MAX) = 0
   \<and> fst (strategy_default_allocate malloc_result strategy SIZE_MAX) = 0
   \<and> fst (default_allocate malloc_result enomem now base SIZE_MAX) = 0
   \<and> (2 ^ 64 \<le> unat sz + unat POOL_METADATA_SIZE + (unat POOL_BLOCK_SIZE - 1) \<longrightarrow>
        blocks_needed sz = 0 \<and> fst (pool_allocate self sz) = 0)
   \<and> (create_pool_strategy raw arena bptr m = Some fresh
       \<and> unat arena + unat (POOL_BLOCK_SIZE * POOL_BLOCK_COUNT) \<le> 2 ^ 64 \<longrightarrow>
        fst (pool_allocate fresh (POOL_BLOCK_COUNT * POOL_BLOCK_SIZE - POOL_METADATA_SIZE))
          = arena + POOL_METADATA_SIZE
        \<and> arena + POOL_METADATA_SIZE \<noteq> 0
        \<and> fst (pool_allocate fresh (POOL_BLOCK_COUNT * POOL_BLOCK_SIZE - POOL_METADATA_SIZE + 1))
            = 0)"
proof -
  have big: "\<not> validate_size SIZE_MAX"
    by (rule validate_size_large [OF overflowing_size_large [OF size_max_overflows]])
  have ov: "blocks_needed sz = 0 \<and> fst (pool_allocate self sz) = 0"
    if "2 ^ 64 \<le> unat sz + unat POOL_METADATA_SIZE + (unat POOL_BLOCK_SIZE - 1)"
    using blocks_needed_overflow [OF that]
      pool_allocate_invalid_size [OF validate_size_large [OF overflowing_size_large [OF that]]]
    by simp
  have fr: "fst (pool_allocate fresh (POOL_BLOCK_COUNT * POOL_BLOCK_SIZE - POOL_METADATA_SIZE))
          = arena + POOL_METADATA_SIZE
        \<and> arena + POOL_METADATA_SIZE \<noteq> 0
        \<and> fst (pool_allocate fresh (POOL_BLOCK_COUNT * POOL_BLOCK_SIZE - POOL_METADATA_SIZE + 1))
            = 0"
    if c: "create_pool_strategy raw arena bptr m = Some fresh"
      and a: "unat arena + unat (POOL_BLOCK_SIZE * POOL_BLOCK_COUNT) \<le> 2 ^ 64"
    using fresh_pool_capacity [OF c] create_pool_strategy_value [OF c]
      arena_user_ptr_nonnull [OF _ a]
    by blast
  show ?thesis
    using pool_allocate_invalid_size [OF validate_size_zero, of self]
      pool_allocate_invalid_size [OF big, of self]
      strategy_default_allocate_invalid_size [OF validate_size_zero, of malloc_result strategy]
      strategy_default_allocate_invalid_size [OF big, of malloc_result strategy]
      default_allocate_invalid_size [OF validate_size_zero, of malloc_result enomem now base]
      default_allocate_invalid_size [OF big, of malloc_result enomem now base]
      ov fr
    by simp
qed

text \<open>
  The size \<open>SIZE_MAX - 5\<close> overflows the block computation; a pool created at address
  0x10000 serves its full capacity at 0x10008 and refuses one byte more.
\<close>

theorem allocation_size_boundaries_witness:
  "blocks_needed (SIZE_MAX - 5) = 0
   \<and> fst (pool_allocate full_pool_example (SIZE_MAX - 5)) = 0
   \<and> (\<exists>fresh. create_pool_strategy
                  \<lparr>current_status = 7, transition_count = 9, error_count = 9\<rparr>
                  0x10000 0x80000 (\<lambda>a. 0) = Some fresh
        \<and> fst (pool_allocate fresh (POOL_BLOCK_COUNT * POOL_BLOCK_SIZE - POOL_METADATA_SIZE))
            = 0x10008
        \<and> fst (pool_allocate fresh (POOL_BLOCK_COUNT * POOL_BLOCK_SIZE - POOL_METADATA_SIZE + 1))
            = 0)"
proof -
  let ?raw = "\<lparr>current_status = 7, transition_count = 9, error_count = 9\<rparr> :: StatusTracker"
  have o: "2 ^ 64 \<le> unat (SIZE_MAX - 5) + unat POOL_METADATA_SIZE + (unat POOL_BLOCK_SIZE - 1)"
    by (simp add: SIZE_MAX_def POOL_METADATA_SIZE_def POOL_BLOCK_SIZE_def)
  obtain fresh where
    c: "create_pool_strategy ?raw 0x10000 0x80000 (\<lambda>a. 0) = Some fresh"
    using create_pool_strategy_succeeds [of "0x10000" "0x80000" ?raw "\<lambda>a. 0"] by auto
  have a: "unat (0x10000 :: uintptr_t) + unat (POOL_BLOCK_SIZE * POOL_BLOCK_COUNT) \<le> 2 ^ 64"
    by (simp add: POOL_BLOCK_SIZE_def POOL_BLOCK_COUNT_def)
  note t = allocation_size_boundaries
    [of full_pool_example 0 "\<lparr>status_tracker = None\<rparr>" False 0 None "SIZE_MAX - 5"
        ?raw "0x10000" "0x80000" "\<lambda>a. 0" fresh]
  from t o have 1: "blocks_needed (SIZE_MAX - 5) = 0
      \<and> fst (pool_allocate full_pool_example (SIZE_MAX - 5)) = 0"
    by blast
  from t c a have 2: "fst (pool_allocate fresh (POOL_BLOCK_COUNT * POOL_BLOCK_SIZE - POOL_METADATA_SIZE))
          = 0x10000 + POOL_METADATA_SIZE
      \<and> fst (pool_allocate fresh (POOL_BLOCK_COUNT * POOL_BLOCK_SIZE - POOL_METADATA_SIZE + 1)) = 0"
    by blast
  have 3: "(0x10000 :: uintptr_t) + POOL_METADATA_SIZE = 0x10008"
    by (simp add: POOL_METADATA_SIZE_def)
  from 1 2 3 c show ?thesis by auto
qed

section \<open>The allocate and deallocate round trip of the pool\<close>

lemma unat_block_offset:
  fixes start :: size_t
  assumes "unat start + i < 1024"
  shows "unat (start + of_nat i) = unat start + i"
proof -
  have "unat (of_nat i :: size_t) = i"
    using assms by (simp add: unat_of_nat)
  moreover have "unat start + i < 2 ^ 64" using assms by simp
  ultimately show ?thesis
    by (simp add: unat_add_lem [THEN iffD1])
qed

lemma mark_step_length [simp]: "length (mark_step start used i bm) = length bm"
  by (simp add: mark_step_def Let_def)

lemma bit_or_push:
  "bit ((x :: 64 word) OR push_bit k 1) j \<longleftrightarrow> bit x j \<or> (j = k \<and> k < 64)"
  by (auto simp: bit_simps)

lemma bit_and_not_push:
  "bit ((x :: 64 word) AND NOT (push_bit k 1)) j \<longleftrightarrow> bit x j \<and> j \<noteq> k"
  by (auto simp: bit_simps dest: bit_imp_le_length)

lemma mark_step_free:
  assumes "length bm = 16" "unat start + i < 1024" "b < 1024"
  shows "block_free (mark_step start used i bm) b
           = (if b = unat start + i then \<not> used else block_free bm b)"
proof -
  let ?k = "unat start + i"
  have u: "unat (start + of_nat i) = ?k" using assms(2) by (rule unat_block_offset)
  have w: "unat ((start + of_nat i) div BLOCKS_PER_BITMAP) = ?k div 64"
    and j: "unat ((start + of_nat i) mod BLOCKS_PER_BITMAP) = ?k mod 64"
    by (simp_all add: unat_div unat_mod u BLOCKS_PER_BITMAP_def)
  have wl: "?k div 64 < length bm" "b div 64 < length bm"
    using assms by simp_all
  have eq: "b = ?k \<longleftrightarrow> b div 64 = ?k div 64 \<and> b mod 64 = ?k mod 64"
    by (metis div_mult_mod_eq)
  have pb: "b mod 64 < 64" by simp
  show ?thesis
  proof (cases used)
    case True
    then show ?thesis
      using wl eq
      by (auto simp: mark_step_def Let_def w j block_free_def nth_list_update bit_or_push
          simp del: push_bit_of_1)
  next
    case False
    then show ?thesis
      using wl eq
      by (auto simp: mark_step_def Let_def w j block_free_def nth_list_update bit_and_not_push
          simp del: push_bit_of_1)
  qed
qed

lemma mark_fold_free:
  assumes "length bm = 16" "unat start + n \<le> 1024" "b < 1024"
  shows "length (fold (mark_step start used) [0..<n] bm) = 16
       \<and> block_free (fold (mark_step start used) [0..<n] bm) b
           = (if unat start \<le> b \<and> b < unat start + n then \<not> used else block_free bm b)"
  using assms(2)
proof (induction n)
  case 0
  then show ?case using assms(1) by auto
next
  case (Suc n)
  then have ih: "length (fold (mark_step start used) [0..<n] bm) = 16"
    "block_free (fold (mark_step start used) [0..<n] bm) b
       = (if unat start \<le> b \<and> b < unat start + n then \<not> used else block_free bm b)"
    by simp_all
  have lt: "unat start + n < 1024" using Suc.prems by simp
  show ?case
    using mark_step_free [OF ih(1) lt assms(3), of used] ih
    by (auto simp: less_Suc_eq)
qed


lemma mark_blocks_free:
  fixes start n :: size_t
  assumes "bptr \<noteq> 0" "length bm = 16" "n \<noteq> 0" "unat start + unat n \<le> 1024" "b < 1024"
  shows "length (mark_blocks bptr bm start n used) = 16"
    and "block_free (mark_blocks bptr bm start n used) b
           = (if unat start \<le> b \<and> b < unat start + unat n then \<not> used else block_free bm b)"
proof -
  have np: "0 < unat n" using assms(3) by (simp add: unat_gt_0)
  have s: "\<not> POOL_BLOCK_COUNT \<le> start" "\<not> POOL_BLOCK_COUNT < n"
    using assms(4) np by (simp_all add: word_le_nat_alt word_less_nat_alt POOL_BLOCK_COUNT_def)
  have "unat (start + n) = unat start + unat n"
    using assms(4) by (simp add: unat_add_lem [THEN iffD1])
  then have t: "\<not> POOL_BLOCK_COUNT < start + n"
    using assms(4) by (simp add: word_less_nat_alt POOL_BLOCK_COUNT_def)
  have m: "mark_blocks bptr bm start n used = fold (mark_step start used) [0..<unat n] bm"
    using assms(1,3) s t by (simp add: mark_blocks_def)
  from mark_fold_free [OF assms(2,4,5), of used]
  show "length (mark_blocks bptr bm start n used) = 16"
    and "block_free (mark_blocks bptr bm start n used) b
           = (if unat start \<le> b \<and> b < unat start + unat n then \<not> used else block_free bm b)"
    unfolding m by simp_all
qed

lemma bitmap_eqI:
  assumes "length a = 16" "length b = 16"
    and "\<And>k. k < 1024 \<Longrightarrow> block_free a k = block_free b k"
  shows "a = b"
proof (rule nth_equalityI)
  show "length a = length b" using assms by simp
next
  fix w assume "w < length a"
  then have w: "w < 16" using assms(1) by simp
  show "a ! w = b ! w"
  proof (rule bit_word_eqI)
    fix j assume "j < LENGTH(64)"
    then have j: "j < 64" by simp
    have "w * 64 + j < 1024" using w j by simp
    from assms(3) [OF this] show "bit (a ! w) j = bit (b ! w) j"
      using j by (simp add: block_free_def)
  qed
qed

lemma mark_round_trip:
  fixes start n :: size_t
  assumes "bptr \<noteq> 0" "length bm = 16" "n \<noteq> 0" "unat start + unat n \<le> 1024"
    and "free_run bm (unat start) (unat n)"
  shows "mark_blocks bptr (mark_blocks bptr bm start n True) start n False = bm"
proof (rule bitmap_eqI)
  let ?bm1 = "mark_blocks bptr bm start n True"
  have l1: "length ?bm1 = 16"
    using mark_blocks_free(1) [OF assms(1-4), of 0] by simp
  show "length (mark_blocks bptr ?bm1 start n False) = 16"
    using mark_blocks_free(1) [OF assms(1) l1 assms(3,4), of 0] by simp
  show "length bm = 16" by fact
  fix k :: nat assume k: "k < 1024"
  show "block_free (mark_blocks bptr ?bm1 start n False) k = block_free bm k"
    using mark_blocks_free(2) [OF assms(1) l1 assms(3,4) k, of False]
      mark_blocks_free(2) [OF assms(1,2,3,4) k, of True]
      free_run_block [OF assms(5), of k]
    by auto
qed


lemma clear_fold_outside:
  fixes x p :: uintptr_t
  assumes "n \<le> unat (x - p)"
  shows "fold (\<lambda>i m'. m'(p + of_nat i := 0)) [0..<n] m x = m x"
  using assms
proof (induction n)
  case 0
  then show ?case by simp
next
  case (Suc n)
  have "x \<noteq> p + of_nat n"
  proof
    assume "x = p + of_nat n"
    then have "x - p = of_nat n" by simp
    then have "unat (x - p) \<le> n"
      by (simp add: unat_of_nat)
    with Suc.prems show False by simp
  qed
  with Suc show ?case by simp
qed

lemma secure_clear_outside:
  "unat sz \<le> unat (x - p) \<Longrightarrow> secure_clear_memory m p sz x = m x"
  by (simp add: secure_clear_memory_def clear_fold_outside)

lemma store_size_t_bytes:
  "store_size_t m a v =
     m(a := ucast v, a + 1 := ucast (drop_bit 8 v), a + 2 := ucast (drop_bit 16 v),
       a + 3 := ucast (drop_bit 24 v), a + 4 := ucast (drop_bit 32 v),
       a + 5 := ucast (drop_bit 40 v), a + 6 := ucast (drop_bit 48 v),
       a + 7 := ucast (drop_bit 56 v))"
  by (simp add: store_size_t_def upt_0_8)

lemma byte_at:
  fixes v :: size_t
  shows "bit (push_bit k (ucast (ucast (drop_bit k v) :: 8 word)) :: 64 word) j
     \<longleftrightarrow> k \<le> j \<and> j < k + 8 \<and> j < 64 \<and> bit v j"
  by (auto simp: bit_simps)

lemma bytes_to_size_t_aux:
  fixes v :: size_t
  shows "push_bit 0 (ucast (ucast (drop_bit 0 v) :: 8 word))
     OR push_bit 8 (ucast (ucast (drop_bit 8 v) :: 8 word))
     OR push_bit 16 (ucast (ucast (drop_bit 16 v) :: 8 word))
     OR push_bit 24 (ucast (ucast (drop_bit 24 v) :: 8 word))
     OR push_bit 32 (ucast (ucast (drop_bit 32 v) :: 8 word))
     OR push_bit 40 (ucast (ucast (drop_bit 40 v) :: 8 word))
     OR push_bit 48 (ucast (ucast (drop_bit 48 v) :: 8 word))
     OR push_bit 56 (ucast (ucast (drop_bit 56 v) :: 8 word)) = v"
proof (rule bit_word_eqI)
  fix j assume "j < LENGTH(64)"
  then have j: "j < 64" by simp
  have "j < 8 \<or> (8 \<le> j \<and> j < 16) \<or> (16 \<le> j \<and> j < 24) \<or> (24 \<le> j \<and> j < 32)
      \<or> (32 \<le> j \<and> j < 40) \<or> (40 \<le> j \<and> j < 48) \<or> (48 \<le> j \<and> j < 56) \<or> (56 \<le> j \<and> j < 64)"
    using j by arith
  then show "bit ((push_bit 0 (ucast (ucast (drop_bit 0 v) :: 8 word)) :: 64 word)
     OR push_bit 8 (ucast (ucast (drop_bit 8 v) :: 8 word))
     OR push_bit 16 (ucast (ucast (drop_bit 16 v) :: 8 word))
     OR push_bit 24 (ucast (ucast (drop_bit 24 v) :: 8 word))
     OR push_bit 32 (ucast (ucast (drop_bit 32 v) :: 8 word))
     OR push_bit 40 (ucast (ucast (drop_bit 40 v) :: 8 word))
     OR push_bit 48 (ucast (ucast (drop_bit 48 v) :: 8 word))
     OR push_bit 56 (ucast (ucast (drop_bit 56 v) :: 8 word))) j = bit v j"
    unfolding bit_or_iff byte_at by (elim disjE) simp_all
qed

lemma load_store_size_t: "load_size_t (store_size_t m a v) a = v"
  unfolding load_size_t_bytes store_size_t_bytes
  using bytes_to_size_t_aux [of v] by simp

lemma load_size_t_cong:
  "(\<And>i. i < 8 \<Longrightarrow> m (a + of_nat i) = m' (a + of_nat i)) \<Longrightarrow> load_size_t m a = load_size_t m' a"
proof -
  assume e: "\<And>i. i < 8 \<Longrightarrow> m (a + of_nat i) = m' (a + of_nat i)"
  from e [of 0] e [of 1] e [of 2] e [of 3] e [of 4] e [of 5] e [of 6] e [of 7]
  show ?thesis unfolding load_size_t_bytes by simp
qed

lemma header_survives_clear:
  fixes sz :: size_t
  assumes "unat sz \<le> 2 ^ 64 - 8"
  shows "load_size_t (secure_clear_memory (store_size_t m a v) (a + POOL_METADATA_SIZE) sz) a = v"
proof -
  have "load_size_t (secure_clear_memory (store_size_t m a v) (a + POOL_METADATA_SIZE) sz) a
          = load_size_t (store_size_t m a v) a"
  proof (rule load_size_t_cong)
    fix i :: nat assume i: "i < 8"
    have "a + of_nat i - (a + POOL_METADATA_SIZE) = of_nat i - 8"
      by (simp add: POOL_METADATA_SIZE_def)
    moreover have "unat (of_nat i - 8 :: size_t) = 2 ^ 64 - 8 + i"
    proof -
      have u: "unat (of_nat i :: size_t) = i" using i by (simp add: unat_of_nat)
      then have "unat (of_nat i :: size_t) < unat (8 :: size_t)" using i by simp
      then show ?thesis
        using u by (simp add: unat_sub_if_size word_size)
    qed
    ultimately have "unat sz \<le> unat (a + of_nat i - (a + POOL_METADATA_SIZE))"
      using assms by simp
    then show "secure_clear_memory (store_size_t m a v) (a + POOL_METADATA_SIZE) sz (a + of_nat i)
                 = store_size_t m a v (a + of_nat i)"
      by (rule secure_clear_outside)
  qed
  then show ?thesis by (simp add: load_store_size_t)
qed


lemma concurrent_ops_restored_freed:
  "sub_concurrent_ops 1 (sub_blocks_used n (add_concurrent_ops 1 pool)) = sub_blocks_used n pool"
  by (simp add: sub_concurrent_ops_def sub_blocks_used_def add_concurrent_ops_def)

lemma pool_deallocate_freed:
  assumes "validate_deallocation self ptr" and "strategy_data self = Some pool"
    and "pool_memory pool \<noteq> 0" and "block_bitmap pool \<noteq> 0"
    and "\<not> MAX_ALLOCATION_RETRIES \<le> ucast (concurrent_ops (metrics pool))"
    and "is_ptr_in_pool_range (ptr - POOL_METADATA_SIZE) (pool_memory pool)
           (POOL_BLOCK_SIZE * POOL_BLOCK_COUNT)"
    and "block_index = (ptr - POOL_METADATA_SIZE - pool_memory pool) div POOL_BLOCK_SIZE"
    and "is_block_used (block_bitmap pool) (bitmap_mem self) block_index"
    and "num_blocks = load_size_t (byte_mem self) (ptr - POOL_METADATA_SIZE)"
    and "num_blocks \<noteq> 0" and "\<not> POOL_BLOCK_COUNT < block_index + num_blocks"
  shows "pool_deallocate self ptr =
     self\<lparr>strategy_data :=
             Some (if num_blocks \<le> ucast (ucast (blocks_used (metrics pool)) :: 32 word)
                   then sub_blocks_used num_blocks pool else pool),
           bitmap_mem := mark_blocks (block_bitmap pool) (bitmap_mem self) block_index
                           num_blocks False,
           byte_mem := secure_clear_memory (byte_mem self) (ptr - POOL_METADATA_SIZE)
                         (num_blocks * POOL_BLOCK_SIZE)\<rparr>"
  using assms(1-6) assms(8) [unfolded assms(7)] assms(10,11) [unfolded assms(7,9)]
  unfolding assms(7,9)
  by (simp add: pool_deallocate_def Let_def concurrent_ops_restored_freed)

lemma is_block_used_free:
  fixes b :: size_t
  assumes "bptr \<noteq> 0" "b < POOL_BLOCK_COUNT"
  shows "is_block_used bptr bm b = (\<not> block_free bm (unat b))"
proof -
  have "\<not> POOL_BLOCK_COUNT \<le> b" using assms(2) by simp
  then show ?thesis
    using assms(1)
    by (simp add: is_block_used_def Let_def block_free_def bit_iff_and_push_bit_not_eq_0
        unat_div unat_mod BLOCKS_PER_BITMAP_def del: push_bit_of_1)
qed

lemma block_address:
  fixes base start :: size_t
  assumes "unat base + 262144 < 2 ^ 64" "unat start < 1024"
  shows "unat (start * POOL_BLOCK_SIZE) = unat start * 256"
    and "unat (base + start * POOL_BLOCK_SIZE) = unat base + unat start * 256"
    and "unat (base + start * POOL_BLOCK_SIZE + POOL_METADATA_SIZE)
           = unat base + unat start * 256 + 8"
proof -
  have "unat (start * 256) = (unat start * 256) mod 2 ^ 64"
    by (simp add: unat_word_ariths)
  then show 1: "unat (start * POOL_BLOCK_SIZE) = unat start * 256"
    using assms(2) by (simp add: POOL_BLOCK_SIZE_def)
  have "unat base + unat (start * POOL_BLOCK_SIZE) < 2 ^ 64"
    using assms 1 by simp
  then show 2: "unat (base + start * POOL_BLOCK_SIZE) = unat base + unat start * 256"
    using 1 by (simp add: unat_add_lem [THEN iffD1])
  have "unat (base + start * POOL_BLOCK_SIZE) + unat (8 :: size_t) < 2 ^ 64"
    using assms 2 by simp
  then show "unat (base + start * POOL_BLOCK_SIZE + POOL_METADATA_SIZE)
           = unat base + unat start * 256 + 8"
    using 2 by (simp add: unat_add_lem [THEN iffD1] POOL_METADATA_SIZE_def)
qed

lemma block_start_in_range:
  fixes base start :: size_t
  assumes "unat base + 262144 < 2 ^ 64" "unat start < 1024"
  shows "is_ptr_in_pool_range (base + start * POOL_BLOCK_SIZE) base
           (POOL_BLOCK_SIZE * POOL_BLOCK_COUNT)"
proof -
  have ps: "POOL_BLOCK_SIZE * POOL_BLOCK_COUNT = (262144 :: size_t)"
    by (simp add: POOL_BLOCK_SIZE_def POOL_BLOCK_COUNT_def)
  have bl: "unat base < 2 ^ 64 - 262144" using assms(1) by simp
  have a: "\<not> SIZE_MAX - base < 262144"
  proof -
    have "unat (SIZE_MAX - base) = 2 ^ 64 - 1 - unat base"
      by (simp add: unat_sub_if_size SIZE_MAX_def word_size)
         (use unsigned_less [of base, where ?'a = nat] in simp)
    then show ?thesis using bl by (simp add: word_less_nat_alt)
  qed
  have e: "unat (base + 262144) = unat base + 262144"
    using assms(1) by (simp add: unat_add_lem [THEN iffD1])
  note b = block_address(2) [OF assms]
  show ?thesis
    unfolding is_ptr_in_pool_range_def ps Let_def
    using a e b assms(2) by (simp add: word_le_nat_alt word_less_nat_alt)
qed

lemma block_index_of_start:
  fixes base start :: size_t
  assumes "unat start < 1024"
  shows "(base + start * POOL_BLOCK_SIZE - base) div POOL_BLOCK_SIZE = start"
proof -
  have "unat (start * 256) = (unat start * 256) mod 2 ^ 64"
    by (simp add: unat_word_ariths)
  then have "unat (start * 256) = unat start * 256"
    using assms by simp
  then have "unat (start * 256 div 256) = unat start"
    by (simp add: unat_div)
  then have "start * 256 div 256 = start"
    by (simp add: word_unat_eq_iff)
  then show ?thesis by (simp add: POOL_BLOCK_SIZE_def)
qed

lemma user_ptr_valid:
  fixes base start :: size_t
  assumes "unat base + 262144 < 2 ^ 64" "unat start < 1024" "base mod 8 = 0"
  shows "validate_pointer (base + start * POOL_BLOCK_SIZE + POOL_METADATA_SIZE)"
proof -
  note u = block_address(3) [OF assms(1,2)]
  have "unat (base mod 8) = 0" using assms(3) by simp
  then have b8: "unat base mod 8 = 0" by (simp add: unat_mod)
  have "(unat base + unat start * 256 + 8) mod 8 = 0"
    using b8 by presburger
  then have "unat ((base + start * POOL_BLOCK_SIZE + POOL_METADATA_SIZE) mod 8) = 0"
    using u by (simp add: unat_mod)
  then have "(base + start * POOL_BLOCK_SIZE + POOL_METADATA_SIZE) mod 8 = 0"
    by (simp add: unat_eq_0)
  moreover have "base + start * POOL_BLOCK_SIZE + POOL_METADATA_SIZE \<noteq> 0"
    using u by (metis add_is_0 unat_0 zero_neq_numeral)
  ultimately show ?thesis by (simp add: validate_pointer_def)
qed


lemma blocks_needed_le: "unat (blocks_needed sz) \<le> 1024"
  by (auto simp: blocks_needed_def Let_def word_less_nat_alt word_le_nat_alt POOL_BLOCK_COUNT_def)

lemma unat_ucast_32:
  "unat (ucast (ucast (x :: 64 word) :: 32 word) :: 64 word) = unat x mod 2 ^ 32"
  by (simp add: unsigned_ucast_eq unsigned_take_bit_eq take_bit_eq_mod unat_mod)

lemma validate_state_heap [simp]:
  "validate_state (self\<lparr>strategy_data := a, bitmap_mem := b, byte_mem := c\<rparr>)
     = validate_state self"
  by (simp add: validate_state_def)

lemma blocks_used_after_allocation:
  fixes bu n :: "64 word"
  assumes "\<not> UINT32_MAX - n < ucast (ucast bu :: 32 word)" "unat n \<le> 1024"
  shows "n \<le> ucast (ucast (bu + n) :: 32 word)"
proof -
  have "unat (UINT32_MAX - n) = 2 ^ 32 - 1 - unat n"
    using assms(2) by (simp add: unat_sub_if_size UINT32_MAX_def)
  then have t: "unat bu mod 2 ^ 32 + unat n \<le> 2 ^ 32 - 1"
    using assms by (simp add: word_less_nat_alt unat_ucast_32)
  have "unat (bu + n) mod 2 ^ 32 = (unat bu + unat n) mod 2 ^ 64 mod 2 ^ 32"
    by (simp add: unat_word_ariths)
  also have "\<dots> = (unat bu + unat n) mod 2 ^ 32"
    by (rule mod_mod_cancel) simp
  also have "\<dots> = (unat bu mod 2 ^ 32 + unat n) mod 2 ^ 32"
    by (simp add: mod_add_left_eq)
  also have "\<dots> = unat bu mod 2 ^ 32 + unat n"
    using t by simp
  finally show ?thesis
    by (simp add: word_le_nat_alt unat_ucast_32)
qed

text \<open>
  Claim C2 (bitmap and header round trip).  On a well-formed pool, when \<open>pool_allocate\<close>
  returns a pointer \<open>p\<close> that is not null, \<open>pool_deallocate\<close> of \<open>p\<close> on the resulting
  pool gives back the bitmap and the \<open>blocks_used\<close> metric of before the allocation.  In
  between, the \<open>size_t\<close> stored \<open>POOL_METADATA_SIZE\<close> bytes before \<open>p\<close> is
  \<open>blocks_needed size\<close>, and the blocks the allocation turned from free to used are
  exactly that many contiguous blocks.
\<close>

theorem pool_allocate_deallocate_round_trip:
  assumes "pool_wf self" and "pool_allocate self sz = (p, self1)" and "p \<noteq> 0"
  shows "bitmap_mem (pool_deallocate self1 p) = bitmap_mem self
       \<and> map_option (\<lambda>pool. blocks_used (metrics pool)) (strategy_data (pool_deallocate self1 p))
           = map_option (\<lambda>pool. blocks_used (metrics pool)) (strategy_data self)
       \<and> load_size_t (byte_mem self1) (p - POOL_METADATA_SIZE) = blocks_needed sz
       \<and> (\<exists>start. {b. b < 1024 \<and> block_free (bitmap_mem self) b
                          \<and> \<not> block_free (bitmap_mem self1) b}
                   = {start ..< start + unat (load_size_t (byte_mem self1)
                                                (p - POOL_METADATA_SIZE))})"
proof -
  from assms(2,3) have "fst (pool_allocate self sz) \<noteq> 0" by simp
  from pool_allocate_nonnull [OF this] obtain pool start where
    va: "validate_allocation self sz" and sd: "strategy_data self = Some pool"
    and pm: "pool_memory pool \<noteq> 0" and bb: "block_bitmap pool \<noteq> 0"
    and co: "\<not> MAX_ALLOCATION_RETRIES \<le> ucast (concurrent_ops (metrics pool))"
    and n0: "blocks_needed sz \<noteq> 0"
    and fi: "find_contiguous_blocks (bitmap_mem self) (bitmap_size pool) (blocks_needed sz)
               = Some start"
    and u32: "\<not> UINT32_MAX - blocks_needed sz
                < ucast (ucast (blocks_used (metrics pool)) :: 32 word)"
    by blast
  define n where "n = blocks_needed sz"
  define base where "base = pool_memory pool"
  from assms(1) sd have bs: "bitmap_size pool = 16" and len: "length (bitmap_mem self) = 16"
    and al: "base mod 8 = 0" and fit: "unat base + 262144 < 2 ^ 64"
    by (simp_all add: pool_wf_def base_def)
  have nle: "unat n \<le> 1024" unfolding n_def by (rule blocks_needed_le)
  have np: "0 < unat n" using n0 by (simp add: n_def unat_gt_0)
  have "scan_result (bitmap_mem self) (unat (16 :: size_t) * 64) (unat n)
          (find_contiguous_blocks (bitmap_mem self) 16 n)"
    using n0 by (intro find_contiguous_blocks_scan) (simp_all add: n_def)
  then have run: "free_run (bitmap_mem self) (unat start) (unat n)"
    and fits: "unat start + unat n \<le> 1024"
    using fi by (simp_all add: scan_result_def bs n_def)
  have sl: "unat start < 1024" using fits np by simp
  define block_start where "block_start = base + start * POOL_BLOCK_SIZE"
  define bm1 where "bm1 = mark_blocks (block_bitmap pool) (bitmap_mem self) start n True"
  define mem2 where "mem2 = secure_clear_memory (store_size_t (byte_mem self) block_start n)
                              (block_start + POOL_METADATA_SIZE)
                              (n * POOL_BLOCK_SIZE - POOL_METADATA_SIZE)"
  define pool1 where "pool1 = add_total_allocations 1 (add_blocks_used n pool)"
  have res: "pool_allocate self sz =
      (block_start + POOL_METADATA_SIZE,
       self\<lparr>strategy_data := Some pool1, bitmap_mem := bm1, byte_mem := mem2\<rparr>)"
    unfolding block_start_def bm1_def mem2_def pool1_def n_def base_def
    by (rule pool_allocate_found [OF va sd pm bb co n0 fi u32])
  with assms(2) have p: "p = block_start + POOL_METADATA_SIZE"
    and s1: "self1 = self\<lparr>strategy_data := Some pool1, bitmap_mem := bm1, byte_mem := mem2\<rparr>"
    by simp_all
  have pb: "p - POOL_METADATA_SIZE = block_start" using p by simp
  have "unat (n * POOL_BLOCK_SIZE) = unat n * 256"
  proof -
    have "unat (n * 256) = (unat n * 256) mod 2 ^ 64" by (simp add: unat_word_ariths)
    then show ?thesis using nle by (simp add: POOL_BLOCK_SIZE_def)
  qed
  then have "unat (n * POOL_BLOCK_SIZE - POOL_METADATA_SIZE) = unat n * 256 - 8"
    using np by (simp add: unat_sub_if_size POOL_METADATA_SIZE_def)
  then have "unat (n * POOL_BLOCK_SIZE - POOL_METADATA_SIZE) \<le> 2 ^ 64 - 8"
    using nle by simp
  then have hdr: "load_size_t mem2 block_start = n"
    unfolding mem2_def by (rule header_survives_clear)
  have l1: "length bm1 = 16"
    unfolding bm1_def using mark_blocks_free(1) [OF bb len _ fits, of 0 True] n0
    by (simp add: n_def)
  have f1: "block_free bm1 b
              = (if unat start \<le> b \<and> b < unat start + unat n then False
                 else block_free (bitmap_mem self) b)" if "b < 1024" for b
    unfolding bm1_def using mark_blocks_free(2) [OF bb len _ fits that, of True] n0
    by (simp add: n_def)
  have marked: "{b. b < 1024 \<and> block_free (bitmap_mem self) b \<and> \<not> block_free bm1 b}
                  = {unat start ..< unat start + unat n}"
  proof (rule set_eqI)
    fix b
    show "b \<in> {b. b < 1024 \<and> block_free (bitmap_mem self) b \<and> \<not> block_free bm1 b}
            \<longleftrightarrow> b \<in> {unat start ..< unat start + unat n}"
    proof (cases "b < 1024")
      case True
      then show ?thesis
        using f1 [OF True] free_run_block [OF run, of b] by auto
    next
      case False
      then show ?thesis using fits by simp
    qed
  qed
  have vd: "validate_deallocation self1 p"
    using va user_ptr_valid [OF fit sl al]
    by (simp add: validate_deallocation_def validate_allocation_def s1 p block_start_def)
  have sd1: "strategy_data self1 = Some pool1" by (simp add: s1)
  have pm1: "pool_memory pool1 \<noteq> 0" "block_bitmap pool1 \<noteq> 0"
    "\<not> MAX_ALLOCATION_RETRIES \<le> ucast (concurrent_ops (metrics pool1))"
    using pm bb co by (simp_all add: pool1_def)
  have rng: "is_ptr_in_pool_range (p - POOL_METADATA_SIZE) (pool_memory pool1)
               (POOL_BLOCK_SIZE * POOL_BLOCK_COUNT)"
    using block_start_in_range [OF fit sl]
    by (simp add: pb block_start_def pool1_def base_def)
  have bi: "start = (p - POOL_METADATA_SIZE - pool_memory pool1) div POOL_BLOCK_SIZE"
    using block_index_of_start [OF sl, of base]
    by (simp add: pb block_start_def pool1_def base_def)
  have sw: "start < POOL_BLOCK_COUNT"
    using sl by (simp add: word_less_nat_alt POOL_BLOCK_COUNT_def)
  have used: "is_block_used (block_bitmap pool1) (bitmap_mem self1) start"
    using is_block_used_free [OF bb sw, of bm1] f1 [OF sl] np
    by (simp add: pool1_def s1)
  have nb: "n = load_size_t (byte_mem self1) (p - POOL_METADATA_SIZE)"
    using hdr by (simp add: s1 pb)
  have "unat (start + n) = unat start + unat n"
    using fits by (simp add: unat_add_lem [THEN iffD1])
  then have nov: "\<not> POOL_BLOCK_COUNT < start + n"
    using fits by (simp add: word_less_nat_alt POOL_BLOCK_COUNT_def)
  have n0': "n \<noteq> 0" using n0 by (simp add: n_def)
  note d = pool_deallocate_freed [OF vd sd1 pm1 rng bi used nb n0' nov]
  have bu: "n \<le> ucast (ucast (blocks_used (metrics pool1)) :: 32 word)"
    using blocks_used_after_allocation [OF u32 blocks_needed_le]
    by (simp add: pool1_def n_def)
  have restored: "mark_blocks (block_bitmap pool1) (bitmap_mem self1) start n False = bitmap_mem self"
    using mark_round_trip [OF bb len n0' fits run]
    by (simp add: pool1_def s1 bm1_def)
  have 1: "bitmap_mem (pool_deallocate self1 p) = bitmap_mem self"
    unfolding d using restored by simp
  have 2: "map_option (\<lambda>pool. blocks_used (metrics pool)) (strategy_data (pool_deallocate self1 p))
           = map_option (\<lambda>pool. blocks_used (metrics pool)) (strategy_data self)"
    unfolding d using bu sd
    by (simp add: pool1_def sub_blocks_used_def)
  have 3: "load_size_t (byte_mem self1) (p - POOL_METADATA_SIZE) = blocks_needed sz"
    using nb by (simp add: n_def)
  have 4: "{b. b < 1024 \<and> block_free (bitmap_mem self) b \<and> \<not> block_free (bitmap_mem self1) b}
             = {unat start ..< unat start + unat (load_size_t (byte_mem self1)
                                                     (p - POOL_METADATA_SIZE))}"
    using marked nb by (simp add: s1)
  from 1 2 3 4 show ?thesis by blast
qed


lemma fragmented_pool_allocation:
  "fst (pool_allocate fragmented_pool_example 300) = 0x10408"
  by code_simp

text \<open>
  300 bytes need two blocks; with the blocks 0, 1 and 3 used they are found at block 4,
  address 0x10408, and the deallocation restores the bitmap word 0x0B and the three used
  blocks.
\<close>

theorem pool_allocate_deallocate_round_trip_witness:
  "pool_wf fragmented_pool_example
   \<and> (\<exists>p self1. pool_allocate fragmented_pool_example 300 = (p, self1) \<and> p = 0x10408
         \<and> bitmap_mem (pool_deallocate self1 p) = 0x0B # replicate 15 0
         \<and> map_option (\<lambda>pool. blocks_used (metrics pool)) (strategy_data (pool_deallocate self1 p))
             = Some 3
         \<and> load_size_t (byte_mem self1) (p - POOL_METADATA_SIZE) = 2)"
proof -
  have wf: "pool_wf fragmented_pool_example"
    by (simp add: pool_wf_def fragmented_pool_example_def)
  obtain p self1 where e: "pool_allocate fragmented_pool_example 300 = (p, self1)"
    by (cases "pool_allocate fragmented_pool_example 300")
  with fragmented_pool_allocation have p: "p = 0x10408" by simp
  then have "p \<noteq> 0" by simp
  note t = pool_allocate_deallocate_round_trip [OF wf e this]
  have n: "blocks_needed 300 = 2"
    by (simp add: blocks_needed_def SIZE_MAX_def POOL_METADATA_SIZE_def POOL_BLOCK_SIZE_def
        POOL_BLOCK_COUNT_def Let_def)
  have b: "bitmap_mem fragmented_pool_example = 0x0B # replicate 15 0"
    "map_option (\<lambda>pool. blocks_used (metrics pool)) (strategy_data fragmented_pool_example)
       = Some 3"
    by (simp_all add: fragmented_pool_example_def)
  from t n b have "bitmap_mem (pool_deallocate self1 p) = 0x0B # replicate 15 0
      \<and> map_option (\<lambda>pool. blocks_used (metrics pool)) (strategy_data (pool_deallocate self1 p))
          = Some 3
      \<and> load_size_t (byte_mem self1) (p - POOL_METADATA_SIZE) = 2"
    by simp
  with wf e p show ?thesis by blast
qed

section \<open>The usage accounting of the DefaultStrategy\<close>

lemma slots_init:
  "replicate STATS_MAX_TRACKED_ALLOCATIONS empty_slot = empty_slot # replicate 999 empty_slot"
proof -
  have "(1000 :: nat) = Suc 999" by simp
  then show ?thesis
    unfolding STATS_MAX_TRACKED_ALLOCATIONS_def by (simp only: replicate_Suc)
qed

lemma max_retry_attempts_Suc: "MAX_RETRY_ATTEMPTS = Suc 9"
  by (simp add: MAX_RETRY_ATTEMPTS_def)

lemma max_counter_retries_Suc: "MAX_COUNTER_RETRIES = Suc 4"
  by (simp add: MAX_COUNTER_RETRIES_def)

lemma update_counter_loop_quiet:
  "update_counter_loop (Suc n) [] c v inc = (True, if inc then c + v else c - v)"
  by (simp add: cas_strong_def)

lemma update_counter_quiet:
  "update_counter_with_retry [] c v inc = (True, if inc then c + v else c - v)"
  unfolding update_counter_with_retry_def max_counter_retries_Suc
  by (rule update_counter_loop_quiet)

lemma allocation_bytes_loop_quiet:
  "allocation_bytes_loop (Suc n) [] st sz =
     (if current_bytes st + sz > peak_bytes st
      then st\<lparr>peak_bytes := current_bytes st + sz, current_bytes := current_bytes st + sz\<rparr>
      else st\<lparr>current_bytes := current_bytes st + sz\<rparr>)"
  by (simp add: cas_strong_def Let_def)

lemma allocation_bytes_quiet:
  "allocation_bytes_loop MAX_RETRY_ATTEMPTS [] st sz =
     (if current_bytes st + sz > peak_bytes st
      then st\<lparr>peak_bytes := current_bytes st + sz, current_bytes := current_bytes st + sz\<rparr>
      else st\<lparr>current_bytes := current_bytes st + sz\<rparr>)"
  unfolding max_retry_attempts_Suc by (rule allocation_bytes_loop_quiet)

lemma find_slot_attempts_first_free:
  assumes "active_allocations st = slot # rest" "valid slot = 0" "in_use slot = 0"
  shows "find_slot_attempts (Suc n) st
           = (Some 0, st\<lparr>active_allocations := slot\<lparr>in_use := 1\<rparr> # rest\<rparr>)"
  using assms by (simp add: find_free_slot_def)

lemma find_slot_first_free:
  assumes "active_allocations st = slot # rest" "valid slot = 0" "in_use slot = 0"
  shows "find_slot_attempts MAX_RETRY_ATTEMPTS st
           = (Some 0, st\<lparr>active_allocations := slot\<lparr>in_use := 1\<rparr> # rest\<rparr>)"
  unfolding max_retry_attempts_Suc using assms by (rule find_slot_attempts_first_free)

lemma update_allocation_tracks:
  assumes "ptr \<noteq> 0"
  shows "\<exists>st1. memory_stats_update_allocation quiet_stats_env (Some memory_stats_init) ptr sz
                 fl ln now = Some st1
             \<and> lookup_allocation_size (active_allocations st1) ptr = Some sz"
proof -
  define st0 where "st0 = memory_stats_init\<lparr>alloc_count :=
      snd (update_counter_with_retry (alloc_events quiet_stats_env)
             (alloc_count memory_stats_init) 1 True)\<rparr>"
  define st2 where "st2 = allocation_bytes_loop MAX_RETRY_ATTEMPTS (bytes_events quiet_stats_env)
      st0 sz"
  have a2: "active_allocations st2 = empty_slot # replicate 999 empty_slot"
    by (simp add: st2_def st0_def quiet_stats_env_def allocation_bytes_quiet
        memory_stats_init_def slots_init)
  have fs: "find_slot_attempts MAX_RETRY_ATTEMPTS st2
              = (Some 0, st2\<lparr>active_allocations :=
                               empty_slot\<lparr>in_use := 1\<rparr> # replicate 999 empty_slot\<rparr>)"
    by (rule find_slot_first_free [OF a2]) (simp_all add: empty_slot_def)
  show ?thesis
    using assms
    unfolding memory_stats_update_allocation_def
    by (simp add: st0_def [symmetric] st2_def [symmetric] fs Let_def fill_slot_def
        update_size_distribution_def record_allocation_def empty_slot_def)
qed

lemma create_default_strategy_value:
  "create_default_strategy True True =
     Some \<lparr>ds_stats = Some memory_stats_init,
           ds_tracker = \<lparr>current_status = STRATEGY_STATE_ACTIVE, transition_count = 1,
                          error_count = 0\<rparr>,
           total_allocated = 0, total_freed = 0, peak_usage = 0, usage_count = 0,
           operation_count = 0\<rparr>"
  by (simp add: create_default_strategy_def initialize_status_def transition_eval)


lemma usage_count_restored [simp]:
  "d\<lparr>usage_count := usage_count d + 1 - 1\<rparr> = (d :: DefaultStrategy)"
  by simp

lemma default_allocate_success:
  assumes "current_status (ds_tracker d) = STRATEGY_STATE_ACTIVE"
    and "is_valid_allocation_size (total_allocated d - total_freed d) sz"
    and "malloc_result \<noteq> 0"
  shows "default_allocate malloc_result enomem now (Some d) sz =
     (malloc_result,
      Some (d\<lparr>ds_stats := memory_stats_update_allocation quiet_stats_env (ds_stats d)
                             malloc_result sz ''default_strategy.c'' 118 now,
              total_allocated := total_allocated d + sz,
              peak_usage := (if peak_usage d < total_allocated d - total_freed d + sz
                             then total_allocated d - total_freed d + sz
                             else peak_usage d)\<rparr>))"
  using assms
  by (simp add: default_allocate_def Let_def check_strategy_status_def get_current_status_def
      perform_allocation_def update_allocation_stats_def update_peak_usage_def cas_strong_def)

lemma default_deallocate_tracked:
  assumes "current_status (ds_tracker d) \<noteq> STRATEGY_STATE_ERROR" and "ptr \<noteq> 0"
    and "ds_stats d = Some st"
    and "lookup_allocation_size (active_allocations st) ptr = Some sz"
  shows "default_deallocate (Some d) ptr =
     Some (d\<lparr>total_freed := total_freed d + sz,
              ds_stats := memory_stats_update_deallocation quiet_stats_env (Some st) ptr\<rparr>)"
  using assms
  by (simp add: default_deallocate_def default_validate_pointer_def get_current_status_def
      handle_deallocation_def memory_stats_get_allocation_size_def MEMORY_STATS_SUCCESS_def
      Let_def)

lemma default_allocate_peak_monotone:
  "unat (get_peak_usage (Some d))
     \<le> unat (get_peak_usage (snd (default_allocate malloc_result enomem now (Some d) sz)))"
  by (auto simp: default_allocate_def Let_def get_peak_usage_def perform_allocation_def
      update_allocation_stats_def update_peak_usage_def cas_strong_def word_less_nat_alt
      split: option.splits)

lemma default_deallocate_peak_unchanged:
  "get_peak_usage (default_deallocate (Some d) q) = get_peak_usage (Some d)"
  by (auto simp: default_deallocate_def Let_def get_peak_usage_def handle_deallocation_def
      get_current_status_def split: prod.splits)

text \<open>
  Claim C8 (usage accounting of the DefaultStrategy).  On a freshly created strategy, an
  allocation of 1024 bytes for which \<open>malloc\<close> returns a pointer that is not null returns
  that pointer and leaves \<open>get_current_usage\<close> and \<open>get_peak_usage\<close> at 1024; the
  deallocation of the pointer brings \<open>get_current_usage\<close> to 0 and leaves
  \<open>get_peak_usage\<close> at 1024.  From every strategy state, \<open>default_allocate\<close> never
  lowers \<open>peak_usage\<close> and \<open>default_deallocate\<close> does not change it.
\<close>

theorem default_strategy_usage_scenario:
  assumes "create_default_strategy True True = Some d0" and "malloc_result \<noteq> 0"
    and "allocated = default_allocate malloc_result enomem now (Some d0) 1024"
  shows "fst allocated = malloc_result
       \<and> get_current_usage (snd allocated) = 1024
       \<and> get_peak_usage (snd allocated) = 1024
       \<and> get_current_usage (default_deallocate (snd allocated) malloc_result) = 0
       \<and> get_peak_usage (default_deallocate (snd allocated) malloc_result) = 1024
       \<and> unat (get_peak_usage (Some d))
           \<le> unat (get_peak_usage (snd (default_allocate r e t (Some d) sz)))
       \<and> get_peak_usage (default_deallocate (Some d) q) = get_peak_usage (Some d)"
proof -
  let ?d0 = "\<lparr>ds_stats = Some memory_stats_init,
           ds_tracker = \<lparr>current_status = STRATEGY_STATE_ACTIVE, transition_count = 1,
                          error_count = 0\<rparr>,
           total_allocated = 0, total_freed = 0, peak_usage = 0, usage_count = 0,
           operation_count = 0\<rparr> :: DefaultStrategy"
  have d0: "d0 = ?d0" using assms(1) by (simp add: create_default_strategy_value)
  from update_allocation_tracks [OF assms(2), of 1024 "''default_strategy.c''" 118 now]
  obtain st1 where
    st1: "memory_stats_update_allocation quiet_stats_env (Some memory_stats_init) malloc_result
            1024 ''default_strategy.c'' 118 now = Some st1"
    and lk: "lookup_allocation_size (active_allocations st1) malloc_result = Some 1024"
    by blast
  have v: "is_valid_allocation_size (total_allocated ?d0 - total_freed ?d0) 1024"
    by (simp add: is_valid_allocation_size_def default_validate_size_def SIZE_MAX_def)
  define d1 where "d1 = ?d0\<lparr>ds_stats := Some st1, total_allocated := 1024, peak_usage := 1024\<rparr>"
  have al: "allocated = (malloc_result, Some d1)"
    unfolding assms(3) d0 d1_def
    using default_allocate_success [OF _ v assms(2), of enomem now] st1 by simp
  have ne: "current_status (ds_tracker d1) \<noteq> STRATEGY_STATE_ERROR"
    by (simp add: d1_def STRATEGY_STATE_ACTIVE_def STRATEGY_STATE_ERROR_def)
  have de: "default_deallocate (Some d1) malloc_result =
     Some (d1\<lparr>total_freed := total_freed d1 + 1024,
               ds_stats := memory_stats_update_deallocation quiet_stats_env (Some st1)
                             malloc_result\<rparr>)"
    by (rule default_deallocate_tracked [OF ne assms(2) _ lk]) (simp add: d1_def)
  have 1: "fst allocated = malloc_result" by (simp add: al)
  have 2: "get_current_usage (snd allocated) = 1024" "get_peak_usage (snd allocated) = 1024"
    by (simp_all add: al d1_def get_current_usage_def get_peak_usage_def)
  have 3: "get_current_usage (default_deallocate (snd allocated) malloc_result) = 0"
    "get_peak_usage (default_deallocate (snd allocated) malloc_result) = 1024"
    by (simp_all add: al de) (simp_all add: d1_def get_current_usage_def get_peak_usage_def)
  from 1 2 3 default_allocate_peak_monotone [of d r e t sz]
    default_deallocate_peak_unchanged [of d q]
  show ?thesis by simp
qed


text \<open>
  The scenario with \<open>malloc\<close> returning 0x5000.
\<close>

theorem default_strategy_usage_scenario_witness:
  "\<exists>d0. create_default_strategy True True = Some d0
      \<and> fst (default_allocate 0x5000 False 0 (Some d0) 1024) = 0x5000
      \<and> get_current_usage (snd (default_allocate 0x5000 False 0 (Some d0) 1024)) = 1024
      \<and> get_peak_usage (snd (default_allocate 0x5000 False 0 (Some d0) 1024)) = 1024
      \<and> get_current_usage
           (default_deallocate (snd (default_allocate 0x5000 False 0 (Some d0) 1024)) 0x5000) = 0
      \<and> get_peak_usage
           (default_deallocate (snd (default_allocate 0x5000 False 0 (Some d0) 1024)) 0x5000)
          = 1024"
proof -
  obtain d0 where c: "create_default_strategy True True = Some d0"
    by (simp add: create_default_strategy_value)
  have m: "(0x5000 :: uintptr_t) \<noteq> 0" by simp
  from default_strategy_usage_scenario [OF c m refl, of False 0 d0 0 False 0 0 0] c
  show ?thesis by blast
qed

end
